(* ===== verification/Kernel_Prelude.thy ===== *)
theory Kernel_Prelude
  imports Complex_Main "HOL-Library.Word" "HOL-Library.Char_ord" "HOL-Library.List_Lexorder"
    "HOL-Library.Multiset"
begin

text \<open>
  What every component of the development shares: the integers of the Rust sources at their
  width, UTF-8 strings, decimal printing, ordered tables, and the theorem collections
  that carry the component proofs.

  Conventions.
    \<^item> A Rust \<open>Result<T, E>\<close> is \<open>'e + 't\<close> (\<open>Inl\<close> the error), an \<open>Option\<close> is \<open>option\<close>.
    \<^item> A Rust \<open>String\<close> is its UTF-8 bytes, one \<open>char\<close> per byte; \<open>str\<close> ordering is then the
      lexicographic order on bytes, which \<open>List_Lexorder\<close> and \<open>Char_ord\<close> give.
    \<^item> An \<open>i64\<close> is an \<open>int\<close>, and each arithmetic operation of the sources is written with
      its wrap-around (the workspace sets no \<open>overflow-checks\<close> in its profiles, so a release
      build wraps) or its saturation.
    \<^item> A \<open>HashMap\<close> or \<open>BTreeMap\<close> is a table: an association list in strictly ascending key
      order. Where the sources iterate a \<open>HashMap\<close> they sort or collect into an ordered set
      afterwards, so the order of the model is one the program cannot be told from.
\<close>

named_theorems table_simps \<open>lookups after table operations\<close>
named_theorems codec_simps \<open>reading a frame body back\<close>
named_theorems handler_defs \<open>the operations of the stateful components\<close>

section \<open>Results\<close>

definition bind_result :: "'e + 'a \<Rightarrow> ('a \<Rightarrow> 'e + 'b) \<Rightarrow> 'e + 'b" where
  "bind_result r f = (case r of Inl e \<Rightarrow> Inl e | Inr a \<Rightarrow> f a)"

lemma bind_result_simps [simp]:
  "bind_result (Inl e) f = Inl e"
  "bind_result (Inr a) f = f a"
  by (simp_all add: bind_result_def)

lemma bind_result_Inr_iff: "bind_result r f = Inr b \<longleftrightarrow> (\<exists>a. r = Inr a \<and> f a = Inr b)"
  by (cases r) auto

lemma bind_result_Inl_iff:
  "bind_result r f = Inl e \<longleftrightarrow> r = Inl e \<or> (\<exists>a. r = Inr a \<and> f a = Inl e)"
  by (cases r) auto

lemma not_isl_iff: "\<not> isl r \<longleftrightarrow> (\<exists>a. r = Inr a)"
  by (cases r) auto

lemma isl_iff: "isl r \<longleftrightarrow> (\<exists>e. r = Inl e)"
  by (cases r) auto

text \<open>A fallible operation on a state, then another one: \<open>?\<close> inside a \<open>&mut self\<close> method.\<close>

definition and_then ::
  "('e + 'a) \<times> 's \<Rightarrow> ('a \<Rightarrow> 's \<Rightarrow> ('e + 'b) \<times> 's) \<Rightarrow> ('e + 'b) \<times> 's" where
  "and_then r f = (case r of (Inl e, s) \<Rightarrow> (Inl e, s) | (Inr a, s) \<Rightarrow> f a s)"

lemma and_then_simps [simp]:
  "and_then (Inl e, s) f = (Inl e, s)"
  "and_then (Inr a, s) f = f a s"
  by (simp_all add: and_then_def)

fun traverse_result :: "('a \<Rightarrow> 'e + 'b) \<Rightarrow> 'a list \<Rightarrow> 'e + 'b list" where
  "traverse_result f [] = Inr []"
| "traverse_result f (x # xs) =
     bind_result (f x) (\<lambda>y. bind_result (traverse_result f xs) (\<lambda>ys. Inr (y # ys)))"

lemma traverse_result_all:
  "(\<And>x. x \<in> set xs \<Longrightarrow> f x = Inr (g x)) \<Longrightarrow> traverse_result f xs = Inr (map g xs)"
  by (induction xs) auto

lemma traverse_result_Inr:
  "traverse_result f xs = Inr ys \<longleftrightarrow> list_all2 (\<lambda>x y. f x = Inr y) xs ys"
  by (induction xs arbitrary: ys)
    (auto simp: bind_result_Inr_iff list_all2_Cons1)

section \<open>Machines\<close>

text \<open>
  A component as its operations on a state. What every operation keeps and how every operation
  moves the state along a preorder then hold along every sequence of operations.
\<close>

locale machine =
  fixes step :: "'op \<Rightarrow> 's \<Rightarrow> 's"
    and inv :: "'s \<Rightarrow> bool"
    and moves :: "'s \<Rightarrow> 's \<Rightarrow> bool"
  assumes inv_step: "inv s \<Longrightarrow> inv (step op s)"
    and moves_step: "inv s \<Longrightarrow> moves s (step op s)"
    and moves_refl: "moves s s"
    and moves_trans: "moves s t \<Longrightarrow> moves t u \<Longrightarrow> moves s u"
begin

definition run :: "'op list \<Rightarrow> 's \<Rightarrow> 's" where
  "run ops s = foldl (\<lambda>s op. step op s) s ops"

lemma run_simps: "run [] s = s" "run (op # ops) s = run ops (step op s)"
  by (simp_all add: run_def)

lemma run_append: "run (ops @ ops') s = run ops' (run ops s)"
  by (simp add: run_def)

lemma inv_run: "inv s \<Longrightarrow> inv (run ops s)"
  by (induction ops arbitrary: s) (simp_all add: run_simps inv_step)

lemma moves_run: "inv s \<Longrightarrow> moves s (run ops s)"
proof (induction ops arbitrary: s)
  case Nil
  then show ?case by (simp add: run_simps moves_refl)
next
  case (Cons op ops)
  then have "moves s (step op s)" "moves (step op s) (run ops (step op s))"
    by (simp_all add: moves_step inv_step)
  then show ?case by (simp add: run_simps moves_trans)
qed

end

text \<open>
  What a step says of its input, and the inputs a sequence of steps said yes to. A component
  that marks what it accepted, never forgets a mark and refuses what is marked accepts no key
  twice, in any sequence of steps.
\<close>

fun accepted_by :: "('i \<Rightarrow> 's \<Rightarrow> bool \<times> 's) \<Rightarrow> 'i list \<Rightarrow> 's \<Rightarrow> 'i list" where
  "accepted_by step [] s = []"
| "accepted_by step (i # inputs) s =
     (let (ok, s') = step i s
      in if ok then i # accepted_by step inputs s' else accepted_by step inputs s')"

locale at_most_once =
  fixes step :: "'i \<Rightarrow> 's \<Rightarrow> bool \<times> 's"
    and key :: "'i \<Rightarrow> 'k"
    and marked :: "'s \<Rightarrow> 'k \<Rightarrow> bool"
  assumes accept_marks: "step i s = (True, s') \<Longrightarrow> marked s' (key i)"
    and marks_kept: "marked s k \<Longrightarrow> marked (snd (step i s)) k"
    and marked_refused: "marked s (key i) \<Longrightarrow> \<not> fst (step i s)"
begin

lemma marked_never_accepted: "marked s k \<Longrightarrow> k \<notin> key ` set (accepted_by step inputs s)"
proof (induction inputs arbitrary: s)
  case (Cons i inputs)
  obtain ok s' where step: "step i s = (ok, s')" by force
  with marks_kept [OF Cons.prems, of i] have "marked s' k" by simp
  with Cons.IH have rest: "k \<notin> key ` set (accepted_by step inputs s')" by blast
  have "ok \<Longrightarrow> key i \<noteq> k" using marked_refused [of s i] Cons.prems step by auto
  with rest step show ?case by (cases ok) auto
qed simp

lemma accepted_distinct: "distinct (map key (accepted_by step inputs s))"
proof (induction inputs arbitrary: s)
  case (Cons i inputs)
  obtain ok s' where step: "step i s = (ok, s')" by force
  show ?case
  proof (cases ok)
    case True
    then have "marked s' (key i)" using accept_marks step by simp
    then have "key i \<notin> key ` set (accepted_by step inputs s')" by (rule marked_never_accepted)
    with True step Cons.IH show ?thesis by simp
  qed (use step Cons.IH in simp)
qed simp

end

lemma find_Some_append: "find P l = Some x \<Longrightarrow> find P (l @ m) = Some x"
  by (induction l) (auto split: if_splits)

lemma find_None_append: "find P l = None \<Longrightarrow> find P (l @ m) = find P m"
  by (induction l) (auto split: if_splits)

section \<open>A source that is not an authority\<close>

text \<open>
  Merging what a peer published into what the local file says: the local entries first, then the
  published ones the local file has no entry for; every published entry is counted as added,
  unchanged or in conflict.
\<close>

locale source_merge =
  fixes key :: "'e \<Rightarrow> 'k"
    and same :: "'e \<Rightarrow> 'e \<Rightarrow> bool"
    and view :: "'e list \<Rightarrow> 'e list \<Rightarrow> 'e list"
    and added :: "'e list \<Rightarrow> 'e list \<Rightarrow> nat"
    and unchanged :: "'e list \<Rightarrow> 'e list \<Rightarrow> nat"
    and conflicts :: "'e list \<Rightarrow> 'e list \<Rightarrow> 'k list"
  assumes view_is: "view l t = l @ filter (\<lambda>e. find (\<lambda>k. key k = key e) l = None) t"
    and added_is: "added l t = length (filter (\<lambda>e. find (\<lambda>k. key k = key e) l = None) t)"
    and unchanged_is: "unchanged l t =
      length (filter (\<lambda>e. \<exists>k. find (\<lambda>k. key k = key e) l = Some k \<and> same k e) t)"
    and conflicts_is: "conflicts l t =
      map key (filter (\<lambda>e. \<exists>k. find (\<lambda>k. key k = key e) l = Some k \<and> \<not> same k e) t)"
begin

lemma local_wins: "find (\<lambda>e. key e = k) l = Some e \<Longrightarrow> find (\<lambda>e. key e = k) (view l t) = Some e"
  by (simp add: view_is find_Some_append)

lemma published_fills_in:
  assumes "find (\<lambda>e. key e = k) l = None"
  shows "find (\<lambda>e. key e = k) (view l t) = find (\<lambda>e. key e = k) t"
proof -
  have "find (\<lambda>e. key e = k) (filter (\<lambda>e. find (\<lambda>k. key k = key e) l = None) t) =
    find (\<lambda>e. key e = k) t"
    using assms by (induction t) auto
  then show ?thesis using assms by (simp add: view_is find_None_append)
qed

lemma keeps_local: "set l \<subseteq> set (view l t)" "set (view l t) \<subseteq> set l \<union> set t"
  by (auto simp: view_is)

lemma view_distinct:
  assumes "distinct (map key l)" "distinct (map key t)"
  shows "distinct (map key (view l t))"
proof -
  have "distinct (map key (filter (\<lambda>e. find (\<lambda>k. key k = key e) l = None) t))"
    using assms(2) by (induction t) auto
  then show ?thesis using assms(1) by (auto simp: view_is find_None_iff)
qed

lemma merge_again: "view (view l t) t = view l t"
proof -
  have "find (\<lambda>k. key k = key e) (view l t) \<noteq> None" if "e \<in> set t" for e
    using that by (cases "find (\<lambda>k. key k = key e) l")
      (auto simp: published_fills_in local_wins find_None_iff)
  then show ?thesis by (subst view_is) (auto simp: filter_empty_conv)
qed

lemma every_entry_counted: "added l t + unchanged l t + length (conflicts l t) = length t"
proof -
  have "length (filter (\<lambda>e. find (\<lambda>k. key k = key e) l = None) t) +
    length (filter (\<lambda>e. \<exists>k. find (\<lambda>k. key k = key e) l = Some k \<and> same k e) t) +
    length (filter (\<lambda>e. \<exists>k. find (\<lambda>k. key k = key e) l = Some k \<and> \<not> same k e) t) = length t"
    by (induction t) auto
  then show ?thesis by (simp add: added_is unchanged_is conflicts_is)
qed

lemma conflict_iff:
  "k \<in> set (conflicts l t) \<longleftrightarrow>
   (\<exists>e \<in> set t. key e = k \<and> (\<exists>m. find (\<lambda>e. key e = k) l = Some m \<and> \<not> same m e))"
  by (auto simp: conflicts_is)

end

section \<open>Signed 64-bit arithmetic\<close>

definition i64_min :: int where "i64_min = - (2 ^ 63)"
definition i64_max :: int where "i64_max = 2 ^ 63 - 1"

definition is_i64 :: "int \<Rightarrow> bool" where
  "is_i64 x \<longleftrightarrow> i64_min \<le> x \<and> x \<le> i64_max"

definition wrap_i64 :: "int \<Rightarrow> int" where
  "wrap_i64 x = (x + 2 ^ 63) mod 2 ^ 64 - 2 ^ 63"

definition i64_add :: "int \<Rightarrow> int \<Rightarrow> int" where "i64_add a b = wrap_i64 (a + b)"
definition i64_sub :: "int \<Rightarrow> int \<Rightarrow> int" where "i64_sub a b = wrap_i64 (a - b)"

definition i64_sat :: "int \<Rightarrow> int" where "i64_sat x = max i64_min (min i64_max x)"
definition i64_sat_add :: "int \<Rightarrow> int \<Rightarrow> int" where "i64_sat_add a b = i64_sat (a + b)"
definition i64_sat_sub :: "int \<Rightarrow> int \<Rightarrow> int" where "i64_sat_sub a b = i64_sat (a - b)"

lemmas i64_bounds = is_i64_def i64_min_def i64_max_def

lemma wrap_i64_id: "is_i64 x \<Longrightarrow> wrap_i64 x = x"
  by (simp add: wrap_i64_def i64_bounds)

lemma wrap_i64_range: "is_i64 (wrap_i64 x)"
proof -
  have "0 \<le> (x + 2 ^ 63) mod 2 ^ 64" and "(x + 2 ^ 63) mod 2 ^ 64 < (2 ^ 64 :: int)"
    by simp_all
  then show ?thesis by (simp add: wrap_i64_def i64_bounds)
qed

lemma i64_sub_id: "is_i64 (a - b) \<Longrightarrow> i64_sub a b = a - b"
  by (simp add: i64_sub_def wrap_i64_id)

lemma i64_add_id: "is_i64 (a + b) \<Longrightarrow> i64_add a b = a + b"
  by (simp add: i64_add_def wrap_i64_id)

lemma i64_sat_id: "is_i64 x \<Longrightarrow> i64_sat x = x"
  by (simp add: i64_sat_def is_i64_def)

lemma i64_sat_range: "is_i64 (i64_sat x)"
  by (auto simp: i64_sat_def i64_bounds)

text \<open>A clock reading far from the ends of the type: epoch milliseconds until the year 146 million.\<close>

definition sane_clock :: "int \<Rightarrow> bool" where
  "sane_clock t \<longleftrightarrow> 0 \<le> t \<and> t < 2 ^ 62"

lemma sane_sub: "sane_clock a \<Longrightarrow> sane_clock b \<Longrightarrow> i64_sub a b = a - b"
  by (rule i64_sub_id) (simp add: sane_clock_def i64_bounds)

section \<open>Decimal text\<close>

definition digit_char :: "nat \<Rightarrow> char" where
  "digit_char d = char_of (48 + d)"

fun show_nat :: "nat \<Rightarrow> string" where
  "show_nat n = (if n < 10 then [digit_char n] else show_nat (n div 10) @ [digit_char (n mod 10)])"

declare show_nat.simps [simp del]

definition show_int :: "int \<Rightarrow> string" where
  "show_int i = (if i < 0 then CHR ''-'' # show_nat (nat (- i)) else show_nat (nat i))"

definition digit_val :: "char \<Rightarrow> nat" where
  "digit_val c = of_char c - 48"

fun read_nat :: "string \<Rightarrow> nat \<Rightarrow> nat" where
  "read_nat [] acc = acc"
| "read_nat (c # cs) acc = read_nat cs (10 * acc + digit_val c)"

lemma digit_val_char: "d < 10 \<Longrightarrow> digit_val (digit_char d) = d"
  by (simp add: digit_val_def digit_char_def)

lemma read_nat_append: "read_nat (xs @ ys) acc = read_nat ys (read_nat xs acc)"
  by (induction xs arbitrary: acc) auto

lemma read_show_nat: "read_nat (show_nat n) 0 = n"
proof (induction n rule: show_nat.induct)
  case (1 n)
  show ?case
  proof (cases "n < 10")
    case True
    then show ?thesis by (subst show_nat.simps) (simp add: digit_val_char)
  next
    case False
    with 1 show ?thesis
      by (subst show_nat.simps) (simp add: read_nat_append digit_val_char)
  qed
qed

lemma show_nat_inj: "show_nat m = show_nat n \<Longrightarrow> m = n"
  by (metis read_show_nat)

lemma show_nat_digits: "c \<in> set (show_nat n) \<Longrightarrow> \<exists>d<10. c = digit_char d"
proof (induction n rule: show_nat.induct)
  case (1 n)
  show ?case
  proof (cases "n < 10")
    case True
    with 1(2) show ?thesis by (subst (asm) show_nat.simps) auto
  next
    case False
    with 1(2) have "c \<in> set (show_nat (n div 10)) \<or> c = digit_char (n mod 10)"
      by (subst (asm) show_nat.simps) auto
    moreover have "n mod 10 < 10" by simp
    ultimately show ?thesis using 1(1) [OF False] by blast
  qed
qed

lemma digit_char_neq: "d < 10 \<Longrightarrow> digit_char d \<noteq> CHR ''-'' \<and> digit_char d \<noteq> CHR ''|''"
proof -
  assume "d < 10"
  then have "of_char (digit_char d) = (48 + d :: nat)"
    by (simp add: digit_char_def)
  with \<open>d < 10\<close> show ?thesis by auto
qed

lemma show_nat_no_minus: "CHR ''-'' \<notin> set (show_nat n)"
  by (metis show_nat_digits digit_char_neq)

lemma show_nat_no_bar: "CHR ''|'' \<notin> set (show_nat n)"
  by (metis show_nat_digits digit_char_neq)

lemma show_int_no_bar: "CHR ''|'' \<notin> set (show_int i)"
  by (simp add: show_int_def show_nat_no_bar)

lemma show_int_inj:
  assumes "show_int i = show_int j"
  shows "i = j"
proof -
  have hd: "show_nat n \<noteq> CHR ''-'' # xs" for n xs
    using show_nat_no_minus [of n] by auto
  show ?thesis
    using assms hd [of "nat i"] hd [of "nat j"] hd [of "nat i", symmetric] hd [of "nat j", symmetric]
    by (auto simp: show_int_def dest!: show_nat_inj split: if_splits)
qed

section \<open>UTF-8 strings\<close>

definition is_continuation :: "char \<Rightarrow> bool" where
  "is_continuation c \<longleftrightarrow> of_char c div 64 = (2 :: nat)"

text \<open>\<open>str::chars\<close>, each scalar kept as its bytes: a lead byte with its continuation bytes.\<close>

function utf8_chars :: "string \<Rightarrow> string list" where
  "utf8_chars [] = []"
| "utf8_chars (c # cs) =
     (c # takeWhile is_continuation cs) # utf8_chars (dropWhile is_continuation cs)"
  by pat_completeness auto
termination
  by (relation "measure length") (auto simp: le_imp_less_Suc length_dropWhile_le)

lemma concat_utf8_chars: "concat (utf8_chars s) = s"
  by (induction s rule: utf8_chars.induct) auto

lemma utf8_chars_eq_Nil [simp]: "utf8_chars s = [] \<longleftrightarrow> s = []"
  by (cases s) auto

lemma utf8_chars_nonempty: "x \<in> set (utf8_chars s) \<Longrightarrow> x \<noteq> []"
  by (induction s rule: utf8_chars.induct) auto

text \<open>\<open>to_ascii_lowercase\<close> and \<open>eq_ignore_ascii_case\<close>.\<close>

definition ascii_lower :: "char \<Rightarrow> char" where
  "ascii_lower c = (let n = of_char c in if 65 \<le> n \<and> n \<le> (90 :: nat) then char_of (n + 32) else c)"

definition eq_ignore_ascii_case :: "string \<Rightarrow> string \<Rightarrow> bool" where
  "eq_ignore_ascii_case a b \<longleftrightarrow> map ascii_lower a = map ascii_lower b"

text \<open>Unicode's \<open>White_Space\<close>, as UTF-8 encodings: what \<open>str::trim\<close> removes.\<close>

definition byte_string :: "nat list \<Rightarrow> string" where
  "byte_string bs = map char_of bs"

definition whitespace_scalars :: "string list" where
  "whitespace_scalars = map byte_string
     ([[9], [10], [11], [12], [13], [32], [194, 133], [194, 160], [225, 154, 128]] @
      map (\<lambda>b. [226, 128, b]) [128 ..< 139] @
      [[226, 128, 168], [226, 128, 169], [226, 128, 175], [226, 129, 159], [227, 128, 128]])"

definition is_whitespace :: "string \<Rightarrow> bool" where
  "is_whitespace ch \<longleftrightarrow> List.member whitespace_scalars ch"

definition trim :: "string \<Rightarrow> string" where
  "trim s = concat (rev (dropWhile is_whitespace (rev (dropWhile is_whitespace (utf8_chars s)))))"

lemma concat_nonempty_eq_Nil: "(\<And>x. x \<in> set xs \<Longrightarrow> x \<noteq> []) \<Longrightarrow> concat xs = [] \<longleftrightarrow> xs = []"
  by (cases xs) auto

lemma trim_eq_Nil: "trim s = [] \<longleftrightarrow> (\<forall>ch \<in> set (utf8_chars s). is_whitespace ch)"
proof -
  define d where "d = dropWhile is_whitespace (utf8_chars s)"
  have "trim s = concat (rev (dropWhile is_whitespace (rev d)))"
    by (simp add: trim_def d_def)
  moreover have "x \<noteq> []" if "x \<in> set (rev (dropWhile is_whitespace (rev d)))" for x
  proof -
    from that have "x \<in> set (utf8_chars s)"
      by (auto simp: d_def dest!: set_dropWhileD)
    then show ?thesis by (rule utf8_chars_nonempty)
  qed
  ultimately have "trim s = [] \<longleftrightarrow> (\<forall>x \<in> set d. is_whitespace x)"
    by (simp add: concat_nonempty_eq_Nil dropWhile_eq_Nil_conv)
  also have "\<dots> \<longleftrightarrow> (\<forall>x \<in> set (utf8_chars s). is_whitespace x)"
  proof -
    have "d = [] \<longleftrightarrow> (\<forall>x \<in> set (utf8_chars s). is_whitespace x)"
      by (simp add: d_def)
    moreover have "d \<noteq> [] \<Longrightarrow> \<not> is_whitespace (hd d)"
      using hd_dropWhile [of is_whitespace "utf8_chars s"] by (simp add: d_def)
    moreover have "d \<noteq> [] \<Longrightarrow> hd d \<in> set d"
      by simp
    moreover have "\<And>x. x \<in> set d \<Longrightarrow> x \<in> set (utf8_chars s)"
      by (auto simp: d_def dest: set_dropWhileD)
    ultimately show ?thesis by (metis empty_iff empty_set)
  qed
  finally show ?thesis .
qed

text \<open>A string that starts with a visible ASCII character is not blank.\<close>

lemma whitespace_heads: "w \<in> set whitespace_scalars \<Longrightarrow> of_char (hd w) \<le> (32 :: nat) \<or> 128 \<le> (of_char (hd w) :: nat)"
  by (auto simp: whitespace_scalars_def byte_string_def)

lemma visible_not_blank:
  assumes "(32 :: nat) < of_char c" "of_char c < (128 :: nat)"
  shows "trim (c # s) \<noteq> []"
proof -
  have "\<not> is_whitespace (c # takeWhile is_continuation s)"
    using assms whitespace_heads [of "c # takeWhile is_continuation s"] by (auto simp: is_whitespace_def)
  then show ?thesis by (simp add: trim_eq_Nil)
qed

text \<open>The test on the lead byte first, for evaluation.\<close>

lemma is_whitespace_code [code]:
  "is_whitespace ch =
     (case ch of
        [] \<Rightarrow> False
      | c # _ \<Rightarrow> (let n = of_char c :: nat
                 in if 32 < n \<and> n < 128 then False else List.member whitespace_scalars ch))"
proof (cases ch)
  case Nil
  have "[] \<notin> set whitespace_scalars" by (auto simp: whitespace_scalars_def byte_string_def)
  then show ?thesis using Nil by (simp add: is_whitespace_def)
next
  case (Cons c cs)
  then show ?thesis using whitespace_heads [of ch] by (auto simp: is_whitespace_def Let_def)
qed

lemma takeWhile_append_stop: "\<not> p c \<Longrightarrow> takeWhile p (xs @ c # ys) = takeWhile p xs"
  by (induction xs) auto

lemma dropWhile_append_stop: "\<not> p c \<Longrightarrow> dropWhile p (xs @ c # ys) = dropWhile p xs @ c # ys"
  by (induction xs) auto

lemma utf8_chars_append:
  "\<not> is_continuation c \<Longrightarrow> utf8_chars (xs @ c # ys) = utf8_chars xs @ utf8_chars (c # ys)"
proof (induction xs rule: utf8_chars.induct)
  case (2 d ds)
  then show ?case by (simp add: takeWhile_append_stop dropWhile_append_stop)
qed simp

text \<open>A text between two ASCII marks is trimmed to itself, with or without a newline behind it.\<close>

lemma trim_framed:
  assumes "\<not> is_continuation d" "\<not> is_whitespace [d]"
    "\<And>xs. \<not> is_whitespace (c # xs)" "\<not> is_continuation n" "is_whitespace [n]"
  shows "trim (c # s @ [d, n]) = c # s @ [d]"
proof -
  have "utf8_chars (c # s @ [d, n]) = utf8_chars (c # s) @ [[d], [n]]"
    using utf8_chars_append [OF assms(1), of "c # s" "[n]"] utf8_chars_append [OF assms(4), of "[d]" "[]"]
      assms(1,4)
    by simp
  then obtain us where us: "utf8_chars (c # s @ [d, n]) = (c # takeWhile is_continuation s) # us @ [[d], [n]]"
    by simp
  have "concat (utf8_chars (c # s @ [d, n])) = c # s @ [d, n]" by (rule concat_utf8_chars)
  with us have "concat ((c # takeWhile is_continuation s) # us) = c # s" by simp
  with us assms show ?thesis by (simp add: trim_def)
qed

definition starts_with :: "string \<Rightarrow> string \<Rightarrow> bool" where
  "starts_with s p \<longleftrightarrow> take (length p) s = p"

lemma starts_with_append [simp]: "starts_with (p @ s) p"
  by (simp add: starts_with_def)

section \<open>Ordered tables\<close>

fun put :: "'k::linorder \<Rightarrow> 'v \<Rightarrow> ('k \<times> 'v) list \<Rightarrow> ('k \<times> 'v) list" where
  "put k v [] = [(k, v)]"
| "put k v ((a, b) # m) =
     (if k < a then (k, v) # (a, b) # m
      else if k = a then (k, v) # m
      else (a, b) # put k v m)"

definition del :: "'k \<Rightarrow> ('k \<times> 'v) list \<Rightarrow> ('k \<times> 'v) list" where
  "del k m = filter (\<lambda>e. fst e \<noteq> k) m"

definition ordered :: "('k::linorder \<times> 'v) list \<Rightarrow> bool" where
  "ordered m \<longleftrightarrow> sorted_wrt (<) (map fst m)"

lemma map_of_put [table_simps, simp]: "map_of (put k v m) = (map_of m)(k \<mapsto> v)"
  by (induction k v m rule: put.induct) (auto simp: fun_eq_iff)

lemma map_of_del [table_simps, simp]: "map_of (del k m) = (map_of m)(k := None)"
  by (induction m) (auto simp: del_def fun_eq_iff)

lemma keys_put: "fst ` set (put k v m) = insert k (fst ` set m)"
  by (induction k v m rule: put.induct) auto

lemma keys_del: "fst ` set (del k m) = fst ` set m - {k}"
  by (auto simp: del_def)

lemma ordered_Nil [simp]: "ordered []"
  by (simp add: ordered_def)

lemma ordered_put: "ordered m \<Longrightarrow> ordered (put k v m)"
proof (induction k v m rule: put.induct)
  case (2 k v a b m)
  then show ?case
    using keys_put [of k v m]
    by (fastforce simp: ordered_def)
qed (simp add: ordered_def)

lemma ordered_del: "ordered m \<Longrightarrow> ordered (del k m)"
  by (induction m) (auto simp: ordered_def del_def)

lemma ordered_distinct: "ordered m \<Longrightarrow> distinct (map fst m)"
  unfolding ordered_def by (simp add: strict_sorted_iff)

lemma ordered_map_of: "ordered m \<Longrightarrow> map_of m k = Some v \<longleftrightarrow> (k, v) \<in> set m"
  using ordered_distinct [of m] by (auto dest: map_of_SomeD)


end
