(* ===== verification/Json.thy ===== *)
theory Json
  imports Kernel_Prelude
begin

text \<open>
  The JSON data model that every frame body, audit detail and configuration file is read
  through, and the crate-external functions the sources call on it.

  \<open>json\<close> is the public enum of \<open>serde_json\<close>: its \<open>Number\<close> is an integer in the joint range
  of \<open>i64\<close> and \<open>u64\<close> or a finite float (kept by value), and its \<open>Map\<close> is a \<open>BTreeMap\<close> (the lock
  file has no \<open>preserve_order\<close>), i.e. an ordered table. The accessors are their documented
  behaviour. Text encoding, SHA-256, base64url and Ed25519 are not in the repository: they are
  the fields of \<open>externs\<close>, an argument of the definitions that call them.
\<close>

section \<open>Values\<close>

datatype json =
    JNull
  | JBool bool
  | JInt int
  | JFloat rat
  | JStr string
  | JArr "json list"
  | JObj "(string \<times> json) list"

definition json_get :: "string \<Rightarrow> json \<Rightarrow> json option" where
  "json_get k v = (case v of JObj m \<Rightarrow> map_of m k | _ \<Rightarrow> None)"

fun as_str :: "json \<Rightarrow> string option" where
  "as_str (JStr s) = Some s"
| "as_str _ = None"

fun as_bool :: "json \<Rightarrow> bool option" where
  "as_bool (JBool b) = Some b"
| "as_bool _ = None"

fun as_u64 :: "json \<Rightarrow> nat option" where
  "as_u64 (JInt i) = (if 0 \<le> i \<and> i < 2 ^ 64 then Some (nat i) else None)"
| "as_u64 _ = None"

fun as_i64 :: "json \<Rightarrow> int option" where
  "as_i64 (JInt i) = (if is_i64 i then Some i else None)"
| "as_i64 _ = None"

fun as_object :: "json \<Rightarrow> (string \<times> json) list option" where
  "as_object (JObj m) = Some m"
| "as_object _ = None"

definition opt_str :: "string option \<Rightarrow> json" where
  "opt_str s = (case s of None \<Rightarrow> JNull | Some t \<Rightarrow> JStr t)"

definition opt_nat :: "nat option \<Rightarrow> json" where
  "opt_nat n = (case n of None \<Rightarrow> JNull | Some k \<Rightarrow> JInt (int k))"

definition opt_int :: "int option \<Rightarrow> json" where
  "opt_int n = (case n of None \<Rightarrow> JNull | Some k \<Rightarrow> JInt k)"

definition str_list :: "string list \<Rightarrow> json" where
  "str_list xs = JArr (map JStr xs)"

text \<open>What the \<open>json!\<close> macro builds: the members inserted one after the other.\<close>

definition obj_insert_all :: "(string \<times> 'v) list \<Rightarrow> (string \<times> 'v) list" where
  "obj_insert_all kvs = foldl (\<lambda>m (k, v). put k v m) [] kvs"

definition json_obj :: "(string \<times> json) list \<Rightarrow> json" where
  "json_obj kvs = JObj (obj_insert_all kvs)"

lemma map_of_insert_fold:
  "map_of (foldl (\<lambda>m (k, v). put k v m) m kvs) = map_of m ++ map_of (rev kvs)"
  by (induction kvs arbitrary: m) (auto simp: map_add_def fun_eq_iff split: option.splits)

lemma map_of_obj_insert_all: "map_of (obj_insert_all kvs) = map_of (rev kvs)"
  by (simp add: obj_insert_all_def map_of_insert_fold)

lemma ordered_insert_fold: "ordered m \<Longrightarrow> ordered (foldl (\<lambda>m (k, v). put k v m) m kvs)"
  by (induction kvs arbitrary: m) (auto intro: ordered_put)

lemma ordered_obj_insert_all: "ordered (obj_insert_all kvs)"
  by (simp add: obj_insert_all_def ordered_insert_fold)

lemma set_put_subset: "set (put k v m) \<subseteq> insert (k, v) (set m)"
  by (induction k v m rule: put.induct) auto

lemma set_obj_insert_all: "set (obj_insert_all kvs) \<subseteq> set kvs"
proof -
  have "set (foldl (\<lambda>m (k, v). put k v m) m kvs) \<subseteq> set m \<union> set kvs" for m
  proof (induction kvs arbitrary: m)
    case (Cons kv kvs)
    then show ?case using set_put_subset by (cases kv) fastforce
  qed simp
  from this [of "[]"] show ?thesis by (simp add: obj_insert_all_def)
qed

lemma json_get_obj [codec_simps]: "json_get k (json_obj kvs) = map_of (rev kvs) k"
  by (simp add: json_get_def json_obj_def map_of_obj_insert_all)

lemma as_u64_small [codec_simps]: "n < 2 ^ 64 \<Longrightarrow> as_u64 (JInt (int n)) = Some n"
  by simp

lemma as_i64_small [codec_simps]: "is_i64 i \<Longrightarrow> as_i64 (JInt i) = Some i"
  by simp

lemma as_str_opt_str [codec_simps]: "as_str (opt_str s) = s"
  by (cases s) (auto simp: opt_str_def)

lemma as_u64_opt_nat [codec_simps]:
  "(\<And>k. n = Some k \<Longrightarrow> k < 2 ^ 64) \<Longrightarrow> as_u64 (opt_nat n) = n"
  by (cases n) (auto simp: opt_nat_def)

section \<open>Well-formed values\<close>

text \<open>
  What a value of the Rust type satisfies: every object is a \<open>BTreeMap\<close>, i.e. its members are in
  strict key order, and every integer is an \<open>i64\<close> or a \<open>u64\<close>.
\<close>

fun wf_json :: "json \<Rightarrow> bool" where
  "wf_json (JArr vs) \<longleftrightarrow> (\<forall>v \<in> set vs. wf_json v)"
| "wf_json (JObj m) \<longleftrightarrow> ordered m \<and> (\<forall>e \<in> set m. wf_json (snd e))"
| "wf_json (JInt i) \<longleftrightarrow> i64_min \<le> i \<and> i < 2 ^ 64"
| "wf_json _ \<longleftrightarrow> True"

lemma wf_json_obj: "(\<And>k v. (k, v) \<in> set kvs \<Longrightarrow> wf_json v) \<Longrightarrow> wf_json (json_obj kvs)"
  using set_obj_insert_all [of kvs]
  by (auto simp: json_obj_def ordered_obj_insert_all)

lemma wf_opt_str [simp]: "wf_json (opt_str s)"
  by (simp add: opt_str_def split: option.split)

lemma wf_JInt_i64: "is_i64 i \<Longrightarrow> wf_json (JInt i)"
  by (simp add: i64_bounds)

lemma wf_JInt_u64: "n < 2 ^ 64 \<Longrightarrow> wf_json (JInt (int n))"
  by (simp add: i64_bounds)

lemma wf_str_list [simp]: "wf_json (str_list xs)"
  by (auto simp: str_list_def)

section \<open>Derived decoding\<close>

text \<open>
  What \<open>#[derive(Deserialize)]\<close> generates, over a value: a struct is read from an object, or
  from an array of its fields in declaration order; unknown members are ignored; an array may
  stop before the fields that have a default. \<open>None\<close> is serde's error, whose text is not modelled.
\<close>

definition struct_fields :: "string list \<Rightarrow> json \<Rightarrow> (string \<Rightarrow> json option) option" where
  "struct_fields names v =
     (case v of
        JObj m \<Rightarrow> Some (map_of m)
      | JArr vs \<Rightarrow> if length vs \<le> length names then Some (map_of (zip names vs)) else None
      | _ \<Rightarrow> None)"

definition de_required :: "(string \<Rightarrow> json option) \<Rightarrow> string \<Rightarrow> (json \<Rightarrow> 'a option) \<Rightarrow> 'a option" where
  "de_required fs k f = Option.bind (fs k) f"

definition de_default ::
  "(string \<Rightarrow> json option) \<Rightarrow> string \<Rightarrow> (json \<Rightarrow> 'a option) \<Rightarrow> 'a \<Rightarrow> 'a option" where
  "de_default fs k f d = (case fs k of None \<Rightarrow> Some d | Some v \<Rightarrow> f v)"

fun de_u32 :: "json \<Rightarrow> nat option" where
  "de_u32 (JInt i) = (if 0 \<le> i \<and> i < 2 ^ 32 then Some (nat i) else None)"
| "de_u32 _ = None"

fun de_vec :: "(json \<Rightarrow> 'a option) \<Rightarrow> json \<Rightarrow> 'a list option" where
  "de_vec f (JArr vs) = those (map f vs)"
| "de_vec f _ = None"

lemma those_map_Some: "(\<And>x. x \<in> set xs \<Longrightarrow> f (g x) = Some x) \<Longrightarrow> those (map f (map g xs)) = Some xs"
  by (induction xs) auto

lemma those_eq_Some: "those xs = Some ys \<longleftrightarrow> xs = map Some ys"
proof (induction xs arbitrary: ys)
  case Nil
  then show ?case by auto
next
  case (Cons x xs)
  then show ?case by (cases x; cases ys) auto
qed

lemma de_vec_str [codec_simps]: "de_vec as_str (str_list xs) = Some xs"
  by (simp add: str_list_def those_map_Some del: map_map)

section \<open>Canonical form\<close>

text \<open>\<open>canonicalize\<close> of \<open>audit/src/run.rs\<close>: sort the keys, rebuild, recurse.\<close>

fun canonicalize :: "json \<Rightarrow> json" where
  "canonicalize (JObj m) =
     json_obj (sort_key fst (map (\<lambda>e. (fst e, canonicalize (snd e))) m))"
| "canonicalize (JArr vs) = JArr (map canonicalize vs)"
| "canonicalize v = v"

lemma ordered_put_last:
  "ordered m \<Longrightarrow> (\<And>a. a \<in> fst ` set m \<Longrightarrow> a < k) \<Longrightarrow> put k v m = m @ [(k, v)]"
proof (induction m)
  case (Cons e m)
  obtain a b where e: "e = (a, b)" by force
  have "a < k" using Cons.prems(2) [of a] e by simp
  moreover have "put k v m = m @ [(k, v)]"
    using Cons by (auto simp: ordered_def)
  ultimately show ?case using e by auto
qed simp

lemma insert_fold_ordered:
  "ordered (m @ kvs) \<Longrightarrow> foldl (\<lambda>m (k, v). put k v m) m kvs = m @ kvs"
proof (induction kvs arbitrary: m)
  case (Cons e kvs)
  obtain k v where e: "e = (k, v)" by force
  have "ordered m" and lt: "\<And>a. a \<in> fst ` set m \<Longrightarrow> a < k"
    using Cons.prems e by (auto simp: ordered_def sorted_wrt_append)
  then have "put k v m = m @ [(k, v)]" by (rule ordered_put_last)
  then show ?case using Cons.IH [of "m @ [(k, v)]"] Cons.prems e by simp
qed simp

lemma obj_insert_all_ordered: "ordered kvs \<Longrightarrow> obj_insert_all kvs = kvs"
  using insert_fold_ordered [of "[]" kvs] by (simp add: obj_insert_all_def)

lemma sort_key_ordered: "ordered m \<Longrightarrow> sort_key fst m = m"
  by (rule sort_key_id_if_sorted) (simp add: ordered_def strict_sorted_iff)

lemma ordered_map_snd: "ordered (map (\<lambda>e. (fst e, g (snd e))) m) \<longleftrightarrow> ordered m"
  by (simp add: ordered_def comp_def)

text \<open>Integers in range, with the members of its objects in any order.\<close>

fun ints_ok :: "json \<Rightarrow> bool" where
  "ints_ok (JArr vs) \<longleftrightarrow> (\<forall>v \<in> set vs. ints_ok v)"
| "ints_ok (JObj m) \<longleftrightarrow> (\<forall>e \<in> set m. ints_ok (snd e))"
| "ints_ok (JInt i) \<longleftrightarrow> i64_min \<le> i \<and> i < 2 ^ 64"
| "ints_ok _ \<longleftrightarrow> True"

lemma canonicalize_wf: "ints_ok v \<Longrightarrow> wf_json (canonicalize v)"
proof (induction v rule: canonicalize.induct)
  case (1 m)
  then show ?case by (auto intro!: wf_json_obj)
qed auto

lemma canonicalize_id: "wf_json v \<Longrightarrow> canonicalize v = v"
proof (induction v rule: canonicalize.induct)
  case (1 m)
  have "map (\<lambda>e. (fst e, canonicalize (snd e))) m = m"
    using 1 by (intro map_idI) (auto simp: prod_eq_iff)
  with 1(2) show ?case
    by (simp add: json_obj_def sort_key_ordered obj_insert_all_ordered)
next
  case (2 vs)
  then show ?case by (auto intro: map_idI)
qed auto

text \<open>
  Two trees that differ only in the order of their members: what a value could look like were
  the \<open>preserve_order\<close> feature on (each member once, in some order).
\<close>

inductive same_members :: "json \<Rightarrow> json \<Rightarrow> bool" where
  atom: "same_members v v"
| arr: "list_all2 same_members vs ws \<Longrightarrow> same_members (JArr vs) (JArr ws)"
| obj: "distinct (map fst m) \<Longrightarrow> mset n' = mset n \<Longrightarrow>
     list_all2 (\<lambda>e e'. fst e = fst e' \<and> same_members (snd e) (snd e')) m n' \<Longrightarrow>
     same_members (JObj m) (JObj n)"

lemma sort_key_distinct_perm:
  assumes "distinct (map fst m)" "mset m = mset n"
  shows "sort_key fst m = sort_key fst n"
proof (rule sort_key_inj_key_eq)
  show "mset m = mset (sort_key fst n)" using assms by simp
  show "inj_on fst (set m)" using assms(1) by (simp add: distinct_map)
  show "sorted (map fst (sort_key fst n))" by simp
qed

lemma list_all2_map_eq: "list_all2 (\<lambda>x y. f x = f y) xs ys \<Longrightarrow> map f xs = map f ys"
  by (induction rule: list_all2_induct) auto

lemma canonicalize_same_members: "same_members v w \<Longrightarrow> canonicalize v = canonicalize w"
proof (induction rule: same_members.induct)
  case (arr vs ws)
  then have "map canonicalize vs = map canonicalize ws"
    by (intro list_all2_map_eq) (auto elim: list_all2_mono)
  then show ?case by simp
next
  case (obj m n' n)
  define g where "g = (\<lambda>e :: string \<times> json. (fst e, canonicalize (snd e)))"
  have eq: "map g m = map g n'"
    using obj(3) by (intro list_all2_map_eq) (auto simp: g_def elim: list_all2_mono)
  have "map fst (map g n') = map fst (map g m)" by (simp add: eq)
  then have "distinct (map fst (map g n'))"
    using obj(1) by (simp add: g_def comp_def)
  moreover have "mset (map g n') = mset (map g n)"
    using obj(2) by simp
  ultimately have "sort_key fst (map g m) = sort_key fst (map g n)"
    by (simp only: eq sort_key_distinct_perm)
  then show ?case by (simp add: g_def)
qed simp

section \<open>Functions of other crates\<close>

text \<open>
  \<open>x_sha\<close>: SHA-256 as lowercase hex; \<open>x_text\<close>, \<open>x_pretty\<close> and \<open>x_parse\<close>: \<open>serde_json::to_string\<close>,
  \<open>to_string_pretty\<close> and \<open>from_str\<close>, \<open>x_json_error\<close> the text of its error and
  \<open>x_conversion_error\<close> that of a column \<open>rusqlite\<close> could not convert; \<open>x_b64d\<close> and \<open>x_b64e\<close>: base64url without padding; \<open>x_point\<close>: whether 32 bytes are an
  Ed25519 public key; \<open>x_verify key bytes sig\<close>: \<open>verify_strict\<close>; \<open>x_public seed\<close> and
  \<open>x_sign seed bytes\<close>: the key pair of a seed.
\<close>

record externs =
  x_sha :: "string \<Rightarrow> string"
  x_text :: "json \<Rightarrow> string"
  x_pretty :: "json \<Rightarrow> string"
  x_parse :: "string \<Rightarrow> json option"
  x_json_error :: "string \<Rightarrow> string"
  x_conversion_error :: "nat \<Rightarrow> string \<Rightarrow> string"
  x_b64d :: "string \<Rightarrow> string option"
  x_b64e :: "string \<Rightarrow> string"
  x_point :: "string \<Rightarrow> bool"
  x_verify :: "string \<Rightarrow> string \<Rightarrow> string \<Rightarrow> bool"
  x_public :: "string \<Rightarrow> string"
  x_sign :: "string \<Rightarrow> string \<Rightarrow> string"

text \<open>
  \<open>from_str\<close> inverts \<open>to_string\<close> on the values it can read back exactly: without floats (the crate's
  \<open>float_roundtrip\<close> feature is off) and nested less deeply than its recursion limit of 128.
\<close>

fun float_free_depth :: "nat \<Rightarrow> json \<Rightarrow> bool" where
  "float_free_depth d (JArr vs) \<longleftrightarrow> 0 < d \<and> (\<forall>v \<in> set vs. float_free_depth (d - 1) v)"
| "float_free_depth d (JObj m) \<longleftrightarrow> 0 < d \<and> (\<forall>e \<in> set m. float_free_depth (d - 1) (snd e))"
| "float_free_depth d (JFloat r) \<longleftrightarrow> False"
| "float_free_depth d _ \<longleftrightarrow> True"

definition printable :: "json \<Rightarrow> bool" where
  "printable v \<longleftrightarrow> wf_json v \<and> float_free_depth 127 v"

lemma printable_obj:
  assumes "\<And>k v. (k, v) \<in> set kvs \<Longrightarrow> wf_json v \<and> float_free_depth 126 v"
  shows "printable (json_obj kvs)"
proof -
  have "wf_json (json_obj kvs)" using assms by (intro wf_json_obj) blast
  moreover have "float_free_depth 127 (json_obj kvs)"
    using assms set_obj_insert_all [of kvs] by (fastforce simp: json_obj_def)
  ultimately show ?thesis by (simp add: printable_def)
qed

lemma flat_values [simp]:
  "float_free_depth d (opt_str s)" "float_free_depth d (JInt i)" "float_free_depth d (JStr t)"
  "float_free_depth d (JBool b)" "float_free_depth d JNull"
  by (simp_all add: opt_str_def split: option.split)

definition text_roundtrips :: "externs \<Rightarrow> bool" where
  "text_roundtrips X \<longleftrightarrow> (\<forall>v. printable v \<longrightarrow> x_parse X (x_text X v) = Some v)"

definition canonical_json :: "externs \<Rightarrow> json \<Rightarrow> string" where
  "canonical_json X v = x_text X (canonicalize v)"

definition fingerprint :: "externs \<Rightarrow> json \<Rightarrow> string" where
  "fingerprint X v = x_sha X (canonical_json X v)"

lemma canonical_json_same_members:
  "same_members v w \<Longrightarrow> canonical_json X v = canonical_json X w"
  by (simp add: canonical_json_def canonicalize_same_members)

lemma canonical_json_inj:
  assumes "text_roundtrips X" "printable v" "printable w" "canonical_json X v = canonical_json X w"
  shows "v = w"
proof -
  have "x_text X v = x_text X w"
    using assms by (simp add: canonical_json_def canonicalize_id printable_def)
  with assms show ?thesis
    unfolding text_roundtrips_def by (metis option.inject)
qed

lemma text_roundtrips_printable:
  "text_roundtrips X \<Longrightarrow> printable v \<Longrightarrow> x_parse X (x_text X v) = Some v"
  by (simp add: text_roundtrips_def)

text \<open>
  A derived \<open>Serialize\<close> writes a struct's members in declaration order, not in key order. Reading
  such a text back as a value gives the members in key order; the text of an object starts and
  ends with its braces.
\<close>

definition newline :: string where "newline = [char_of (10 :: nat)]"

fun distinct_members :: "json \<Rightarrow> bool" where
  "distinct_members (JArr vs) \<longleftrightarrow> (\<forall>v \<in> set vs. distinct_members v)"
| "distinct_members (JObj m) \<longleftrightarrow> distinct (map fst m) \<and> (\<forall>e \<in> set m. distinct_members (snd e))"
| "distinct_members _ \<longleftrightarrow> True"

definition struct_printable :: "json \<Rightarrow> bool" where
  "struct_printable v \<longleftrightarrow> ints_ok v \<and> distinct_members v \<and> float_free_depth 127 v"

definition struct_roundtrips :: "externs \<Rightarrow> bool" where
  "struct_roundtrips X \<longleftrightarrow>
     (\<forall>v. struct_printable v \<longrightarrow> x_parse X (x_text X v) = Some (canonicalize v)) \<and>
     (\<forall>m. trim (x_text X (JObj m) @ newline) = x_text X (JObj m))"

definition pretty_roundtrips :: "externs \<Rightarrow> bool" where
  "pretty_roundtrips X \<longleftrightarrow>
     (\<forall>v. struct_printable v \<longrightarrow> x_parse X (x_pretty X v @ newline) = Some (canonicalize v))"

lemma wf_json_struct: "wf_json v \<Longrightarrow> ints_ok v \<and> distinct_members v"
  by (induction v rule: wf_json.induct) (auto dest: ordered_distinct)

lemma struct_text_roundtrips: "struct_roundtrips X \<Longrightarrow> text_roundtrips X"
  using wf_json_struct by (auto simp: struct_roundtrips_def text_roundtrips_def printable_def
      struct_printable_def canonicalize_id)

section \<open>Reading a struct back\<close>

lemma map_of_canonicalize_obj:
  assumes "distinct (map fst m)"
  obtains kvs where "canonicalize (JObj m) = JObj kvs"
    "map_of kvs = (\<lambda>k. map_option canonicalize (map_of m k))"
proof -
  define g where "g = (\<lambda>e :: string \<times> json. (fst e, canonicalize (snd e)))"
  have dg: "distinct (map fst (map g m))" using assms by (simp add: g_def comp_def)
  have "mset (map fst (sort_key fst (map g m))) = mset (map fst (map g m))"
    by (simp only: mset_map mset_sort)
  then have "distinct (map fst (sort_key fst (map g m)))"
    using dg mset_eq_imp_distinct_iff by blast
  then have "sorted_wrt (<) (map fst (sort_key fst (map g m)))"
    by (simp add: strict_sorted_iff)
  then have ord: "ordered (sort_key fst (map g m))" by (simp add: ordered_def)
  have "map_of (sort_key fst (map g m)) = map_of (map g m)"
    using dg ordered_distinct [OF ord] by (intro map_of_inject_set [THEN iffD2]) auto
  moreover have "map_of (map g m) = (\<lambda>k. map_option canonicalize (map_of m k))"
    by (induction m) (auto simp: g_def fun_eq_iff)
  ultimately show thesis
    using that [of "sort_key fst (map g m)"] obj_insert_all_ordered [OF ord]
    by (simp add: json_obj_def flip: g_def)
qed

lemma struct_fields_canonicalize [codec_simps]:
  "distinct (map fst m) \<Longrightarrow>
   struct_fields names (canonicalize (JObj m)) = Some (\<lambda>k. map_option canonicalize (map_of m k))"
  by (erule map_of_canonicalize_obj) (simp add: struct_fields_def)

lemma json_get_canonicalize:
  "distinct (map fst m) \<Longrightarrow> json_get k (canonicalize (JObj m)) = map_option canonicalize (map_of m k)"
  by (erule map_of_canonicalize_obj) (simp add: json_get_def)

lemma canonicalize_str_list [simp]: "canonicalize (str_list xs) = str_list xs"
  by (simp add: str_list_def)

lemma de_vec_map [codec_simps]:
  "(\<And>x. x \<in> set xs \<Longrightarrow> f (g x) = Some x) \<Longrightarrow> de_vec f (JArr (map g xs)) = Some xs"
  by (simp add: those_map_Some del: map_map)

end
