(* ===== verification/Audit_Chain.thy ===== *)
theory Audit_Chain
  imports Json
begin

text \<open>
  The hash chain: \<open>audit/src/event.rs\<close> (the events) and \<open>audit/src/hash.rs\<close> (the chain formula and
  \<open>verify_chain\<close>). The rows are what \<open>AuditStore::scan\<close> reads, oldest first. The lemmas relate
  the verifier's loop to the declarative \<open>chained\<close> and say what the formula does and does not
  protect.
\<close>

section \<open>Errors\<close>

text \<open>\<open>rusqlite\<close>'s errors by what the store asks of them (\<open>is_lock_error\<close>), with their text.\<close>

datatype sqlite_error =
    DatabaseBusy string
  | DatabaseLocked string
  | SqliteFailure string
  | FromSqlConversionFailure nat string

datatype audit_error =
    Sqlite sqlite_error
  | Json string
  | Io string
  | DataTooNew int int
  | Other string

fun sqlite_error_text :: "sqlite_error \<Rightarrow> string" where
  "sqlite_error_text (DatabaseBusy t) = t"
| "sqlite_error_text (DatabaseLocked t) = t"
| "sqlite_error_text (SqliteFailure t) = t"
| "sqlite_error_text (FromSqlConversionFailure column t) = t"

fun audit_error_text :: "audit_error \<Rightarrow> string" where
  "audit_error_text (Sqlite e) = ''sqlite error: '' @ sqlite_error_text e"
| "audit_error_text (Json t) = ''json error: '' @ t"
| "audit_error_text (Io t) = ''io error: '' @ t"
| "audit_error_text (DataTooNew found supported) =
     ''audit database schema version '' @ show_int found @
     '' is newer than this build supports ('' @ show_int supported @ '')''"
| "audit_error_text (Other t) = t"

section \<open>Events and rows\<close>

record audit_event =
  ev_timestamp_ms :: int
  ev_actor :: string
  ev_action :: string
  ev_detail :: json
  ev_agent_id :: "string option"

record stored_event =
  se_id :: int
  se_event :: audit_event
  se_prev_hash :: string
  se_hash :: string

record raw_row =
  row_id :: int
  row_timestamp_ms :: int
  row_actor :: string
  row_action :: string
  row_detail_json :: string
  row_prev_hash :: string
  row_hash :: string
  row_agent_id :: "string option"

definition audit_event_new :: "int \<Rightarrow> string \<Rightarrow> string \<Rightarrow> json \<Rightarrow> audit_event" where
  "audit_event_new now actor act detail =
     \<lparr>ev_timestamp_ms = now, ev_actor = actor, ev_action = act, ev_detail = detail,
      ev_agent_id = None\<rparr>"

definition with_agent :: "audit_event \<Rightarrow> string \<Rightarrow> audit_event" where
  "with_agent ev agent = ev\<lparr>ev_agent_id := Some agent\<rparr>"

text \<open>\<open>serde_json::from_str\<close> under \<open>?\<close>, and \<open>RawRow::into_stored\<close>.\<close>

definition parse_detail :: "externs \<Rightarrow> string \<Rightarrow> audit_error + json" where
  "parse_detail X s =
     (case x_parse X s of None \<Rightarrow> Inl (Json (x_json_error X s)) | Some v \<Rightarrow> Inr v)"

definition into_stored :: "externs \<Rightarrow> raw_row \<Rightarrow> audit_error + stored_event" where
  "into_stored X row =
     bind_result (parse_detail X (row_detail_json row)) (\<lambda>detail.
       Inr \<lparr>se_id = row_id row,
          se_event = \<lparr>ev_timestamp_ms = row_timestamp_ms row, ev_actor = row_actor row,
            ev_action = row_action row, ev_detail = detail, ev_agent_id = row_agent_id row\<rparr>,
          se_prev_hash = row_prev_hash row, se_hash = row_hash row\<rparr>)"

section \<open>The chain hash\<close>

definition GENESIS_PREV_HASH :: string where
  "GENESIS_PREV_HASH = replicate 64 (CHR ''0'')"

definition hash_input :: "string \<Rightarrow> audit_event \<Rightarrow> string \<Rightarrow> string" where
  "hash_input prev_hash ev detail_json =
     prev_hash @ ''|'' @ show_int (ev_timestamp_ms ev) @ ''|'' @ ev_actor ev @ ''|'' @
     ev_action ev @ ''|'' @ detail_json"

definition compute_hash :: "externs \<Rightarrow> string \<Rightarrow> audit_event \<Rightarrow> string \<Rightarrow> string" where
  "compute_hash X prev_hash ev detail_json = x_sha X (hash_input prev_hash ev detail_json)"

text \<open>The event a verifier feeds to the formula: the row's own columns, no detail, no agent.\<close>

definition row_event :: "raw_row \<Rightarrow> audit_event" where
  "row_event row =
     \<lparr>ev_timestamp_ms = row_timestamp_ms row, ev_actor = row_actor row,
      ev_action = row_action row, ev_detail = JNull, ev_agent_id = None\<rparr>"

definition recomputed :: "externs \<Rightarrow> raw_row \<Rightarrow> string" where
  "recomputed X row = compute_hash X (row_prev_hash row) (row_event row) (row_detail_json row)"

section \<open>Verification\<close>

datatype chain_status = Intact nat | Broken int string

fun verify_rows :: "externs \<Rightarrow> string \<Rightarrow> raw_row list \<Rightarrow> (int \<times> string) option" where
  "verify_rows X expected_prev [] = None"
| "verify_rows X expected_prev (row # rows) =
     (if row_prev_hash row \<noteq> expected_prev then
        Some (row_id row, ''prev_hash mismatch: expected '' @ expected_prev @ '', found '' @
          row_prev_hash row)
      else if recomputed X row \<noteq> row_hash row then
        Some (row_id row, ''hash mismatch: expected '' @ recomputed X row @ '', found '' @
          row_hash row)
      else verify_rows X (row_hash row) rows)"

definition verify_chain :: "externs \<Rightarrow> raw_row list \<Rightarrow> chain_status" where
  "verify_chain X rows =
     (case verify_rows X GENESIS_PREV_HASH rows of
        None \<Rightarrow> Intact (length rows)
      | Some (at_id, reason) \<Rightarrow> Broken at_id reason)"

section \<open>The declarative chain\<close>

fun chained :: "externs \<Rightarrow> string \<Rightarrow> raw_row list \<Rightarrow> bool" where
  "chained X p [] \<longleftrightarrow> True"
| "chained X p (row # rows) \<longleftrightarrow>
     row_prev_hash row = p \<and> row_hash row = recomputed X row \<and> chained X (row_hash row) rows"

definition head_of :: "string \<Rightarrow> raw_row list \<Rightarrow> string" where
  "head_of p rows = (if rows = [] then p else row_hash (last rows))"

lemma head_of_simps [simp]:
  "head_of p [] = p"
  "head_of p (row # rows) = head_of (row_hash row) rows"
  "head_of p (rows @ [row]) = row_hash row"
  by (auto simp: head_of_def)

lemma chained_append: "chained X p (rs @ ss) \<longleftrightarrow> chained X p rs \<and> chained X (head_of p rs) ss"
  by (induction rs arbitrary: p) auto

lemma verify_rows_None: "verify_rows X p rows = None \<longleftrightarrow> chained X p rows"
  by (induction X p rows rule: verify_rows.induct) auto

lemma verify_chain_Intact: "verify_chain X rows = Intact n \<longleftrightarrow> chained X GENESIS_PREV_HASH rows \<and> n = length rows"
  using verify_rows_None [of X GENESIS_PREV_HASH rows]
  by (auto simp: verify_chain_def split: option.splits)

lemma verify_rows_Some:
  "verify_rows X p rows = Some (i, why) \<Longrightarrow>
   \<exists>pre row post. rows = pre @ row # post \<and> chained X p pre \<and> row_id row = i \<and>
     \<not> chained X (head_of p pre) [row]"
proof (induction X p rows rule: verify_rows.induct)
  case (2 X p row rows)
  show ?case
  proof (cases "row_prev_hash row = p \<and> recomputed X row = row_hash row")
    case True
    with 2 obtain pre r post where "rows = pre @ r # post" "chained X (row_hash row) pre"
      "row_id r = i" "\<not> chained X (head_of (row_hash row) pre) [r]"
      by auto
    with True show ?thesis
      by (intro exI [of _ "row # pre"] exI [of _ r] exI [of _ post]) auto
  next
    case False
    with 2 have "row_id row = i" by (auto split: if_splits)
    with False show ?thesis
      by (intro exI [of _ "[]"] exI [of _ row] exI [of _ rows]) auto
  qed
qed simp

lemma recomputed_agent [simp]: "recomputed X (row\<lparr>row_agent_id := a\<rparr>) = recomputed X row"
  by (simp add: recomputed_def row_event_def)

section \<open>Reading the formula backwards\<close>

lemma split_at_bar:
  assumes "CHR ''|'' \<notin> set a" "CHR ''|'' \<notin> set b"
  shows "a @ CHR ''|'' # x = b @ CHR ''|'' # y \<longleftrightarrow> a = b \<and> x = y"
proof
  assume eq: "a @ CHR ''|'' # x = b @ CHR ''|'' # y"
  have "takeWhile (\<lambda>c. c \<noteq> CHR ''|'') (a @ CHR ''|'' # x) = a"
    and "takeWhile (\<lambda>c. c \<noteq> CHR ''|'') (b @ CHR ''|'' # y) = b"
    using assms by (subst takeWhile_append2; auto)+
  with eq show "a = b \<and> x = y" by auto
qed simp

text \<open>The separator is read back where no field before the last can hold it.\<close>

definition bar_free :: "audit_event \<Rightarrow> bool" where
  "bar_free ev \<longleftrightarrow> CHR ''|'' \<notin> set (ev_actor ev) \<and> CHR ''|'' \<notin> set (ev_action ev)"

lemma hash_input_prev:
  assumes "CHR ''|'' \<notin> set p" "CHR ''|'' \<notin> set q" "hash_input p e d = hash_input q f c"
  shows "p = q \<and> ev_timestamp_ms e = ev_timestamp_ms f"
  using assms show_int_no_bar by (auto simp: hash_input_def split_at_bar dest: show_int_inj)

lemma hash_input_inj:
  assumes "CHR ''|'' \<notin> set p" "CHR ''|'' \<notin> set q" "bar_free e" "bar_free f"
    and "hash_input p e d = hash_input q f c"
  shows "p = q \<and> ev_timestamp_ms e = ev_timestamp_ms f \<and> ev_actor e = ev_actor f \<and>
    ev_action e = ev_action f \<and> d = c"
  using assms show_int_no_bar
  by (auto simp: hash_input_def bar_free_def split_at_bar dest: show_int_inj)

lemma GENESIS_no_bar: "CHR ''|'' \<notin> set GENESIS_PREV_HASH"
  by (simp add: GENESIS_PREV_HASH_def)

text \<open>
  What is documented of SHA-256 and its hex form, as far as the chain relies on it: no two inputs
  of the log collide, and the digest is hexadecimal.
\<close>

definition collision_free :: "externs \<Rightarrow> bool" where
  "collision_free X \<longleftrightarrow> inj (x_sha X) \<and> (\<forall>s. CHR ''|'' \<notin> set (x_sha X s))"

text \<open>The columns the hash covers.\<close>

definition row_content :: "raw_row \<Rightarrow> int \<times> string \<times> string \<times> string \<times> string \<times> string" where
  "row_content row = (row_timestamp_ms row, row_actor row, row_action row, row_detail_json row,
     row_prev_hash row, row_hash row)"

lemma chained_prev_no_bar:
  assumes "collision_free X" "CHR ''|'' \<notin> set p" "chained X p rows" "row \<in> set rows"
  shows "CHR ''|'' \<notin> set (row_prev_hash row)"
  using assms
proof (induction rows arbitrary: p)
  case (Cons r rows)
  have "CHR ''|'' \<notin> set (row_hash r)"
    using Cons.prems by (auto simp: collision_free_def recomputed_def compute_hash_def)
  with Cons show ?case by auto
qed simp

lemma head_determines_rows:
  assumes cf: "collision_free X"
    and "chained X GENESIS_PREV_HASH rs" "chained X GENESIS_PREV_HASH ss"
    and "length rs = length ss" "head_of GENESIS_PREV_HASH rs = head_of GENESIS_PREV_HASH ss"
    and "\<forall>row \<in> set rs \<union> set ss. bar_free (row_event row)"
  shows "map row_content rs = map row_content ss"
  using assms(2-)
proof (induction rs arbitrary: ss rule: rev_induct)
  case (snoc r rs)
  then obtain s ss' where ss: "ss = ss' @ [s]"
    by (cases ss rule: rev_cases) auto
  have ch: "chained X GENESIS_PREV_HASH rs" "chained X GENESIS_PREV_HASH ss'"
    and prev: "row_prev_hash r = head_of GENESIS_PREV_HASH rs"
      "row_prev_hash s = head_of GENESIS_PREV_HASH ss'"
    and hash: "row_hash r = recomputed X r" "row_hash s = recomputed X s"
    using snoc.prems ss by (auto simp: chained_append)
  have "recomputed X r = recomputed X s"
    using snoc.prems(4) ss hash by simp
  then have input: "hash_input (row_prev_hash r) (row_event r) (row_detail_json r) =
      hash_input (row_prev_hash s) (row_event s) (row_detail_json s)"
    using cf by (simp add: recomputed_def compute_hash_def collision_free_def inj_eq)
  have nobar: "CHR ''|'' \<notin> set (row_prev_hash r)" "CHR ''|'' \<notin> set (row_prev_hash s)"
    using chained_prev_no_bar [OF cf GENESIS_no_bar snoc.prems(1), of r]
      chained_prev_no_bar [OF cf GENESIS_no_bar snoc.prems(2), of s] ss by auto
  from hash_input_inj [OF nobar _ _ input]
  have eq: "row_prev_hash r = row_prev_hash s" "row_timestamp_ms r = row_timestamp_ms s"
    "row_actor r = row_actor s" "row_action r = row_action s"
    "row_detail_json r = row_detail_json s"
    using snoc.prems(5) ss by (auto simp: row_event_def)
  with prev have "head_of GENESIS_PREV_HASH rs = head_of GENESIS_PREV_HASH ss'" by simp
  then have "map row_content rs = map row_content ss'"
    using snoc.IH [OF ch] snoc.prems ss by auto
  moreover have "row_content r = row_content s"
    using eq snoc.prems(4) ss by (simp add: row_content_def)
  ultimately show ?case using ss by simp
qed simp

end
