(* ===== verification/Audit_Runs.thy ===== *)
theory Audit_Runs
  imports Audit_Chain
begin

text \<open>
  Run provenance, \<open>audit/src/run.rs\<close>: the payloads of \<open>run.start\<close> and \<open>run.end\<close>, the interval a
  run occupies, and the derivation of the run index from a chain. \<open>history\<close> is the abstract
  specification of one run (its first opening event and what closes it), and \<open>derive_runs_history\<close>
  shows that the one-pass derivation computes it for every run at once.
\<close>

section \<open>Constants and fingerprints\<close>

definition ACTION_RUN_START :: string where "ACTION_RUN_START = ''run.start''"
definition ACTION_RUN_END :: string where "ACTION_RUN_END = ''run.end''"
definition ACTION_RUN_ABANDONED :: string where "ACTION_RUN_ABANDONED = ''host.run.abandoned''"
definition FINGERPRINT_SCHEMA_V1 :: string where
  "FINGERPRINT_SCHEMA_V1 = ''riscdom.run.fingerprint.v1''"
definition SHORT_FINGERPRINT_LEN :: nat where "SHORT_FINGERPRINT_LEN = 16"

lemmas run_actions = ACTION_RUN_START_def ACTION_RUN_END_def ACTION_RUN_ABANDONED_def

definition short_fingerprint :: "string \<Rightarrow> string" where
  "short_fingerprint fp = concat (take SHORT_FINGERPRINT_LEN (utf8_chars fp))"

section \<open>Status and payloads\<close>

datatype run_status = Open | Ok | Failed | Interrupted | Abandoned

fun run_status_as_str :: "run_status \<Rightarrow> string" where
  "run_status_as_str Open = ''open''"
| "run_status_as_str Ok = ''ok''"
| "run_status_as_str Failed = ''failed''"
| "run_status_as_str Interrupted = ''interrupted''"
| "run_status_as_str Abandoned = ''abandoned''"

definition run_status_parse :: "string \<Rightarrow> run_status" where
  "run_status_parse raw =
     (if raw = ''open'' then Open
      else if raw = ''ok'' then Ok
      else if raw = ''interrupted'' then Interrupted
      else if raw = ''abandoned'' then Abandoned
      else Failed)"

lemma run_status_parse_as_str [simp]: "run_status_parse (run_status_as_str s) = s"
  by (cases s) (simp_all add: run_status_parse_def)

record run_record =
  rr_run_id :: string
  rr_session_id :: "string option"
  rr_parent_run_id :: "string option"
  rr_resumed_from_snapshot :: "string option"
  rr_fingerprint :: string
  rr_fingerprint_schema :: string
  rr_started_at_ms :: int
  rr_ended_at_ms :: "int option"
  rr_start_seq :: int
  rr_end_seq :: "int option"
  rr_status :: run_status

record run_start_payload =
  rs_run_id :: string
  rs_fingerprint :: string
  rs_fingerprint_schema :: string
  rs_fingerprint_json :: string
  rs_session_id :: "string option"
  rs_parent_run_id :: "string option"
  rs_resumed_from_snapshot :: "string option"
  rs_sandbox :: "string option"
  rs_instance :: "string option"

record run_end_payload =
  re_run_id :: string
  re_status :: run_status
  re_reason :: string

record rebuild_report =
  rep_runs :: nat
  rep_starts :: nat
  rep_ends :: nat
  rep_abandoned :: nat
  rep_orphans :: nat

definition run_start_detail_with ::
  "externs \<Rightarrow> string \<Rightarrow> string option \<Rightarrow> string option \<Rightarrow> string option \<Rightarrow> string option \<Rightarrow>
   string option \<Rightarrow> json \<Rightarrow> json" where
  "run_start_detail_with X run_id session_id parent_run_id resumed_from_snapshot sandbox inst config =
     json_obj
       [(''run_id'', JStr run_id),
        (''fingerprint'', JStr (fingerprint X config)),
        (''fingerprint_schema'', JStr FINGERPRINT_SCHEMA_V1),
        (''fingerprint_json'', JStr (canonical_json X config)),
        (''session_id'', opt_str session_id),
        (''parent_run_id'', opt_str parent_run_id),
        (''resumed_from_snapshot'', opt_str resumed_from_snapshot),
        (''sandbox'', opt_str sandbox),
        (''instance'', opt_str inst)]"

definition run_start_detail ::
  "externs \<Rightarrow> string \<Rightarrow> string option \<Rightarrow> string option \<Rightarrow> string option \<Rightarrow> json \<Rightarrow> json" where
  "run_start_detail X run_id session_id parent_run_id resumed_from_snapshot config =
     run_start_detail_with X run_id session_id parent_run_id resumed_from_snapshot None None config"

definition run_end_detail :: "string \<Rightarrow> run_status \<Rightarrow> string \<Rightarrow> json" where
  "run_end_detail run_id status reason =
     json_obj
       [(''run_id'', JStr run_id),
        (''status'', JStr (run_status_as_str status)),
        (''reason'', JStr reason)]"

definition text_member :: "json \<Rightarrow> string \<Rightarrow> string option" where
  "text_member detail key = Option.bind (json_get key detail) as_str"

definition required_text :: "json \<Rightarrow> string \<Rightarrow> audit_error + string" where
  "required_text detail key =
     (case text_member detail key of
        None \<Rightarrow> Inl (Other (''run.start is missing `'' @ key @ ''`''))
      | Some t \<Rightarrow> Inr t)"

definition parse_run_start :: "json \<Rightarrow> audit_error + run_start_payload" where
  "parse_run_start detail =
     bind_result (required_text detail ''run_id'') (\<lambda>run_id.
     bind_result (required_text detail ''fingerprint'') (\<lambda>fp.
     bind_result (required_text detail ''fingerprint_schema'') (\<lambda>schema.
     bind_result (required_text detail ''fingerprint_json'') (\<lambda>fj.
     Inr \<lparr>rs_run_id = run_id, rs_fingerprint = fp, rs_fingerprint_schema = schema,
          rs_fingerprint_json = fj,
          rs_session_id = text_member detail ''session_id'',
          rs_parent_run_id = text_member detail ''parent_run_id'',
          rs_resumed_from_snapshot = text_member detail ''resumed_from_snapshot'',
          rs_sandbox = text_member detail ''sandbox'',
          rs_instance = text_member detail ''instance''\<rparr>))))"

definition parse_run_end :: "json \<Rightarrow> audit_error + run_end_payload" where
  "parse_run_end detail =
     (case text_member detail ''run_id'' of
        None \<Rightarrow> Inl (Other ''run.end is missing `run_id`'')
      | Some run_id \<Rightarrow>
          Inr \<lparr>re_run_id = run_id,
               re_status =
                 (case text_member detail ''status'' of
                    None \<Rightarrow> Failed | Some s \<Rightarrow> run_status_parse s),
               re_reason =
                 (case text_member detail ''reason'' of None \<Rightarrow> [] | Some r \<Rightarrow> r)\<rparr>)"

section \<open>Deriving the index\<close>

definition record_of :: "stored_event \<Rightarrow> run_start_payload \<Rightarrow> run_record" where
  "record_of stored p =
     \<lparr>rr_run_id = rs_run_id p,
      rr_session_id = rs_session_id p,
      rr_parent_run_id = rs_parent_run_id p,
      rr_resumed_from_snapshot = rs_resumed_from_snapshot p,
      rr_fingerprint = rs_fingerprint p,
      rr_fingerprint_schema = rs_fingerprint_schema p,
      rr_started_at_ms = ev_timestamp_ms (se_event stored),
      rr_ended_at_ms = None,
      rr_start_seq = se_id stored,
      rr_end_seq = None,
      rr_status = Open\<rparr>"

definition close_record :: "stored_event \<Rightarrow> run_status \<Rightarrow> run_record \<Rightarrow> run_record" where
  "close_record stored status row =
     row\<lparr>rr_end_seq := Some (se_id stored),
         rr_ended_at_ms := Some (ev_timestamp_ms (se_event stored)),
         rr_status := status\<rparr>"

text \<open>\<open>iter_mut().find(p)\<close> and an update of what it found.\<close>

fun update_first :: "('a \<Rightarrow> bool) \<Rightarrow> ('a \<Rightarrow> 'a) \<Rightarrow> 'a list \<Rightarrow> 'a list option" where
  "update_first p f [] = None"
| "update_first p f (x # xs) =
     (if p x then Some (f x # xs) else map_option ((#) x) (update_first p f xs))"

definition open_row :: "string \<Rightarrow> run_record \<Rightarrow> bool" where
  "open_row run_id r \<longleftrightarrow> rr_run_id r = run_id \<and> rr_end_seq r = None"

definition orphan :: "rebuild_report \<Rightarrow> rebuild_report" where
  "orphan report = report\<lparr>rep_orphans := rep_orphans report + 1\<rparr>"

definition derive_step ::
  "stored_event \<Rightarrow> run_record list \<times> rebuild_report \<Rightarrow> run_record list \<times> rebuild_report" where
  "derive_step stored st =
     (let (rows, report) = st; action = ev_action (se_event stored);
          detail = ev_detail (se_event stored)
      in if action = ACTION_RUN_START then
           case parse_run_start detail of
             Inl _ \<Rightarrow> (rows, orphan report)
           | Inr payload \<Rightarrow>
               let report = report\<lparr>rep_starts := rep_starts report + 1\<rparr>
               in if \<exists>r \<in> set rows. rr_run_id r = rs_run_id payload then (rows, orphan report)
                  else (rows @ [record_of stored payload], report)
         else if action = ACTION_RUN_END then
           case parse_run_end detail of
             Inl _ \<Rightarrow> (rows, orphan report)
           | Inr payload \<Rightarrow>
               (case update_first (open_row (re_run_id payload))
                       (close_record stored (re_status payload)) rows of
                  Some rows' \<Rightarrow> (rows', report\<lparr>rep_ends := rep_ends report + 1\<rparr>)
                | None \<Rightarrow> (rows, orphan report))
         else if action = ACTION_RUN_ABANDONED then
           let run_id = (case text_member detail ''run_id'' of None \<Rightarrow> [] | Some t \<Rightarrow> t)
           in case update_first (open_row run_id) (\<lambda>row. row\<lparr>rr_status := Abandoned\<rparr>) rows of
                Some rows' \<Rightarrow> (rows', report\<lparr>rep_abandoned := rep_abandoned report + 1\<rparr>)
              | None \<Rightarrow> (rows, orphan report)
         else (rows, report))"

definition no_report :: rebuild_report where
  "no_report = \<lparr>rep_runs = 0, rep_starts = 0, rep_ends = 0, rep_abandoned = 0, rep_orphans = 0\<rparr>"

definition derive_fold :: "stored_event list \<Rightarrow> run_record list \<times> rebuild_report" where
  "derive_fold events = foldl (\<lambda>st stored. derive_step stored st) ([], no_report) events"

definition derive_runs_from :: "stored_event list \<Rightarrow> run_record list \<times> rebuild_report" where
  "derive_runs_from events =
     (let (rows, report) = derive_fold events in (rows, report\<lparr>rep_runs := length rows\<rparr>))"

section \<open>Intervals\<close>

text \<open>\<open>abandoned_end\<close>: the bound is the next \<open>run.start\<close> of any run.\<close>

definition next_start :: "stored_event list \<Rightarrow> run_record \<Rightarrow> int option" where
  "next_start chain rec =
     (let ids = map se_id (filter (\<lambda>e. rr_start_seq rec < se_id e \<and>
                  ev_action (se_event e) = ACTION_RUN_START) chain)
      in if ids = [] then None else Some (Min (set ids)))"

definition abandons :: "stored_event list \<Rightarrow> run_record \<Rightarrow> stored_event \<Rightarrow> bool" where
  "abandons chain rec e \<longleftrightarrow>
     rr_start_seq rec < se_id e \<and>
     (case next_start chain rec of Some bound \<Rightarrow> se_id e < bound | None \<Rightarrow> True) \<and>
     ev_action (se_event e) = ACTION_RUN_ABANDONED \<and>
     text_member (ev_detail (se_event e)) ''run_id'' = Some (rr_run_id rec)"

definition abandoned_end :: "stored_event list \<Rightarrow> run_record \<Rightarrow> int option" where
  "abandoned_end chain rec = map_option se_id (find (abandons chain rec) chain)"

definition run_end :: "run_record \<Rightarrow> stored_event list \<Rightarrow> audit_error + int" where
  "run_end rec chain =
     (case rr_end_seq rec of
        Some e \<Rightarrow>
          if rr_start_seq rec \<le> e then Inr e
          else Inl (Other (''run '' @ rr_run_id rec @ '' has an end ('' @ show_int e @
                 '') before its start ('' @ show_int (rr_start_seq rec) @ '')''))
      | None \<Rightarrow>
          if rr_status rec = Abandoned then
            (case abandoned_end chain rec of
               Some e \<Rightarrow> Inr e
             | None \<Rightarrow> Inl (Other (''run '' @ rr_run_id rec @
                 '' is marked abandoned but the chain has no `'' @ ACTION_RUN_ABANDONED @
                 ''` event for it, so there is no record to export'')))
          else Inl (Other (''run '' @ rr_run_id rec @ '' has not ended (status: '' @
                 run_status_as_str (rr_status rec) @
                 ''): there is no `run.end` on the chain, so there is no record to export'')))"

definition run_interval :: "run_record \<Rightarrow> stored_event list \<Rightarrow> audit_error + int \<times> int" where
  "run_interval rec chain = bind_result (run_end rec chain) (\<lambda>e. Inr (rr_start_seq rec, e))"

section \<open>Payload round trips\<close>

lemma parse_run_start_detail:
  "parse_run_start (run_start_detail_with X run_id session parent resumed sandbox inst config) =
     Inr \<lparr>rs_run_id = run_id, rs_fingerprint = fingerprint X config,
          rs_fingerprint_schema = FINGERPRINT_SCHEMA_V1,
          rs_fingerprint_json = canonical_json X config,
          rs_session_id = session, rs_parent_run_id = parent,
          rs_resumed_from_snapshot = resumed, rs_sandbox = sandbox, rs_instance = inst\<rparr>"
  by (simp add: parse_run_start_def required_text_def text_member_def run_start_detail_with_def
      codec_simps)

lemma parse_run_end_detail:
  "parse_run_end (run_end_detail run_id status reason) =
     Inr \<lparr>re_run_id = run_id, re_status = status, re_reason = reason\<rparr>"
  by (simp add: parse_run_end_def text_member_def run_end_detail_def codec_simps)

section \<open>One run's history\<close>

definition start_payload :: "string \<Rightarrow> stored_event \<Rightarrow> run_start_payload option" where
  "start_payload rid e =
     (if ev_action (se_event e) = ACTION_RUN_START then
        case parse_run_start (ev_detail (se_event e)) of
          Inr p \<Rightarrow> if rs_run_id p = rid then Some p else None
        | Inl _ \<Rightarrow> None
      else None)"

definition end_status :: "string \<Rightarrow> stored_event \<Rightarrow> run_status option" where
  "end_status rid e =
     (if ev_action (se_event e) = ACTION_RUN_END then
        case parse_run_end (ev_detail (se_event e)) of
          Inr p \<Rightarrow> if re_run_id p = rid then Some (re_status p) else None
        | Inl _ \<Rightarrow> None
      else None)"

definition abandon_mark :: "string \<Rightarrow> stored_event \<Rightarrow> bool" where
  "abandon_mark rid e \<longleftrightarrow>
     ev_action (se_event e) = ACTION_RUN_ABANDONED \<and>
     (case text_member (ev_detail (se_event e)) ''run_id'' of None \<Rightarrow> [] | Some t \<Rightarrow> t) = rid"

definition closing :: "string \<Rightarrow> stored_event list \<Rightarrow> run_record \<Rightarrow> run_record" where
  "closing rid later r =
     (case find (\<lambda>e. end_status rid e \<noteq> None) later of
        Some e \<Rightarrow> close_record e (the (end_status rid e)) r
      | None \<Rightarrow> if \<exists>e \<in> set later. abandon_mark rid e then r\<lparr>rr_status := Abandoned\<rparr> else r)"

definition history :: "string \<Rightarrow> stored_event list \<Rightarrow> run_record option" where
  "history rid events =
     (case dropWhile (\<lambda>e. start_payload rid e = None) events of
        [] \<Rightarrow> None
      | s # later \<Rightarrow> Some (closing rid later (record_of s (the (start_payload rid s)))))"

text \<open>The effect of one event on one run, between the two.\<close>

definition run_step :: "string \<Rightarrow> run_record option \<Rightarrow> stored_event \<Rightarrow> run_record option" where
  "run_step rid ro e =
     (case ro of
        None \<Rightarrow> map_option (record_of e) (start_payload rid e)
      | Some r \<Rightarrow>
          if rr_end_seq r \<noteq> None then Some r
          else case end_status rid e of
            Some s \<Rightarrow> Some (close_record e s r)
          | None \<Rightarrow> if abandon_mark rid e then Some (r\<lparr>rr_status := Abandoned\<rparr>) else Some r)"

lemma run_fold_closed:
  "rr_end_seq r \<noteq> None \<Longrightarrow> foldl (run_step rid) (Some r) events = Some r"
  by (induction events) (auto simp: run_step_def)

lemma run_fold_open:
  "rr_end_seq r = None \<Longrightarrow> foldl (run_step rid) (Some r) events = Some (closing rid events r)"
proof (induction events arbitrary: r)
  case Nil
  then show ?case by (simp add: closing_def)
next
  case (Cons e events)
  show ?case
  proof (cases "end_status rid e")
    case None
    with Cons show ?thesis
      by (auto simp: run_step_def closing_def close_record_def split: option.splits)
  next
    case (Some s)
    then have "foldl (run_step rid) (Some r) (e # events) =
        foldl (run_step rid) (Some (close_record e s r)) events"
      using Cons.prems by (simp add: run_step_def)
    also have "\<dots> = Some (close_record e s r)"
      by (rule run_fold_closed) (simp add: close_record_def)
    finally show ?thesis using Some by (simp add: closing_def)
  qed
qed

lemma run_fold_history: "foldl (run_step rid) None events = history rid events"
proof (induction events)
  case Nil
  then show ?case by (simp add: history_def)
next
  case (Cons e events)
  show ?case
  proof (cases "start_payload rid e")
    case None
    with Cons show ?thesis by (simp add: run_step_def history_def)
  next
    case (Some p)
    then have step: "run_step rid None e = Some (record_of e p)"
      by (simp add: run_step_def)
    have "rr_end_seq (record_of e p) = None"
      by (simp add: record_of_def)
    with Some step show ?thesis
      by (simp add: history_def run_fold_open)
  qed
qed

section \<open>The derivation refines the histories\<close>

definition lookup_run :: "string \<Rightarrow> run_record list \<Rightarrow> run_record option" where
  "lookup_run rid rows = find (\<lambda>r. rr_run_id r = rid) rows"

lemma lookup_run_simps [simp]:
  "lookup_run rid [] = None"
  "lookup_run rid (r # rows) = (if rr_run_id r = rid then Some r else lookup_run rid rows)"
  by (simp_all add: lookup_run_def)

lemma lookup_run_append:
  "lookup_run rid (rows @ ss) =
     (case lookup_run rid rows of None \<Rightarrow> lookup_run rid ss | Some r \<Rightarrow> Some r)"
  by (induction rows) auto

lemma lookup_run_None: "lookup_run rid rows = None \<longleftrightarrow> rid \<notin> rr_run_id ` set rows"
  by (induction rows) auto

lemma lookup_run_Some: "lookup_run rid rows = Some r \<Longrightarrow> r \<in> set rows \<and> rr_run_id r = rid"
  by (induction rows) (auto split: if_splits)

lemma lookup_run_distinct:
  "distinct (map rr_run_id rows) \<Longrightarrow> lookup_run rid rows = Some r \<longleftrightarrow> r \<in> set rows \<and> rr_run_id r = rid"
  by (induction rows) (auto simp: image_iff)

lemma update_first_None:
  "update_first p f xs = None \<longleftrightarrow> (\<forall>x \<in> set xs. \<not> p x)"
  by (induction xs) auto

lemma update_first_keys:
  "update_first p f rows = Some rows' \<Longrightarrow> (\<And>r. g (f r) = g r) \<Longrightarrow> map g rows' = map g rows"
  by (induction rows arbitrary: rows') (auto split: if_splits)

lemma update_first_lookup:
  assumes "update_first (open_row k) f rows = Some rows'" "distinct (map rr_run_id rows)"
    and "\<And>r. rr_run_id (f r) = rr_run_id r"
  shows "lookup_run rid rows' = (if rid = k then map_option f (lookup_run rid rows) else lookup_run rid rows)"
    and "\<exists>r. lookup_run k rows = Some r \<and> rr_end_seq r = None"
  using assms
  by (induction rows arbitrary: rows')
    (auto simp: open_row_def lookup_run_None [symmetric] split: if_splits)

lemma update_first_open_None:
  "update_first (open_row k) f rows = None \<Longrightarrow> lookup_run k rows = Some r \<Longrightarrow> rr_end_seq r \<noteq> None"
  by (auto simp: update_first_None open_row_def dest: lookup_run_Some)

lemma close_record_run_id [simp]: "rr_run_id (close_record e s r) = rr_run_id r"
  by (simp add: close_record_def)

lemmas derive_step_defs = derive_step_def Let_def run_actions

lemma derive_step_distinct:
  "distinct (map rr_run_id (fst st)) \<Longrightarrow> distinct (map rr_run_id (fst (derive_step e st)))"
  by (cases st)
    (auto simp: derive_step_def Let_def record_of_def split: sum.splits option.splits
      dest!: update_first_keys [where g = rr_run_id])

lemma derive_step_lookup:
  assumes dist: "distinct (map rr_run_id (fst st))"
  shows "lookup_run rid (fst (derive_step e st)) = run_step rid (lookup_run rid (fst st)) e"
proof -
  obtain rows report where st: "st = (rows, report)" by force
  consider (start) "ev_action (se_event e) = ACTION_RUN_START"
    | (fin) "ev_action (se_event e) = ACTION_RUN_END"
    | (aband) "ev_action (se_event e) = ACTION_RUN_ABANDONED"
    | (none) "ev_action (se_event e) \<notin> {ACTION_RUN_START, ACTION_RUN_END, ACTION_RUN_ABANDONED}"
    by auto
  then show ?thesis
  proof cases
    case start
    show ?thesis
    proof (cases "parse_run_start (ev_detail (se_event e))")
      case (Inl a)
      with start show ?thesis
        by (auto simp: derive_step_def run_step_def start_payload_def end_status_def
            abandon_mark_def st run_actions Let_def split: option.splits)
    next
      case (Inr p)
      have known: "(\<exists>r \<in> set rows. rr_run_id r = rs_run_id p) \<longleftrightarrow> lookup_run (rs_run_id p) rows \<noteq> None"
        by (force simp: lookup_run_None)
      have "rr_run_id (record_of e p) = rs_run_id p"
        by (simp add: record_of_def)
      with start Inr known show ?thesis
        by (auto simp: derive_step_def run_step_def start_payload_def end_status_def
            abandon_mark_def st run_actions Let_def lookup_run_append
            simp del: bex_simps split: option.splits)
    qed
  next
    case fin
    show ?thesis
    proof (cases "parse_run_end (ev_detail (se_event e))")
      case (Inl a)
      with fin show ?thesis
        by (auto simp: derive_step_def run_step_def start_payload_def end_status_def
            abandon_mark_def st run_actions Let_def split: option.splits)
    next
      case (Inr p)
      show ?thesis
      proof (cases "update_first (open_row (re_run_id p)) (close_record e (re_status p)) rows")
        case None
        with fin Inr show ?thesis
          by (auto simp: derive_step_def run_step_def start_payload_def end_status_def
              abandon_mark_def st run_actions Let_def split: option.splits
              dest: update_first_open_None)
      next
        case (Some rows')
        note upd = update_first_lookup(1) [OF Some, of rid] update_first_lookup(2) [OF Some]
        with fin Inr Some dist show ?thesis
          by (auto simp: derive_step_def run_step_def start_payload_def end_status_def
              abandon_mark_def st run_actions Let_def split: option.splits)
      qed
    qed
  next
    case aband
    define k where "k = (case text_member (ev_detail (se_event e)) ''run_id'' of None \<Rightarrow> [] | Some t \<Rightarrow> t)"
    show ?thesis
    proof (cases "update_first (open_row k) (\<lambda>row. row\<lparr>rr_status := Abandoned\<rparr>) rows")
      case None
      with aband show ?thesis
        by (auto simp: derive_step_def run_step_def start_payload_def end_status_def
            abandon_mark_def st run_actions Let_def k_def [symmetric] split: option.splits
            dest: update_first_open_None)
    next
      case (Some rows')
      note upd = update_first_lookup(1) [OF Some, of rid] update_first_lookup(2) [OF Some]
      with aband Some dist show ?thesis
        by (auto simp: derive_step_def run_step_def start_payload_def end_status_def
            abandon_mark_def st run_actions Let_def k_def [symmetric] split: option.splits)
    qed
  next
    case none
    then show ?thesis
      by (auto simp: derive_step_def run_step_def start_payload_def end_status_def
          abandon_mark_def st Let_def split: option.splits)
  qed
qed

lemma derive_fold_snoc: "derive_fold (es @ [e]) = derive_step e (derive_fold es)"
  by (simp add: derive_fold_def)

lemma derive_fold_distinct: "distinct (map rr_run_id (fst (derive_fold events)))"
  by (induction events rule: rev_induct)
    (simp_all add: derive_fold_snoc derive_step_distinct, simp add: derive_fold_def)

lemma derive_fold_lookup: "lookup_run rid (fst (derive_fold events)) = history rid events"
proof -
  have "lookup_run rid (fst (derive_fold events)) = foldl (run_step rid) None events"
    by (induction events rule: rev_induct)
      (simp_all add: derive_fold_snoc derive_step_lookup derive_fold_distinct,
       simp add: derive_fold_def)
  then show ?thesis by (simp add: run_fold_history)
qed

lemma derive_runs_from_rows [simp]: "fst (derive_runs_from events) = fst (derive_fold events)"
  by (simp add: derive_runs_from_def split: prod.split)

section \<open>Accounting and order\<close>

definition is_marker :: "stored_event \<Rightarrow> bool" where
  "is_marker e \<longleftrightarrow> ev_action (se_event e) \<in> {ACTION_RUN_START, ACTION_RUN_END, ACTION_RUN_ABANDONED}"

lemma update_first_length: "update_first p f xs = Some ys \<Longrightarrow> length ys = length xs"
  by (induction xs arbitrary: ys) (auto split: if_splits)

definition accounted :: "run_record list \<times> rebuild_report \<Rightarrow> nat" where
  "accounted st = length (fst st) + rep_ends (snd st) + rep_abandoned (snd st) + rep_orphans (snd st)"

lemma derive_step_accounted:
  "accounted (derive_step e st) = accounted st + (if is_marker e then 1 else 0)"
  by (cases st)
    (auto simp: accounted_def derive_step_def is_marker_def orphan_def Let_def run_actions
      split: sum.splits option.splits dest: update_first_length)

lemma derive_fold_accounted: "accounted (derive_fold events) = length (filter is_marker events)"
  by (induction events rule: rev_induct)
    (simp_all add: derive_fold_snoc derive_step_accounted,
     simp add: derive_fold_def accounted_def no_report_def)

lemma derive_runs_from_accounted:
  "derive_runs_from events = (rows, report) \<Longrightarrow>
   rep_runs report = length rows \<and>
   rep_runs report + rep_ends report + rep_abandoned report + rep_orphans report =
     length (filter is_marker events)"
  using derive_fold_accounted [of events]
  by (auto simp: derive_runs_from_def accounted_def split: prod.splits)

definition ascending :: "stored_event list \<Rightarrow> bool" where
  "ascending events \<longleftrightarrow> sorted_wrt (<) (map se_id events)"

lemma derive_step_starts:
  assumes "sorted_wrt (<) (map rr_start_seq (fst st))" "\<And>r. r \<in> set (fst st) \<Longrightarrow> rr_start_seq r < se_id e"
  shows "sorted_wrt (<) (map rr_start_seq (fst (derive_step e st)))"
    and "set (map rr_start_seq (fst (derive_step e st))) \<subseteq> insert (se_id e) (set (map rr_start_seq (fst st)))"
proof -
  obtain rows report where st: "st = (rows, report)" by force
  have keep: "map rr_start_seq rows' = map rr_start_seq rows"
    if "update_first p (close_record e s) rows = Some rows' \<or>
        update_first p (\<lambda>row. row\<lparr>rr_status := Abandoned\<rparr>) rows = Some rows'" for p s rows'
    using that by (auto simp: close_record_def dest!: update_first_keys [where g = rr_start_seq])
  have "map rr_start_seq (fst (derive_step e st)) \<in>
      {map rr_start_seq rows, map rr_start_seq rows @ [se_id e]}"
    by (auto simp: derive_step_def Let_def st record_of_def split: sum.splits option.splits
        dest: keep [OF disjI1] keep [OF disjI2])
  with assms show "sorted_wrt (<) (map rr_start_seq (fst (derive_step e st)))"
    and "set (map rr_start_seq (fst (derive_step e st))) \<subseteq> insert (se_id e) (set (map rr_start_seq (fst st)))"
    by (auto simp: st sorted_wrt_append simp del: set_map) (auto simp: st)
qed

lemma derive_fold_starts:
  "ascending events \<Longrightarrow>
   sorted_wrt (<) (map rr_start_seq (fst (derive_fold events))) \<and>
   rr_start_seq ` set (fst (derive_fold events)) \<subseteq> se_id ` set events"
proof (induction events rule: rev_induct)
  case Nil
  then show ?case by (simp add: derive_fold_def)
next
  case (snoc e events)
  then have IH: "sorted_wrt (<) (map rr_start_seq (fst (derive_fold events)))"
      "rr_start_seq ` set (fst (derive_fold events)) \<subseteq> se_id ` set events"
    and last: "\<forall>i \<in> se_id ` set events. i < se_id e"
    by (auto simp: ascending_def sorted_wrt_append)
  have "rr_start_seq r < se_id e" if "r \<in> set (fst (derive_fold events))" for r
    using that IH(2) last by blast
  from derive_step_starts [OF IH(1) this] IH(2) show ?case
    by (auto simp: derive_fold_snoc)
qed

lemma find_Some_in: "find p xs = Some x \<Longrightarrow> x \<in> set xs \<and> p x"
  by (induction xs) (auto split: if_splits)

lemma history_split:
  assumes "history rid events = Some r"
  obtains pre s later p where "events = pre @ s # later" "\<forall>e \<in> set pre. start_payload rid e = None"
    "start_payload rid s = Some p" "r = closing rid later (record_of s p)"
proof -
  let ?P = "\<lambda>e. start_payload rid e = None"
  from assms obtain s later where d: "dropWhile ?P events = s # later"
    and r: "r = closing rid later (record_of s (the (start_payload rid s)))"
    by (auto simp: history_def split: list.splits)
  have "\<not> ?P s" using hd_dropWhile [of ?P events] d by simp
  then obtain p where p: "start_payload rid s = Some p" by blast
  have ev: "events = takeWhile ?P events @ s # later"
    using takeWhile_dropWhile_id [of ?P events] d by simp
  moreover have "\<forall>e \<in> set (takeWhile ?P events). ?P e"
    by (auto dest: set_takeWhileD)
  ultimately show ?thesis using that [OF ev _ p] r p by simp
qed

lemma derived_end_after_start:
  assumes "ascending events" "r \<in> set (fst (derive_fold events))" "rr_end_seq r = Some e"
  shows "rr_start_seq r < e"
proof -
  have "history (rr_run_id r) events = Some r"
    using assms(2) derive_fold_distinct [of events]
    by (simp add: derive_fold_lookup [symmetric] lookup_run_distinct)
  then obtain pre s later p where ev: "events = pre @ s # later"
    and r: "r = closing (rr_run_id r) later (record_of s p)"
    by (rule history_split) blast
  have start: "rr_start_seq r = se_id s"
    by (subst r) (simp add: closing_def close_record_def record_of_def split: option.split)
  from assms(3) have "\<exists>f \<in> set later. e = se_id f"
    by (subst (asm) r)
      (auto simp: closing_def close_record_def record_of_def split: option.splits if_splits
        dest: find_Some_in)
  with assms(1) ev start show ?thesis
    by (auto simp: ascending_def sorted_wrt_append)
qed

lemma next_start_bounds:
  assumes "next_start chain rec = Some b"
  shows "rr_start_seq rec < b"
    and "\<And>e. e \<in> set chain \<Longrightarrow> rr_start_seq rec < se_id e \<Longrightarrow>
           ev_action (se_event e) = ACTION_RUN_START \<Longrightarrow> b \<le> se_id e"
proof -
  define ids where "ids = map se_id (filter (\<lambda>e. rr_start_seq rec < se_id e \<and>
      ev_action (se_event e) = ACTION_RUN_START) chain)"
  from assms have ids: "ids \<noteq> []" "b = Min (set ids)"
    by (auto simp: next_start_def Let_def ids_def split: if_splits)
  then have "b \<in> set ids" by simp
  then show "rr_start_seq rec < b" by (auto simp: ids_def)
  fix e assume "e \<in> set chain" "rr_start_seq rec < se_id e"
    "ev_action (se_event e) = ACTION_RUN_START"
  then have "se_id e \<in> set ids" by (auto simp: ids_def)
  with ids show "b \<le> se_id e" by simp
qed

lemma abandoned_end_window:
  assumes "abandoned_end chain rec = Some i"
  obtains e where "e \<in> set chain" "se_id e = i" "rr_start_seq rec < i" "abandons chain rec e"
    "\<And>s. s \<in> set chain \<Longrightarrow> rr_start_seq rec < se_id s \<Longrightarrow>
       ev_action (se_event s) = ACTION_RUN_START \<Longrightarrow> i < se_id s"
proof -
  from assms obtain e where e: "e \<in> set chain" "se_id e = i" "abandons chain rec e"
    by (auto simp: abandoned_end_def dest: find_Some_in)
  have "i < se_id s" if s: "s \<in> set chain" "rr_start_seq rec < se_id s"
    "ev_action (se_event s) = ACTION_RUN_START" for s
  proof (cases "next_start chain rec")
    case None
    with s show ?thesis by (auto simp: next_start_def Let_def filter_empty_conv split: if_splits)
  next
    case (Some b)
    with next_start_bounds(2) [OF Some s] e show ?thesis by (auto simp: abandons_def)
  qed
  with e that show ?thesis by (auto simp: abandons_def)
qed

end
