(* ===== verification/Audit_Segments.thy ===== *)
theory Audit_Segments
  imports Audit_Runs
begin

text \<open>
  The segment record, \<open>audit/src/segment.rs\<close>: the action names, the words of the \<open>segments\<close>
  table, the details of the events that record a segment's life, and the file-name safe form of
  an owner's name.
\<close>

section \<open>Actions and the provisional mark\<close>

definition ACTION_SEGMENT_OPENED :: string where "ACTION_SEGMENT_OPENED = ''host.audit.segment_opened''"
definition ACTION_SEGMENT_CLOSED :: string where "ACTION_SEGMENT_CLOSED = ''host.audit.segment_closed''"
definition ACTION_SEGMENT_MERGED :: string where "ACTION_SEGMENT_MERGED = ''host.audit.segment_merged''"
definition ACTION_SEGMENT_FORKED :: string where "ACTION_SEGMENT_FORKED = ''host.audit.segment_forked''"
definition ACTION_CHAIN_VERIFIED :: string where "ACTION_CHAIN_VERIFIED = ''host.audit.chain_verified''"
definition ACTION_CHAIN_REJECTED :: string where "ACTION_CHAIN_REJECTED = ''host.audit.chain_rejected''"
definition ACTION_CONFLICT_RESOLVED :: string where
  "ACTION_CONFLICT_RESOLVED = ''host.audit.conflict_resolved''"

lemmas segment_actions = ACTION_SEGMENT_OPENED_def ACTION_SEGMENT_CLOSED_def
  ACTION_SEGMENT_MERGED_def ACTION_SEGMENT_FORKED_def

definition PARTIAL_MERGE_PREFIX :: string where "PARTIAL_MERGE_PREFIX = ''merge failed after ''"

definition partial_merge_recorded :: "string \<Rightarrow> bool" where
  "partial_merge_recorded note \<longleftrightarrow> starts_with note PARTIAL_MERGE_PREFIX"

definition PROVISIONAL :: string where "PROVISIONAL = ''provisional''"

fun cleared_detail :: "json \<Rightarrow> json" where
  "cleared_detail (JObj m) = JObj (del PROVISIONAL m)"
| "cleared_detail other = other"

definition is_provisional :: "json \<Rightarrow> bool" where
  "is_provisional detail \<longleftrightarrow> Option.bind (json_get PROVISIONAL detail) as_bool = Some True"

lemma cleared_not_provisional: "\<not> is_provisional (cleared_detail d)"
  by (cases d) (simp_all add: is_provisional_def json_get_def)

lemma cleared_detail_idem: "cleared_detail (cleared_detail d) = cleared_detail d"
  by (cases d) (simp_all add: del_def)

lemma cleared_detail_others: "k \<noteq> PROVISIONAL \<Longrightarrow> json_get k (cleared_detail d) = json_get k d"
  by (cases d) (simp_all add: json_get_def)

lemma wf_cleared_detail: "wf_json d \<Longrightarrow> wf_json (cleared_detail d)"
  by (cases d) (auto simp: ordered_del, auto simp: del_def)

section \<open>Kinds and states\<close>

datatype segment_kind = Main | Temporary

fun segment_kind_as_str :: "segment_kind \<Rightarrow> string" where
  "segment_kind_as_str Main = ''main''"
| "segment_kind_as_str Temporary = ''temporary''"

definition segment_kind_parse :: "string \<Rightarrow> segment_kind option" where
  "segment_kind_parse word =
     (if word = ''main'' then Some Main
      else if word = ''temporary'' then Some Temporary
      else None)"

datatype segment_state = Seg_Open | Seg_Closed | Seg_Folded | Seg_Forked

fun segment_state_as_str :: "segment_state \<Rightarrow> string" where
  "segment_state_as_str Seg_Open = ''open''"
| "segment_state_as_str Seg_Closed = ''closed''"
| "segment_state_as_str Seg_Folded = ''folded''"
| "segment_state_as_str Seg_Forked = ''forked''"

definition segment_state_parse :: "string \<Rightarrow> segment_state option" where
  "segment_state_parse word =
     (if word = ''open'' then Some Seg_Open
      else if word = ''closed'' then Some Seg_Closed
      else if word = ''folded'' then Some Seg_Folded
      else if word = ''forked'' then Some Seg_Forked
      else None)"

lemma segment_words [simp]:
  "segment_kind_parse (segment_kind_as_str k) = Some k"
  "segment_state_parse (segment_state_as_str s) = Some s"
  by (cases k; simp add: segment_kind_parse_def) (cases s; simp add: segment_state_parse_def)

section \<open>Segments and their rows\<close>

record segment =
  seg_id :: string
  seg_kind :: segment_kind
  seg_head_hash :: "string option"
  seg_head_prev_chain :: "string option"
  seg_head_prev_length :: "int option"
  seg_opened_at_ms :: "int option"
  seg_closed_at_ms :: "int option"
  seg_state :: segment_state
  seg_note :: "string option"

text \<open>A row of the \<open>segments\<close> table: the same columns, kind and state as words.\<close>

record segment_row =
  sr_id :: string
  sr_kind :: string
  sr_head_hash :: "string option"
  sr_head_prev_chain :: "string option"
  sr_head_prev_length :: "int option"
  sr_opened_at_ms :: "int option"
  sr_closed_at_ms :: "int option"
  sr_state :: string
  sr_note :: "string option"

definition segment_from_row :: "externs \<Rightarrow> segment_row \<Rightarrow> audit_error + segment" where
  "segment_from_row X row =
     (case segment_kind_parse (sr_kind row) of
        None \<Rightarrow> Inl (Sqlite (FromSqlConversionFailure 1 (x_conversion_error X 1 (sr_kind row))))
      | Some kind \<Rightarrow>
          (case segment_state_parse (sr_state row) of
             None \<Rightarrow> Inl (Sqlite (FromSqlConversionFailure 7 (x_conversion_error X 7 (sr_state row))))
           | Some state \<Rightarrow>
               Inr \<lparr>seg_id = sr_id row, seg_kind = kind, seg_head_hash = sr_head_hash row,
                    seg_head_prev_chain = sr_head_prev_chain row,
                    seg_head_prev_length = sr_head_prev_length row,
                    seg_opened_at_ms = sr_opened_at_ms row,
                    seg_closed_at_ms = sr_closed_at_ms row,
                    seg_state = state, seg_note = sr_note row\<rparr>))"

definition segment_to_row :: "segment \<Rightarrow> segment_row" where
  "segment_to_row s =
     \<lparr>sr_id = seg_id s, sr_kind = segment_kind_as_str (seg_kind s),
      sr_head_hash = seg_head_hash s, sr_head_prev_chain = seg_head_prev_chain s,
      sr_head_prev_length = seg_head_prev_length s, sr_opened_at_ms = seg_opened_at_ms s,
      sr_closed_at_ms = seg_closed_at_ms s, sr_state = segment_state_as_str (seg_state s),
      sr_note = seg_note s\<rparr>"

lemma segment_row_roundtrip [simp]: "segment_from_row X (segment_to_row s) = Inr s"
  by (simp add: segment_from_row_def segment_to_row_def)

datatype merge_outcome = Folded nat | Forked string

section \<open>Details of the events that record a segment\<close>

definition segment_opened_detail :: "segment \<Rightarrow> json" where
  "segment_opened_detail s =
     json_obj
       [(''segment_id'', JStr (seg_id s)),
        (''kind'', JStr (segment_kind_as_str (seg_kind s))),
        (''head_prev_chain'', opt_str (seg_head_prev_chain s))]"

definition segment_closed_detail :: "string \<Rightarrow> int \<Rightarrow> json" where
  "segment_closed_detail segment_id closed_at_ms =
     json_obj [(''segment_id'', JStr segment_id), (''closed_at_ms'', JInt closed_at_ms)]"

definition segment_forked_detail ::
  "string \<Rightarrow> segment_kind \<Rightarrow> int \<Rightarrow> string \<Rightarrow> int option \<Rightarrow> json" where
  "segment_forked_detail segment_id kind forked_at_ms reason conflicting_event_id =
     json_obj
       [(''segment_id'', JStr segment_id),
        (''kind'', JStr (segment_kind_as_str kind)),
        (''forked_at_ms'', JInt forked_at_ms),
        (''reason'', JStr reason),
        (''conflicting_event_id'', opt_int conflicting_event_id)]"

definition chain_verified_detail ::
  "string \<Rightarrow> string \<Rightarrow> string option \<Rightarrow> int option \<Rightarrow> nat \<Rightarrow> string \<Rightarrow> string \<Rightarrow> string \<Rightarrow> json" where
  "chain_verified_detail segment_id sender anchor_digest anchor_length events checked linkage anchor =
     json_obj
       [(''segment_id'', JStr segment_id),
        (''from'', JStr sender),
        (''anchor_digest'', opt_str anchor_digest),
        (''anchor_length'', opt_int anchor_length),
        (''events'', JInt (int events)),
        (''checked'', JStr checked),
        (''linkage'', JStr linkage),
        (''anchor'', JStr anchor)]"

definition chain_rejected_detail ::
  "string \<Rightarrow> string \<Rightarrow> string option \<Rightarrow> int option \<Rightarrow> nat \<Rightarrow> string \<Rightarrow> string \<Rightarrow> string \<Rightarrow>
   string \<Rightarrow> json" where
  "chain_rejected_detail segment_id sender anchor_digest anchor_length events reason checked
       linkage anchor =
     json_obj
       [(''segment_id'', JStr segment_id),
        (''from'', JStr sender),
        (''anchor_digest'', opt_str anchor_digest),
        (''anchor_length'', opt_int anchor_length),
        (''events'', JInt (int events)),
        (''reason'', JStr reason),
        (''checked'', JStr checked),
        (''linkage'', JStr linkage),
        (''anchor'', JStr anchor)]"

definition conflict_resolved_detail :: "string \<Rightarrow> string \<Rightarrow> int \<Rightarrow> string option \<Rightarrow> json" where
  "conflict_resolved_detail segment_id resolved_by resolved_at_ms note =
     json_obj
       [(''segment_id'', JStr segment_id),
        (''resolved_by'', JStr resolved_by),
        (''resolved_at_ms'', JInt resolved_at_ms),
        (''note'', opt_str note)]"

definition segment_merged_detail :: "string \<Rightarrow> segment_kind \<Rightarrow> int \<Rightarrow> nat \<Rightarrow> json" where
  "segment_merged_detail segment_id kind merged_at_ms event_count =
     json_obj
       [(''segment_id'', JStr segment_id),
        (''kind'', JStr (segment_kind_as_str kind)),
        (''merged_at_ms'', JInt merged_at_ms),
        (''event_count'', JInt (int event_count))]"

lemma merged_detail_segment [simp]:
  "json_get ''segment_id'' (segment_merged_detail sid kind t n) = Some (JStr sid)"
  by (simp add: segment_merged_detail_def codec_simps)

section \<open>Owners in file names\<close>

definition OWNER_MAX_CHARS :: nat where "OWNER_MAX_CHARS = 48"

definition is_ascii_alphanumeric :: "char \<Rightarrow> bool" where
  "is_ascii_alphanumeric c \<longleftrightarrow>
     (CHR ''0'' \<le> c \<and> c \<le> CHR ''9'') \<or> (CHR ''A'' \<le> c \<and> c \<le> CHR ''Z'') \<or>
     (CHR ''a'' \<le> c \<and> c \<le> CHR ''z'')"

definition owner_char_ok :: "char \<Rightarrow> bool" where
  "owner_char_ok c \<longleftrightarrow> is_ascii_alphanumeric c \<or> c = CHR ''-'' \<or> c = CHR ''_'' \<or> c = CHR ''.''"

definition safe_char :: "string \<Rightarrow> char" where
  "safe_char ch = (if length ch = 1 \<and> owner_char_ok (hd ch) then hd ch else CHR ''_'')"

fun push_owner :: "string \<Rightarrow> string list \<Rightarrow> string" where
  "push_owner out [] = out"
| "push_owner out (ch # chs) =
     (let out = out @ [safe_char ch]
      in if OWNER_MAX_CHARS \<le> length out then out else push_owner out chs)"

definition strip_dots :: "string \<Rightarrow> string" where
  "strip_dots s = rev (dropWhile (\<lambda>c. c = CHR ''.'') (rev s))"

definition safe_owner :: "string \<Rightarrow> string" where
  "safe_owner owner =
     (let out = strip_dots (push_owner [] (utf8_chars owner))
      in if out = [] then ''node'' else out)"

lemma safe_char_ok: "owner_char_ok (safe_char ch)"
  by (simp add: safe_char_def) (simp add: owner_char_ok_def)

lemma push_owner_chars:
  "\<forall>c \<in> set out. owner_char_ok c \<Longrightarrow> \<forall>c \<in> set (push_owner out chs). owner_char_ok c"
  by (induction out chs rule: push_owner.induct) (auto simp: Let_def safe_char_ok)

lemma push_owner_length:
  "length out < OWNER_MAX_CHARS \<Longrightarrow> length (push_owner out chs) \<le> OWNER_MAX_CHARS"
  by (induction out chs rule: push_owner.induct) (auto simp: Let_def)

lemma push_owner_take:
  "length out < OWNER_MAX_CHARS \<Longrightarrow>
   push_owner out chs = take OWNER_MAX_CHARS (out @ map safe_char chs)"
  by (induction out chs rule: push_owner.induct) (auto simp: Let_def not_le take_Cons')

lemma strip_dots_last: "strip_dots s \<noteq> [] \<Longrightarrow> last (strip_dots s) \<noteq> CHR ''.''"
proof -
  assume "strip_dots s \<noteq> []"
  then have ne: "dropWhile (\<lambda>c. c = CHR ''.'') (rev s) \<noteq> []" by (simp add: strip_dots_def)
  from hd_dropWhile [OF ne] ne show ?thesis
    by (simp add: strip_dots_def last_rev)
qed

lemma strip_dots_subset: "set (strip_dots s) \<subseteq> set s"
  by (auto simp: strip_dots_def dest: set_dropWhileD)

lemma strip_dots_length: "length (strip_dots s) \<le> length s"
  using length_dropWhile_le [of "\<lambda>c. c = CHR ''.''" "rev s"] by (simp add: strip_dots_def)

lemma safe_owner_shape:
  "safe_owner owner \<noteq> [] \<and> length (safe_owner owner) \<le> OWNER_MAX_CHARS \<and>
   last (safe_owner owner) \<noteq> CHR ''.'' \<and> (\<forall>c \<in> set (safe_owner owner). owner_char_ok c)"
proof -
  define out where "out = push_owner [] (utf8_chars owner)"
  have "length out \<le> OWNER_MAX_CHARS"
    unfolding out_def by (rule push_owner_length) (simp add: OWNER_MAX_CHARS_def)
  then have "length (strip_dots out) \<le> OWNER_MAX_CHARS"
    using strip_dots_length [of out] by simp
  moreover have "\<forall>c \<in> set (strip_dots out). owner_char_ok c"
    using push_owner_chars [of "[]" "utf8_chars owner"] strip_dots_subset [of out]
    by (auto simp: out_def)
  moreover have "\<forall>c \<in> set ''node''. owner_char_ok c" by (simp add: owner_char_ok_def is_ascii_alphanumeric_def)
  moreover have "length ''node'' \<le> OWNER_MAX_CHARS" by (simp add: OWNER_MAX_CHARS_def)
  ultimately show ?thesis
    using strip_dots_last [of out]
    by (simp add: safe_owner_def Let_def flip: out_def)
qed

end
