(* ===== verification/Audit_Store.thy ===== *)
theory Audit_Store
  imports Audit_Segments
begin

text \<open>
  The append-only store, \<open>audit/src/store.rs\<close>: the state of one SQLite file and every operation
  on it, as a function from the state to a result and the next state.

  SQLite and \<open>rusqlite\<close> are external. What the store relies on is modelled as documented: tables
  keep their rows, a statement or transaction either takes effect or fails and leaves the file as
  it was, \<open>AUTOINCREMENT\<close> never reuses an id, a \<open>UNIQUE\<close> or \<open>PRIMARY KEY\<close> column refuses a
  duplicate. Whether a write statement is answered by an error (busy, locked, disk) is decided by
  the schedule \<open>db_faults\<close>, one entry per write, so every theorem holds for every such schedule.
  Reads are taken to succeed; what fails in them is the decoding of what was read. Clock readings
  are arguments. The waits between attempts have no effect on the state and are left out.
\<close>

section \<open>The file\<close>

record run_row =
  rw_run_id :: string
  rw_session_id :: "string option"
  rw_parent_run_id :: "string option"
  rw_resumed_from_snapshot :: "string option"
  rw_fingerprint :: string
  rw_fingerprint_schema :: string
  rw_started_at_ms :: int
  rw_ended_at_ms :: "int option"
  rw_start_seq :: int
  rw_end_seq :: "int option"
  rw_status :: string

record audit_db =
  db_version :: int
  db_journal :: string
  db_tables :: "(string \<times> string list) list"
  db_events :: "raw_row list"
  db_next_id :: int
  db_segments :: "segment_row list"
  db_runs :: "run_row list"
  db_faults :: "sqlite_error option list"

definition new_file :: "sqlite_error option list \<Rightarrow> audit_db" where
  "new_file faults =
     \<lparr>db_version = 0, db_journal = ''delete'', db_tables = [], db_events = [], db_next_id = 1,
      db_segments = [], db_runs = [], db_faults = faults\<rparr>"

definition take_fault :: "audit_db \<Rightarrow> (audit_error + unit) \<times> audit_db" where
  "take_fault db =
     (case db_faults db of
        [] \<Rightarrow> (Inr (), db)
      | None # fs \<Rightarrow> (Inr (), db\<lparr>db_faults := fs\<rparr>)
      | Some e # fs \<Rightarrow> (Inl (Sqlite e), db\<lparr>db_faults := fs\<rparr>))"

fun is_lock_error :: "audit_error \<Rightarrow> bool" where
  "is_lock_error (Sqlite (DatabaseBusy t)) \<longleftrightarrow> True"
| "is_lock_error (Sqlite (DatabaseLocked t)) \<longleftrightarrow> True"
| "is_lock_error _ \<longleftrightarrow> False"

section \<open>Opening a file\<close>

definition APPEND_MAX_ATTEMPTS :: nat where "APPEND_MAX_ATTEMPTS = 5"
definition OPEN_MAX_ATTEMPTS :: nat where "OPEN_MAX_ATTEMPTS = APPEND_MAX_ATTEMPTS"
definition AUDIT_SCHEMA_VERSION :: int where "AUDIT_SCHEMA_VERSION = 1"

definition SCHEMA :: "(string \<times> string list) list" where
  "SCHEMA =
     [(''audit_events'',
       [''id'', ''timestamp_ms'', ''actor'', ''action'', ''detail_json'', ''prev_hash'', ''hash'',
        ''agent_id'']),
      (''runs'',
       [''run_id'', ''session_id'', ''parent_run_id'', ''resumed_from_snapshot'', ''fingerprint'',
        ''fingerprint_schema'', ''started_at_ms'', ''ended_at_ms'', ''start_seq'', ''end_seq'',
        ''status'']),
      (''segments'',
       [''segment_id'', ''kind'', ''head_hash'', ''head_prev_chain'', ''head_prev_length'',
        ''opened_at_ms'', ''closed_at_ms'', ''state'', ''note''])]"

definition configure_connection :: "audit_db \<Rightarrow> (audit_error + unit) \<times> audit_db" where
  "configure_connection db =
     (if map ascii_lower (db_journal db) \<noteq> ''wal'' \<and> db_journal db \<noteq> ''memory'' then
        and_then (take_fault db) (\<lambda>_ db. (Inr (), db\<lparr>db_journal := ''wal''\<rparr>))
      else (Inr (), db))"

definition create_if_missing ::
  "string \<times> string list \<Rightarrow> (string \<times> string list) list \<Rightarrow> (string \<times> string list) list" where
  "create_if_missing table tables =
     (if List.member (map fst tables) (fst table) then tables else tables @ [table])"

definition execute_schema :: "audit_db \<Rightarrow> (audit_error + unit) \<times> audit_db" where
  "execute_schema db =
     and_then (take_fault db) (\<lambda>_ db.
       (Inr (), db\<lparr>db_tables := foldl (\<lambda>ts t. create_if_missing t ts) (db_tables db) SCHEMA\<rparr>))"

definition column_exists :: "string \<Rightarrow> string \<Rightarrow> audit_db \<Rightarrow> bool" where
  "column_exists table column db =
     (case map_of (db_tables db) table of None \<Rightarrow> False | Some cs \<Rightarrow> List.member cs column)"

fun contains_text :: "string \<Rightarrow> string \<Rightarrow> bool" where
  "contains_text [] p \<longleftrightarrow> p = []"
| "contains_text (c # s) p \<longleftrightarrow> starts_with (c # s) p \<or> contains_text s p"

definition add_column ::
  "string \<Rightarrow> string \<Rightarrow> (string \<times> string list) list \<Rightarrow> (string \<times> string list) list" where
  "add_column table column tables =
     map (\<lambda>(t, cs). if t = table then (t, cs @ [column]) else (t, cs)) tables"

definition add_column_if_missing ::
  "string \<Rightarrow> string \<Rightarrow> audit_db \<Rightarrow> (audit_error + unit) \<times> audit_db" where
  "add_column_if_missing table column db =
     (if column_exists table column db then (Inr (), db)
      else case take_fault db of
        (Inr _, db) \<Rightarrow> (Inr (), db\<lparr>db_tables := add_column table column (db_tables db)\<rparr>)
      | (Inl error, db) \<Rightarrow>
          (case error of
             Sqlite e \<Rightarrow>
               if contains_text (sqlite_error_text e) ''duplicate column name'' then (Inr (), db)
               else (Inl error, db)
           | _ \<Rightarrow> (Inl error, db)))"

definition migrate_events_table :: "audit_db \<Rightarrow> (audit_error + unit) \<times> audit_db" where
  "migrate_events_table db =
     and_then (add_column_if_missing ''audit_events'' ''agent_id'' db) (\<lambda>_ db.
       add_column_if_missing ''audit_events'' ''segment_id'' db)"

definition migrate_runs_table :: "audit_db \<Rightarrow> (audit_error + unit) \<times> audit_db" where
  "migrate_runs_table db = add_column_if_missing ''runs'' ''resumed_from_snapshot'' db"

definition migrate_segments_table :: "audit_db \<Rightarrow> (audit_error + unit) \<times> audit_db" where
  "migrate_segments_table db = add_column_if_missing ''segments'' ''head_prev_length'' db"

definition stamp_version :: "audit_db \<Rightarrow> (audit_error + unit) \<times> audit_db" where
  "stamp_version db =
     and_then (take_fault db) (\<lambda>_ db. (Inr (), db\<lparr>db_version := AUDIT_SCHEMA_VERSION\<rparr>))"

definition init_schema :: "audit_db \<Rightarrow> (audit_error + unit) \<times> audit_db" where
  "init_schema db =
     and_then (configure_connection db) (\<lambda>_ db.
       let found = db_version db
       in if AUDIT_SCHEMA_VERSION < found then
            (Inl (DataTooNew found AUDIT_SCHEMA_VERSION), db)
          else
            and_then (execute_schema db) (\<lambda>_ db.
            and_then (migrate_events_table db) (\<lambda>_ db.
            and_then (migrate_runs_table db) (\<lambda>_ db.
            and_then (migrate_segments_table db) (\<lambda>_ db.
            if found < AUDIT_SCHEMA_VERSION then stamp_version db else (Inr (), db))))))"

text \<open>The retry loop that opening and appending share: \<open>attempt\<close> counts from 1 to the budget.\<close>

function retry_locked ::
  "(audit_db \<Rightarrow> (audit_error + 'a) \<times> audit_db) \<Rightarrow> nat \<Rightarrow> nat \<Rightarrow> audit_db \<Rightarrow>
   (audit_error + 'a) \<times> audit_db" where
  "retry_locked once budget attempt db =
     (case once db of
        (Inr a, db) \<Rightarrow> (Inr a, db)
      | (Inl error, db) \<Rightarrow>
          if budget \<le> attempt \<or> \<not> is_lock_error error then (Inl error, db)
          else retry_locked once budget (attempt + 1) db)"
  by pat_completeness auto
termination
  by (relation "measure (\<lambda>(_, budget, attempt, _). budget - attempt)") auto

declare retry_locked.simps [simp del]

definition open_with :: "nat \<Rightarrow> audit_db \<Rightarrow> (audit_error + unit) \<times> audit_db" where
  "open_with attempts db = retry_locked init_schema (max attempts 1) 1 db"

definition open_file :: "audit_db \<Rightarrow> (audit_error + unit) \<times> audit_db" where
  "open_file db = open_with OPEN_MAX_ATTEMPTS db"

section \<open>Appending and reading the chain\<close>

definition row_of :: "int \<Rightarrow> audit_event \<Rightarrow> string \<Rightarrow> string \<Rightarrow> string \<Rightarrow> raw_row" where
  "row_of i ev detail_json prev_hash h =
     \<lparr>row_id = i, row_timestamp_ms = ev_timestamp_ms ev, row_actor = ev_actor ev,
      row_action = ev_action ev, row_detail_json = detail_json, row_prev_hash = prev_hash,
      row_hash = h, row_agent_id = ev_agent_id ev\<rparr>"

definition append_once ::
  "externs \<Rightarrow> audit_event \<Rightarrow> audit_db \<Rightarrow> (audit_error + stored_event) \<times> audit_db" where
  "append_once X ev db =
     and_then (take_fault db) (\<lambda>_ db.
       let prev_hash = head_of GENESIS_PREV_HASH (db_events db);
           detail_json = x_text X (ev_detail ev);
           h = compute_hash X prev_hash ev detail_json;
           i = db_next_id db
       in if i64_max < i then
            (Inl (Sqlite (SqliteFailure ''database or disk is full'')), db)
          else if List.member (map row_hash (db_events db)) h then
            (Inl (Sqlite (SqliteFailure ''UNIQUE constraint failed: audit_events.hash'')), db)
          else
            (Inr \<lparr>se_id = i, se_event = ev, se_prev_hash = prev_hash, se_hash = h\<rparr>,
             db\<lparr>db_events := db_events db @ [row_of i ev detail_json prev_hash h],
                db_next_id := i + 1\<rparr>))"

definition append_with ::
  "externs \<Rightarrow> audit_event \<Rightarrow> nat \<Rightarrow> audit_db \<Rightarrow> (audit_error + stored_event) \<times> audit_db" where
  "append_with X ev attempts db = retry_locked (append_once X ev) (max attempts 1) 1 db"

definition append_event ::
  "externs \<Rightarrow> audit_event \<Rightarrow> audit_db \<Rightarrow> (audit_error + stored_event) \<times> audit_db" where
  "append_event X ev db = append_with X ev APPEND_MAX_ATTEMPTS db"

definition last_hash :: "audit_db \<Rightarrow> string option" where
  "last_hash db = (if db_events db = [] then None else Some (row_hash (last (db_events db))))"

definition last_id :: "audit_db \<Rightarrow> int option" where
  "last_id db = (if db_events db = [] then None else Some (row_id (last (db_events db))))"

definition event_count :: "audit_db \<Rightarrow> nat" where
  "event_count db = length (db_events db)"

definition scan :: "audit_db \<Rightarrow> raw_row list" where
  "scan db = db_events db"

definition all_events :: "externs \<Rightarrow> audit_db \<Rightarrow> audit_error + stored_event list" where
  "all_events X db = traverse_result (into_stored X) (scan db)"

definition events_in_range ::
  "externs \<Rightarrow> int \<Rightarrow> int \<Rightarrow> audit_db \<Rightarrow> audit_error + stored_event list" where
  "events_in_range X start_id end_id db =
     traverse_result (into_stored X)
       (filter (\<lambda>r. start_id \<le> row_id r \<and> row_id r \<le> end_id) (db_events db))"

definition get_event :: "externs \<Rightarrow> int \<Rightarrow> audit_db \<Rightarrow> audit_error + stored_event option" where
  "get_event X i db =
     (case find (\<lambda>r. row_id r = i) (db_events db) of
        None \<Rightarrow> Inr None
      | Some r \<Rightarrow> bind_result (into_stored X r) (\<lambda>s. Inr (Some s)))"

record event_filter =
  ef_actor :: "string option"
  ef_action_prefix :: "string option"
  ef_from_ms :: "int option"
  ef_to_ms :: "int option"
  ef_from_id :: "int option"
  ef_to_id :: "int option"
  ef_descending :: bool

definition default_filter :: event_filter where
  "default_filter = \<lparr>ef_actor = None, ef_action_prefix = None, ef_from_ms = None, ef_to_ms = None,
     ef_from_id = None, ef_to_id = None, ef_descending = False\<rparr>"

definition holds_for :: "'a option \<Rightarrow> ('a \<Rightarrow> bool) \<Rightarrow> bool" where
  "holds_for bound test = (case bound of None \<Rightarrow> True | Some b \<Rightarrow> test b)"

text \<open>\<open>substr(action, 1, n) = prefix\<close> counts characters.\<close>

definition filter_matches :: "event_filter \<Rightarrow> raw_row \<Rightarrow> bool" where
  "filter_matches f r \<longleftrightarrow>
     holds_for (ef_actor f) (\<lambda>a. row_actor r = a) \<and>
     holds_for (ef_action_prefix f)
       (\<lambda>p. concat (take (length (utf8_chars p)) (utf8_chars (row_action r))) = p) \<and>
     holds_for (ef_from_ms f) (\<lambda>t. t \<le> row_timestamp_ms r) \<and>
     holds_for (ef_to_ms f) (\<lambda>t. row_timestamp_ms r \<le> t) \<and>
     holds_for (ef_from_id f) (\<lambda>i. i \<le> row_id r) \<and>
     holds_for (ef_to_id f) (\<lambda>i. row_id r \<le> i)"

text \<open>\<open>limit as i64\<close>: SQLite reads a negative \<open>LIMIT\<close> as none.\<close>

definition sql_limit :: "nat \<Rightarrow> 'a list \<Rightarrow> 'a list" where
  "sql_limit limit xs = (let l = wrap_i64 (int limit) in if l < 0 then xs else take (nat l) xs)"

definition list_events ::
  "externs \<Rightarrow> event_filter \<Rightarrow> nat \<Rightarrow> audit_db \<Rightarrow> audit_error + stored_event list" where
  "list_events X f limit db =
     (let hits = filter (filter_matches f) (db_events db);
          ordered_hits = (if ef_descending f then rev hits else hits)
      in traverse_result (into_stored X) (sql_limit limit ordered_hits))"

text \<open>\<open>write_events_jsonl\<close>: the lines of the file.\<close>

definition export_line :: "stored_event \<Rightarrow> json" where
  "export_line e =
     json_obj
       [(''id'', JInt (se_id e)),
        (''timestamp_ms'', JInt (ev_timestamp_ms (se_event e))),
        (''actor'', JStr (ev_actor (se_event e))),
        (''action'', JStr (ev_action (se_event e))),
        (''detail'', ev_detail (se_event e)),
        (''prev_hash'', JStr (se_prev_hash e)),
        (''hash'', JStr (se_hash e)),
        (''agent_id'', opt_str (ev_agent_id (se_event e)))]"

definition export_jsonl :: "externs \<Rightarrow> audit_db \<Rightarrow> audit_error + string list" where
  "export_jsonl X db =
     bind_result (all_events X db) (\<lambda>es. Inr (map (\<lambda>e. x_text X (export_line e)) es))"

definition USIZE_MAX :: nat where "USIZE_MAX = 2 ^ 64 - 1"

definition exported_events :: "externs \<Rightarrow> int \<Rightarrow> audit_db \<Rightarrow> audit_error + stored_event list" where
  "exported_events X to_id db = list_events X (default_filter\<lparr>ef_to_id := Some to_id\<rparr>) USIZE_MAX db"

definition export_self_contained_jsonl ::
  "externs \<Rightarrow> int \<Rightarrow> audit_db \<Rightarrow> audit_error + string list" where
  "export_self_contained_jsonl X to_id db =
     bind_result (exported_events X to_id db) (\<lambda>es. Inr (map (\<lambda>e. x_text X (export_line e)) es))"

definition store_run_end :: "externs \<Rightarrow> run_record \<Rightarrow> audit_db \<Rightarrow> audit_error + int" where
  "store_run_end X rec db = bind_result (all_events X db) (run_end rec)"

definition store_run_interval :: "externs \<Rightarrow> run_record \<Rightarrow> audit_db \<Rightarrow> audit_error + int \<times> int" where
  "store_run_interval X rec db =
     bind_result (store_run_end X rec db) (\<lambda>e. Inr (rr_start_seq rec, e))"

definition verify_store :: "externs \<Rightarrow> audit_db \<Rightarrow> chain_status" where
  "verify_store X db = verify_chain X (scan db)"

section \<open>What an operation may do to the chain\<close>

definition sound :: "externs \<Rightarrow> audit_db \<Rightarrow> bool" where
  "sound X db \<longleftrightarrow>
     chained X GENESIS_PREV_HASH (db_events db) \<and>
     sorted_wrt (<) (map row_id (db_events db)) \<and>
     (\<forall>r \<in> set (db_events db). row_id r < db_next_id db)"

definition extends :: "audit_db \<Rightarrow> audit_db \<Rightarrow> bool" where
  "extends db db' \<longleftrightarrow> (\<exists>new. db_events db' = db_events db @ new)"

definition grows :: "externs \<Rightarrow> audit_db \<Rightarrow> audit_db \<Rightarrow> bool" where
  "grows X db db' \<longleftrightarrow> extends db db' \<and> (sound X db \<longrightarrow> sound X db')"

named_theorems grow_rules \<open>operations that only append to the chain\<close>

lemma extends_refl: "extends db db"
  by (simp add: extends_def)

lemma extends_trans: "extends a b \<Longrightarrow> extends b c \<Longrightarrow> extends a c"
  by (auto simp: extends_def)

lemma grows_refl [grow_rules]: "grows X db db"
  by (simp add: grows_def extends_refl)

lemma grows_trans: "grows X a b \<Longrightarrow> grows X b c \<Longrightarrow> grows X a c"
  by (auto simp: grows_def intro: extends_trans)

lemma grows_same_chain:
  "db_events db' = db_events db \<Longrightarrow> db_next_id db' = db_next_id db \<Longrightarrow> grows X db db'"
  by (simp add: grows_def extends_def sound_def)

lemma grows_and_then:
  assumes "grows X db (snd r)" "\<And>a db'. grows X db' (snd (f a db'))"
  shows "grows X db (snd (and_then r f))"
  using assms by (cases r) (auto simp: and_then_def split: sum.split intro: grows_trans)

lemma take_fault_same: "snd (take_fault db) = db\<lparr>db_faults := tl (db_faults db)\<rparr>"
  by (auto simp: take_fault_def split: list.split option.split)

lemma grows_take_fault [grow_rules]: "grows X db (snd (take_fault db))"
  by (rule grows_same_chain) (simp_all add: take_fault_same)

lemma grows_retry:
  "(\<And>db. grows X db (snd (once db))) \<Longrightarrow> grows X db (snd (retry_locked once budget attempt db))"
proof (induction once budget attempt db rule: retry_locked.induct)
  case (1 once budget attempt db)
  obtain res db' where once: "once db = (res, db')" by force
  have g: "grows X db db'" using 1(2) [of db] once by simp
  show ?case
  proof (cases res)
    case (Inr a)
    with once g show ?thesis by (simp add: retry_locked.simps)
  next
    case (Inl e)
    show ?thesis
    proof (cases "budget \<le> attempt \<or> \<not> is_lock_error e")
      case True
      with once g Inl show ?thesis by (simp add: retry_locked.simps)
    next
      case False
      then have "grows X db' (snd (retry_locked once budget (attempt + 1) db'))"
        using 1(1) [OF once [symmetric] Inl] 1(2) by simp
      with once g Inl False show ?thesis
        by (subst retry_locked.simps) (auto intro: grows_trans)
    qed
  qed
qed

section \<open>Appending\<close>

definition same_but_faults :: "audit_db \<Rightarrow> audit_db \<Rightarrow> bool" where
  "same_but_faults db db' \<longleftrightarrow> db' = db\<lparr>db_faults := db_faults db'\<rparr>"

lemma same_but_faults_refl [simp]: "same_but_faults db db"
  by (simp add: same_but_faults_def)

lemma same_but_faults_trans:
  "same_but_faults a b \<Longrightarrow> same_but_faults b c \<Longrightarrow> same_but_faults a c"
  by (metis (no_types, lifting) audit_db.unfold_congs(8) audit_db.update_convs(8) same_but_faults_def audit_db.surjective)

definition appended ::
  "externs \<Rightarrow> audit_event \<Rightarrow> audit_db \<Rightarrow> stored_event \<Rightarrow> audit_db \<Rightarrow> bool" where
  "appended X ev db s db' \<longleftrightarrow>
     (let prev_hash = head_of GENESIS_PREV_HASH (db_events db);
          detail_json = x_text X (ev_detail ev);
          h = compute_hash X prev_hash ev detail_json;
          i = db_next_id db
      in i \<le> i64_max \<and> h \<notin> row_hash ` set (db_events db) \<and>
         s = \<lparr>se_id = i, se_event = ev, se_prev_hash = prev_hash, se_hash = h\<rparr> \<and>
         db' = db\<lparr>db_events := db_events db @ [row_of i ev detail_json prev_hash h],
                  db_next_id := i + 1, db_faults := db_faults db'\<rparr>)"

lemma append_once_Inr: "append_once X ev db = (Inr s, db') \<Longrightarrow> appended X ev db s db'"
  using take_fault_same [of db]
  by (cases "take_fault db")
    (auto simp: append_once_def and_then_def appended_def Let_def
      split: sum.splits if_splits)

lemma append_once_Inl: "append_once X ev db = (Inl e, db') \<Longrightarrow> same_but_faults db db'"
  using take_fault_same [of db]
  by (cases "take_fault db")
    (auto simp: append_once_def and_then_def same_but_faults_def Let_def
      split: sum.splits if_splits)

lemma append_once_quiet:
  "\<forall>db e db'. append_once X ev db = (Inl e, db') \<longrightarrow> same_but_faults db db'"
  using append_once_Inl by blast

text \<open>An attempt loop gives up without effect, or one of its attempts is the one that counts.\<close>

lemma retry_locked_outcome:
  assumes "\<forall>db e db'. once db = (Inl e, db') \<longrightarrow> same_but_faults db db'"
    and "retry_locked once budget attempt db = (res, db')"
  shows "case res of
      Inl e \<Rightarrow> same_but_faults db db' \<and> (\<exists>db0. same_but_faults db db0 \<and> once db0 = (Inl e, db'))
    | Inr a \<Rightarrow> \<exists>db0. same_but_faults db db0 \<and> once db0 = (Inr a, db')"
  using assms
proof (induction once budget attempt db rule: retry_locked.induct)
  case (1 once budget attempt db)
  obtain res1 db1 where once: "once db = (res1, db1)" by force
  show ?case
  proof (cases res1)
    case (Inr a)
    with once 1(3) have "res = Inr a" "db' = db1"
      by (simp_all add: retry_locked.simps)
    with once Inr show ?thesis
      by (auto intro!: exI [of _ db])
  next
    case (Inl e)
    then have same: "same_but_faults db db1" using 1(2) once by simp
    show ?thesis
    proof (cases "budget \<le> attempt \<or> \<not> is_lock_error e")
      case True
      with once 1(3) Inl have "res = Inl e" "db' = db1"
        by (simp_all add: retry_locked.simps)
      with once Inl same show ?thesis
        by (auto intro!: exI [of _ db])
    next
      case False
      then have "retry_locked once budget (attempt + 1) db1 = (res, db')"
        using 1(3) once Inl by (subst (asm) retry_locked.simps) simp
      from 1(1) [OF once [symmetric] Inl False 1(2) this] same show ?thesis
        by (auto split: sum.splits intro: same_but_faults_trans)
    qed
  qed
qed

lemma append_with_Inr:
  assumes "append_with X ev attempts db = (Inr s, db')"
  obtains db0 where "same_but_faults db db0" "appended X ev db0 s db'"
  using retry_locked_outcome [OF append_once_quiet assms [unfolded append_with_def]] that
  by (auto dest: append_once_Inr)

lemma appended_faults: "same_but_faults db db0 \<Longrightarrow> appended X ev db0 s db' \<Longrightarrow> appended X ev db s db'"
proof -
  assume "same_but_faults db db0"
  then obtain fs where db0: "db0 = db\<lparr>db_faults := fs\<rparr>"
    by (auto simp: same_but_faults_def)
  assume "appended X ev db0 s db'"
  then show ?thesis
    by (simp add: db0 appended_def Let_def)
qed

lemma append_event_Inr: "append_event X ev db = (Inr s, db') \<Longrightarrow> appended X ev db s db'"
  unfolding append_event_def by (erule append_with_Inr) (rule appended_faults)

lemma append_event_Inl: "append_event X ev db = (Inl e, db') \<Longrightarrow> same_but_faults db db'"
  using retry_locked_outcome [OF append_once_quiet, of X ev _ 1 db "Inl e" db']
  by (simp add: append_event_def append_with_def)

lemma recomputed_row_of:
  "recomputed X (row_of i ev d p h) = compute_hash X p ev d"
  by (simp add: recomputed_def row_of_def row_event_def compute_hash_def hash_input_def)

lemma row_of_simps [simp]:
  "row_id (row_of i ev d p h) = i" "row_hash (row_of i ev d p h) = h"
  "row_prev_hash (row_of i ev d p h) = p" "row_detail_json (row_of i ev d p h) = d"
  "row_action (row_of i ev d p h) = ev_action ev" "row_actor (row_of i ev d p h) = ev_actor ev"
  "row_timestamp_ms (row_of i ev d p h) = ev_timestamp_ms ev"
  "row_agent_id (row_of i ev d p h) = ev_agent_id ev"
  by (simp_all add: row_of_def)

lemma appended_events:
  assumes "appended X ev db s db'"
  shows "db_events db' = db_events db @
      [row_of (se_id s) ev (x_text X (ev_detail ev)) (se_prev_hash s) (se_hash s)]"
    and "db_next_id db' = db_next_id db + 1" "se_id s = db_next_id db" "se_event s = ev"
    and "se_prev_hash s = head_of GENESIS_PREV_HASH (db_events db)"
    and "se_hash s = compute_hash X (se_prev_hash s) ev (x_text X (ev_detail ev))"
    and "db_segments db' = db_segments db" "db_runs db' = db_runs db"
    and "db_version db' = db_version db" "db_tables db' = db_tables db" "db_journal db' = db_journal db"
proof -
  define d where "d = x_text X (ev_detail ev)"
  define p where "p = head_of GENESIS_PREV_HASH (db_events db)"
  define h where "h = compute_hash X p ev d"
  have s: "s = \<lparr>se_id = db_next_id db, se_event = ev, se_prev_hash = p, se_hash = h\<rparr>"
    and db': "db' = db\<lparr>db_events := db_events db @ [row_of (db_next_id db) ev d p h],
      db_next_id := db_next_id db + 1, db_faults := db_faults db'\<rparr>"
    using assms by (simp_all add: appended_def Let_def d_def p_def h_def)
  show "db_events db' = db_events db @
      [row_of (se_id s) ev (x_text X (ev_detail ev)) (se_prev_hash s) (se_hash s)]"
    by (subst db') (simp add: s d_def)
  show "db_next_id db' = db_next_id db + 1" "db_segments db' = db_segments db"
    "db_runs db' = db_runs db" "db_version db' = db_version db" "db_tables db' = db_tables db"
    "db_journal db' = db_journal db"
    by (subst db', simp)+
  show "se_id s = db_next_id db" "se_event s = ev"
    "se_prev_hash s = head_of GENESIS_PREV_HASH (db_events db)"
    "se_hash s = compute_hash X (se_prev_hash s) ev (x_text X (ev_detail ev))"
    by (simp_all add: s p_def h_def d_def)
qed

lemma appended_grows: "appended X ev db s db' \<Longrightarrow> grows X db db'"
  using appended_events [of X ev db s db']
  by (auto simp: grows_def extends_def sound_def chained_append recomputed_row_of sorted_wrt_append)

lemma grows_append [grow_rules]: "grows X db (snd (append_event X ev db))"
proof -
  obtain res db' where r: "append_event X ev db = (res, db')" by force
  show ?thesis
  proof (cases res)
    case (Inl e)
    with r have "same_but_faults db db'" by (simp add: append_event_Inl)
    then have "grows X db db'"
      by (intro grows_same_chain) (metis (no_types) same_but_faults_def audit_db.select_convs(4,5) audit_db.surjective audit_db.update_convs(8))+
    with r show ?thesis by simp
  next
    case (Inr s)
    with r show ?thesis using append_event_Inr appended_grows by fastforce
  qed
qed

lemma same_but_faults_fields:
  assumes "same_but_faults db db'"
  shows "db_events db' = db_events db" "db_next_id db' = db_next_id db"
    "db_segments db' = db_segments db" "db_runs db' = db_runs db" "db_version db' = db_version db"
    "db_tables db' = db_tables db" "db_journal db' = db_journal db"
proof -
  from assms have eq: "db' = db\<lparr>db_faults := db_faults db'\<rparr>" by (simp add: same_but_faults_def)
  show "db_events db' = db_events db" "db_next_id db' = db_next_id db"
    "db_segments db' = db_segments db" "db_runs db' = db_runs db" "db_version db' = db_version db"
    "db_tables db' = db_tables db" "db_journal db' = db_journal db"
    by (subst eq, simp)+
qed

section \<open>The attempt budget\<close>

definition lock_fault :: "sqlite_error \<Rightarrow> bool" where
  "lock_fault e \<longleftrightarrow> is_lock_error (Sqlite e)"

lemma append_once_fault:
  "db_faults db = Some e # fs \<Longrightarrow> append_once X ev db = (Inl (Sqlite e), db\<lparr>db_faults := fs\<rparr>)"
  by (simp add: append_once_def take_fault_def)

text \<open>Lock answers are worked off one per attempt, as long as the budget lasts.\<close>

lemma retry_locked_step:
  assumes "db_faults db = Some e # fs" "lock_fault e" "attempt < budget"
  shows "retry_locked (append_once X ev) budget attempt db =
    retry_locked (append_once X ev) budget (attempt + 1) (db\<lparr>db_faults := fs\<rparr>)"
  using assms by (subst retry_locked.simps) (simp add: append_once_fault lock_fault_def)

lemma retry_locked_skip:
  assumes "db_faults db = map Some locks @ fs" "\<forall>e \<in> set locks. lock_fault e"
    "attempt + length locks \<le> budget"
  shows "retry_locked (append_once X ev) budget attempt db =
    retry_locked (append_once X ev) budget (attempt + length locks) (db\<lparr>db_faults := fs\<rparr>)"
  using assms
proof (induction locks arbitrary: db attempt)
  case Nil
  then have "db\<lparr>db_faults := fs\<rparr> = db" by (metis append_Nil list.map(1) audit_db.surjective audit_db.update_convs(8) audit_db.select_convs(8))
  then show ?case by simp
next
  case (Cons e locks)
  then have "retry_locked (append_once X ev) budget attempt db =
      retry_locked (append_once X ev) budget (attempt + 1) (db\<lparr>db_faults := map Some locks @ fs\<rparr>)"
    by (intro retry_locked_step) auto
  also have "\<dots> = retry_locked (append_once X ev) budget (attempt + 1 + length locks)
      (db\<lparr>db_faults := map Some locks @ fs, db_faults := fs\<rparr>)"
    using Cons.prems by (intro Cons.IH) auto
  finally show ?case by simp
qed

lemma append_event_exhausted:
  assumes "db_faults db = map Some locks @ fs" "\<forall>e \<in> set locks. lock_fault e"
    "length locks = APPEND_MAX_ATTEMPTS"
  shows "append_event X ev db = (Inl (Sqlite (last locks)), db\<lparr>db_faults := fs\<rparr>)"
proof -
  have "locks \<noteq> []" using assms(3) by (auto simp: APPEND_MAX_ATTEMPTS_def)
  then obtain ls e where locks: "locks = ls @ [e]" by (cases locks rule: rev_cases) auto
  have "retry_locked (append_once X ev) 5 1 db =
      retry_locked (append_once X ev) 5 (1 + length ls) (db\<lparr>db_faults := Some e # fs\<rparr>)"
    using assms locks by (intro retry_locked_skip) (auto simp: APPEND_MAX_ATTEMPTS_def)
  also have "\<dots> = (Inl (Sqlite e), db\<lparr>db_faults := fs\<rparr>)"
    using assms locks
    by (subst retry_locked.simps) (simp add: append_once_fault APPEND_MAX_ATTEMPTS_def)
  finally show ?thesis
    by (simp add: append_event_def append_with_def APPEND_MAX_ATTEMPTS_def locks)
qed

definition next_append_ok :: "externs \<Rightarrow> audit_event \<Rightarrow> audit_db \<Rightarrow> bool" where
  "next_append_ok X ev db \<longleftrightarrow>
     db_next_id db \<le> i64_max \<and>
     compute_hash X (head_of GENESIS_PREV_HASH (db_events db)) ev (x_text X (ev_detail ev))
       \<notin> row_hash ` set (db_events db)"

lemma append_event_within_budget:
  assumes "db_faults db = map Some locks @ fs" "\<forall>e \<in> set locks. lock_fault e"
    "length locks < APPEND_MAX_ATTEMPTS" "fs = [] \<or> hd fs = None" "next_append_ok X ev db"
  obtains s db' where "append_event X ev db = (Inr s, db')" "appended X ev db s db'"
proof -
  have "append_event X ev db =
      retry_locked (append_once X ev) 5 (1 + length locks) (db\<lparr>db_faults := fs\<rparr>)"
    unfolding append_event_def append_with_def using assms retry_locked_skip [of db locks fs 1 5]
    by (simp add: APPEND_MAX_ATTEMPTS_def)
  moreover have "\<exists>s db'. append_once X ev (db\<lparr>db_faults := fs\<rparr>) = (Inr s, db')"
    using assms(4,5)
    by (cases fs) (auto simp: append_once_def take_fault_def next_append_ok_def Let_def)
  ultimately have "\<exists>s db'. append_event X ev db = (Inr s, db')"
    by (subst (asm) retry_locked.simps) auto
  with that append_event_Inr show ?thesis by blast
qed

section \<open>Opening refuses a newer file\<close>

lemma init_schema_newer:
  assumes "AUDIT_SCHEMA_VERSION < db_version db" "init_schema db = (res, db')"
  shows "db' = db\<lparr>db_journal := db_journal db', db_faults := db_faults db'\<rparr> \<and>
    (\<exists>e. res = Inl e \<and> (is_lock_error e \<or> e = DataTooNew (db_version db) AUDIT_SCHEMA_VERSION \<or>
       (\<exists>s. e = Sqlite s)))"
  using assms take_fault_same [of db]
  by (cases "take_fault db")
    (auto simp: init_schema_def configure_connection_def and_then_def Let_def take_fault_def
      split: if_splits sum.splits list.splits option.splits)

lemma init_schema_newer_clean:
  assumes "AUDIT_SCHEMA_VERSION < db_version db" "db_faults db = []"
  shows "fst (open_file db) = Inl (DataTooNew (db_version db) AUDIT_SCHEMA_VERSION)"
proof -
  have "fst (init_schema db) = Inl (DataTooNew (db_version db) AUDIT_SCHEMA_VERSION)"
    using assms by (simp add: init_schema_def configure_connection_def take_fault_def Let_def)
  then show ?thesis
    unfolding open_file_def open_with_def
    by (subst retry_locked.simps) (auto split: prod.split sum.splits)
qed

lemma add_column_chain:
  "db_events (snd (add_column_if_missing t c db)) = db_events db \<and>
   db_next_id (snd (add_column_if_missing t c db)) = db_next_id db"
  using take_fault_same [of db]
  by (cases "take_fault db")
    (auto simp: add_column_if_missing_def split: sum.splits audit_error.splits)

lemma grows_add_column [grow_rules]: "grows X db (snd (add_column_if_missing t c db))"
  by (rule grows_same_chain) (simp_all add: add_column_chain)

lemma grows_update [grow_rules]:
  "grows X db (db\<lparr>db_journal := j\<rparr>)" "grows X db (db\<lparr>db_tables := ts\<rparr>)"
  "grows X db (db\<lparr>db_version := v\<rparr>)" "grows X db (db\<lparr>db_segments := ss\<rparr>)"
  "grows X db (db\<lparr>db_runs := rs\<rparr>)"
  by (rule grows_same_chain; simp)+

lemma grows_init_schema [grow_rules]: "grows X db (snd (init_schema db))"
  unfolding init_schema_def configure_connection_def execute_schema_def migrate_events_table_def
    migrate_runs_table_def migrate_segments_table_def stamp_version_def Let_def
  by (intro grows_and_then) (auto intro!: grow_rules grows_and_then)

lemma grows_open [grow_rules]: "grows X db (snd (open_with n db))"
  unfolding open_with_def by (rule grows_retry) (rule grow_rules)

text \<open>Opening a file leaves its rows alone.\<close>

definition same_chain :: "audit_db \<Rightarrow> audit_db \<Rightarrow> bool" where
  "same_chain db db' \<longleftrightarrow> db_events db' = db_events db \<and> db_next_id db' = db_next_id db"

named_theorems same_rules \<open>operations that leave the chain as it is\<close>

lemma same_chain_simps [same_rules]:
  "same_chain db db" "same_chain db (db\<lparr>db_journal := j\<rparr>)" "same_chain db (db\<lparr>db_tables := ts\<rparr>)"
  "same_chain db (db\<lparr>db_version := v\<rparr>)" "same_chain db (snd (take_fault db))"
  "same_chain db (snd (add_column_if_missing t c db))"
  by (simp_all add: same_chain_def take_fault_same add_column_chain)

lemma same_chain_trans: "same_chain a b \<Longrightarrow> same_chain b c \<Longrightarrow> same_chain a c"
  by (simp add: same_chain_def)

lemma same_chain_and_then:
  assumes "same_chain db (snd r)" "\<And>a db'. same_chain db' (snd (f a db'))"
  shows "same_chain db (snd (and_then r f))"
  using assms by (cases r) (auto simp: and_then_def split: sum.split intro: same_chain_trans)

lemma same_chain_retry:
  "(\<And>db. same_chain db (snd (once db))) \<Longrightarrow> same_chain db (snd (retry_locked once budget attempt db))"
proof (induction once budget attempt db rule: retry_locked.induct)
  case (1 once budget attempt db)
  obtain r db1 where once: "once db = (r, db1)" by force
  with 1(2) [of db] have "same_chain db db1" by simp
  with once 1 show ?case
    by (subst retry_locked.simps) (auto split: sum.split intro: same_chain_trans)
qed

lemma same_chain_init_schema: "same_chain db (snd (init_schema db))"
  unfolding init_schema_def configure_connection_def execute_schema_def migrate_events_table_def
    migrate_runs_table_def migrate_segments_table_def stamp_version_def Let_def
  by (intro same_chain_and_then) (auto intro!: same_rules same_chain_and_then)

lemma same_chain_open: "same_chain db (snd (open_file db))"
  unfolding open_file_def open_with_def by (intro same_chain_retry same_chain_init_schema)

section \<open>Reading back and exporting\<close>

text \<open>What \<open>append\<close> wrote can be parsed: the detail text is a printed value.\<close>

definition readable :: "externs \<Rightarrow> audit_db \<Rightarrow> bool" where
  "readable X db \<longleftrightarrow>
     (\<forall>r \<in> set (db_events db). \<exists>v. printable v \<and> row_detail_json r = x_text X v)"

definition decoded :: "externs \<Rightarrow> raw_row \<Rightarrow> stored_event" where
  "decoded X r =
     \<lparr>se_id = row_id r,
      se_event = \<lparr>ev_timestamp_ms = row_timestamp_ms r, ev_actor = row_actor r,
        ev_action = row_action r, ev_detail = the (x_parse X (row_detail_json r)),
        ev_agent_id = row_agent_id r\<rparr>,
      se_prev_hash = row_prev_hash r, se_hash = row_hash r\<rparr>"

lemma into_stored_readable:
  assumes "text_roundtrips X" "printable v" "row_detail_json r = x_text X v"
  shows "into_stored X r = Inr (decoded X r)" and "ev_detail (se_event (decoded X r)) = v"
  using assms by (auto simp: into_stored_def parse_detail_def text_roundtrips_def decoded_def)

lemma traverse_readable:
  assumes "text_roundtrips X" "\<forall>r \<in> set rs. \<exists>v. printable v \<and> row_detail_json r = x_text X v"
  shows "traverse_result (into_stored X) rs = Inr (map (decoded X) rs)"
proof (rule traverse_result_all)
  fix r assume "r \<in> set rs"
  with assms(2) obtain v where "printable v" "row_detail_json r = x_text X v" by blast
  with assms(1) show "into_stored X r = Inr (decoded X r)" by (rule into_stored_readable)
qed

lemma all_events_readable:
  "text_roundtrips X \<Longrightarrow> readable X db \<Longrightarrow> all_events X db = Inr (map (decoded X) (db_events db))"
  by (simp add: all_events_def scan_def readable_def traverse_readable)

lemma append_readable:
  assumes "appended X ev db s db'" "readable X db" "printable (ev_detail ev)"
  shows "readable X db'"
  using assms appended_events(1) [OF assms(1)] by (auto simp: readable_def)

text \<open>A reader of the exported lines recomputes the formula from the members of each line.\<close>

fun lines_chained :: "externs \<Rightarrow> string \<Rightarrow> stored_event list \<Rightarrow> bool" where
  "lines_chained X p [] \<longleftrightarrow> True"
| "lines_chained X p (e # es) \<longleftrightarrow>
     se_prev_hash e = p \<and>
     se_hash e = compute_hash X p (se_event e) (x_text X (ev_detail (se_event e))) \<and>
     lines_chained X (se_hash e) es"

lemma lines_chained_decoded:
  assumes "text_roundtrips X"
    "\<forall>r \<in> set rs. \<exists>v. printable v \<and> row_detail_json r = x_text X v" "chained X p rs"
  shows "lines_chained X p (map (decoded X) rs)"
  using assms(2,3)
proof (induction rs arbitrary: p)
  case (Cons r rs)
  then obtain v where v: "printable v" "row_detail_json r = x_text X v" by auto
  have "x_parse X (row_detail_json r) = Some v"
    using assms(1) v by (simp add: text_roundtrips_def)
  with Cons v show ?case
    by (auto simp: decoded_def recomputed_def row_event_def compute_hash_def hash_input_def)
qed simp

lemma chained_prefix: "chained X p (rs @ ss) \<Longrightarrow> chained X p rs"
  by (simp add: chained_append)

lemma filter_ids_prefix:
  "sorted_wrt (<) (map row_id rs) \<Longrightarrow>
   filter (\<lambda>r. row_id r \<le> i) rs = takeWhile (\<lambda>r. row_id r \<le> i) rs"
proof (induction rs)
  case (Cons r rs)
  then show ?case
    by (cases "row_id r \<le> i")
      (auto simp: filter_empty_conv takeWhile_eq_Nil_iff dest!: bspec [OF _ hd_in_set])
qed simp

lemma sql_limit_all: "sql_limit USIZE_MAX xs = xs"
  by (simp add: sql_limit_def USIZE_MAX_def wrap_i64_def)

lemma filter_matches_to_id:
  "filter_matches (default_filter\<lparr>ef_to_id := Some i\<rparr>) = (\<lambda>r. row_id r \<le> i)"
  by (simp add: fun_eq_iff filter_matches_def default_filter_def holds_for_def)

lemma exported_events_prefix:
  assumes "text_roundtrips X" "sound X db" "readable X db"
  shows "exported_events X i db =
    Inr (map (decoded X) (takeWhile (\<lambda>r. row_id r \<le> i) (db_events db)))"
proof -
  let ?rs = "takeWhile (\<lambda>r. row_id r \<le> i) (db_events db)"
  have "traverse_result (into_stored X) ?rs = Inr (map (decoded X) ?rs)"
    using assms by (intro traverse_readable) (auto simp: readable_def dest: set_takeWhileD)
  moreover have "filter (filter_matches (default_filter\<lparr>ef_to_id := Some i\<rparr>)) (db_events db) = ?rs"
    using assms(2) filter_ids_prefix [of "db_events db" i] by (simp add: filter_matches_to_id sound_def)
  ultimately show ?thesis
    by (simp add: exported_events_def list_events_def Let_def sql_limit_all)
      (simp add: default_filter_def)
qed

end
