(* ===== verification/Audit_Merge.thy ===== *)
theory Audit_Merge
  imports Audit_Store
begin

text \<open>
  The life of a segment in the store, \<open>audit/src/store.rs\<close>: opening and closing one with its event
  on the chain, adopting one that stood in elsewhere, and merging one by transcription or
  recording the conflict that stops it. The segment's own file is opened by the caller of the
  merge here (\<open>opened\<close>, the answer of \<open>AuditStore::open_segment_store\<close>): it is another file of
  the same type.
\<close>

section \<open>The segments table\<close>

definition segment_lookup :: "externs \<Rightarrow> string \<Rightarrow> audit_db \<Rightarrow> audit_error + segment option" where
  "segment_lookup X sid db =
     (case find (\<lambda>r. sr_id r = sid) (db_segments db) of
        None \<Rightarrow> Inr None
      | Some r \<Rightarrow> bind_result (segment_from_row X r) (\<lambda>s. Inr (Some s)))"

definition segments :: "externs \<Rightarrow> audit_db \<Rightarrow> audit_error + segment list" where
  "segments X db = traverse_result (segment_from_row X) (sort_key sr_id (db_segments db))"

definition insert_segment :: "segment \<Rightarrow> audit_db \<Rightarrow> (audit_error + unit) \<times> audit_db" where
  "insert_segment s db =
     and_then (take_fault db) (\<lambda>_ db.
       if List.member (map sr_id (db_segments db)) (seg_id s) then
         (Inl (Sqlite (SqliteFailure ''UNIQUE constraint failed: segments.segment_id'')), db)
       else (Inr (), db\<lparr>db_segments := db_segments db @ [segment_to_row s]\<rparr>))"

definition update_segment ::
  "string \<Rightarrow> (segment_row \<Rightarrow> segment_row) \<Rightarrow> audit_db \<Rightarrow> (audit_error + unit) \<times> audit_db" where
  "update_segment sid f db =
     and_then (take_fault db) (\<lambda>_ db.
       (Inr (), db\<lparr>db_segments := map (\<lambda>r. if sr_id r = sid then f r else r) (db_segments db)\<rparr>))"

definition set_segment_state ::
  "string \<Rightarrow> segment_state \<Rightarrow> int option \<Rightarrow> audit_db \<Rightarrow> (audit_error + unit) \<times> audit_db" where
  "set_segment_state sid state closed_at_ms =
     update_segment sid (\<lambda>r. r\<lparr>sr_state := segment_state_as_str state, sr_closed_at_ms := closed_at_ms\<rparr>)"

definition mark_segment_forked :: "string \<Rightarrow> string \<Rightarrow> audit_db \<Rightarrow> (audit_error + unit) \<times> audit_db" where
  "mark_segment_forked sid reason =
     update_segment sid
       (\<lambda>r. r\<lparr>sr_state := segment_state_as_str Seg_Forked, sr_note := Some reason\<rparr>)"

definition mark_segment_folded ::
  "string \<Rightarrow> string option \<Rightarrow> audit_db \<Rightarrow> (audit_error + unit) \<times> audit_db" where
  "mark_segment_folded sid head =
     update_segment sid
       (\<lambda>r. r\<lparr>sr_state := segment_state_as_str Seg_Folded, sr_head_hash := head\<rparr>)"

definition set_segment_note :: "string \<Rightarrow> string \<Rightarrow> audit_db \<Rightarrow> (audit_error + unit) \<times> audit_db" where
  "set_segment_note sid note = update_segment sid (\<lambda>r. r\<lparr>sr_note := Some note\<rparr>)"

definition delete_segment :: "string \<Rightarrow> audit_db \<Rightarrow> (audit_error + unit) \<times> audit_db" where
  "delete_segment sid db =
     and_then (take_fault db) (\<lambda>_ db.
       (Inr (), db\<lparr>db_segments := filter (\<lambda>r. sr_id r \<noteq> sid) (db_segments db)\<rparr>))"

section \<open>Opening, closing, adopting\<close>

definition mint :: "int \<Rightarrow> string option \<Rightarrow> nat option \<Rightarrow> string" where
  "mint now owner suffix =
     (case (owner, suffix) of
        (Some o', Some n) \<Rightarrow>
          ''seg-'' @ safe_owner o' @ ''-'' @ show_int now @ ''-'' @ show_nat n
      | (Some o', None) \<Rightarrow> ''seg-'' @ safe_owner o' @ ''-'' @ show_int now
      | (None, Some n) \<Rightarrow> ''seg-'' @ show_int now @ ''-'' @ show_nat n
      | (None, None) \<Rightarrow> ''seg-'' @ show_int now)"

definition U32_MAX :: nat where "U32_MAX = 2 ^ 32 - 1"

function free_suffix ::
  "externs \<Rightarrow> audit_db \<Rightarrow> int \<Rightarrow> string option \<Rightarrow> nat \<Rightarrow> audit_error + string" where
  "free_suffix X db now owner n =
     (if U32_MAX < n then Inl (Other ''could not mint a segment id'')
      else case segment_lookup X (mint now owner (Some n)) db of
        Inl e \<Rightarrow> Inl e
      | Inr None \<Rightarrow> Inr (mint now owner (Some n))
      | Inr (Some _) \<Rightarrow> free_suffix X db now owner (n + 1))"
  by pat_completeness auto
termination
  by (relation "measure (\<lambda>(_, _, _, _, n). Suc U32_MAX - n)") auto

declare free_suffix.simps [simp del]

definition free_segment_id ::
  "externs \<Rightarrow> int \<Rightarrow> string option \<Rightarrow> audit_db \<Rightarrow> audit_error + string" where
  "free_segment_id X now owner db =
     (case segment_lookup X (mint now owner None) db of
        Inl e \<Rightarrow> Inl e
      | Inr None \<Rightarrow> Inr (mint now owner None)
      | Inr (Some _) \<Rightarrow> free_suffix X db now owner 2)"

text \<open>\<open>now\<close> is the reading the segment is named by, \<open>now'\<close> the one the event is stamped with.\<close>

definition open_segment_inner ::
  "externs \<Rightarrow> segment_kind \<Rightarrow> string option \<Rightarrow> int \<Rightarrow> int \<Rightarrow> audit_db \<Rightarrow>
   (audit_error + segment) \<times> audit_db" where
  "open_segment_inner X kind owner now now' db =
     and_then (free_segment_id X now owner db, db) (\<lambda>sid db.
       let s = \<lparr>seg_id = sid, seg_kind = kind, seg_head_hash = None,
                seg_head_prev_chain = last_hash db, seg_head_prev_length = last_id db,
                seg_opened_at_ms = Some now, seg_closed_at_ms = None,
                seg_state = Seg_Open, seg_note = None\<rparr>
       in and_then (insert_segment s db) (\<lambda>_ db.
            case append_event X
                   (audit_event_new now' ''host'' ACTION_SEGMENT_OPENED (segment_opened_detail s)) db of
              (Inr _, db) \<Rightarrow> (Inr s, db)
            | (Inl error, db) \<Rightarrow>
                and_then (delete_segment sid db) (\<lambda>_ db. (Inl error, db))))"

definition open_segment ::
  "externs \<Rightarrow> segment_kind \<Rightarrow> int \<Rightarrow> int \<Rightarrow> audit_db \<Rightarrow> (audit_error + segment) \<times> audit_db" where
  "open_segment X kind now now' db = open_segment_inner X kind None now now' db"

definition open_segment_for ::
  "externs \<Rightarrow> segment_kind \<Rightarrow> string \<Rightarrow> int \<Rightarrow> int \<Rightarrow> audit_db \<Rightarrow> (audit_error + segment) \<times> audit_db" where
  "open_segment_for X kind owner now now' db = open_segment_inner X kind (Some owner) now now' db"

definition close_segment ::
  "externs \<Rightarrow> string \<Rightarrow> int \<Rightarrow> int \<Rightarrow> audit_db \<Rightarrow> (audit_error + segment) \<times> audit_db" where
  "close_segment X sid now now' db =
     and_then (segment_lookup X sid db, db) (\<lambda>found db.
       case found of
         None \<Rightarrow> (Inl (Other (''no segment '' @ sid)), db)
       | Some s \<Rightarrow>
           and_then (set_segment_state sid Seg_Closed (Some now) db) (\<lambda>_ db.
             case append_event X
                    (audit_event_new now' ''host'' ACTION_SEGMENT_CLOSED
                      (segment_closed_detail sid now)) db of
               (Inr _, db) \<Rightarrow> (Inr (s\<lparr>seg_state := Seg_Closed, seg_closed_at_ms := Some now\<rparr>), db)
             | (Inl error, db) \<Rightarrow>
                 and_then (set_segment_state sid Seg_Open None db) (\<lambda>_ db. (Inl error, db))))"

definition adopt_segment ::
  "externs \<Rightarrow> string \<Rightarrow> string option \<Rightarrow> int option \<Rightarrow> audit_db \<Rightarrow>
   (audit_error + unit) \<times> audit_db" where
  "adopt_segment X sid head_prev_chain head_prev_length db =
     and_then (segment_lookup X sid db, db) (\<lambda>found db.
       case found of
         Some _ \<Rightarrow> (Inr (), db)
       | None \<Rightarrow>
           insert_segment
             \<lparr>seg_id = sid, seg_kind = Temporary, seg_head_hash = None,
              seg_head_prev_chain = head_prev_chain, seg_head_prev_length = head_prev_length,
              seg_opened_at_ms = None, seg_closed_at_ms = None, seg_state = Seg_Closed,
              seg_note = Some ''adopted from another node''\<rparr> db)"

section \<open>Merging\<close>

fun merged_already_rows :: "externs \<Rightarrow> string \<Rightarrow> raw_row list \<Rightarrow> audit_error + bool" where
  "merged_already_rows X sid [] = Inr False"
| "merged_already_rows X sid (r # rs) =
     (if row_action r \<noteq> ACTION_SEGMENT_MERGED then merged_already_rows X sid rs
      else bind_result (parse_detail X (row_detail_json r)) (\<lambda>detail.
        if text_member detail ''segment_id'' = Some sid then Inr True
        else merged_already_rows X sid rs))"

definition merged_already :: "externs \<Rightarrow> string \<Rightarrow> audit_db \<Rightarrow> audit_error + bool" where
  "merged_already X sid db = merged_already_rows X sid (scan db)"

fun row_with :: "externs \<Rightarrow> string \<Rightarrow> string \<Rightarrow> json \<Rightarrow> raw_row list \<Rightarrow> audit_error + int option" where
  "row_with X actor act detail [] = Inr None"
| "row_with X actor act detail (r # rs) =
     (if row_actor r = actor \<and> row_action r = act then
        bind_result (parse_detail X (row_detail_json r)) (\<lambda>existing.
          if existing = detail then Inr (Some (row_id r)) else row_with X actor act detail rs)
      else row_with X actor act detail rs)"

definition main_chain_row_with ::
  "externs \<Rightarrow> string \<Rightarrow> string \<Rightarrow> json \<Rightarrow> audit_db \<Rightarrow> audit_error + int option" where
  "main_chain_row_with X actor act detail db = row_with X actor act detail (scan db)"

fun find_conflict ::
  "externs \<Rightarrow> audit_db \<Rightarrow> stored_event list \<Rightarrow> audit_error + (string \<times> string \<times> int) option" where
  "find_conflict X db [] = Inr None"
| "find_conflict X db (e # es) =
     (let ev = se_event e
      in bind_result (main_chain_row_with X (ev_actor ev) (ev_action ev)
           (cleared_detail (ev_detail ev)) db) (\<lambda>hit.
           case hit of
             Some i \<Rightarrow> Inr (Some (ev_actor ev, ev_action ev, i))
           | None \<Rightarrow> find_conflict X db es))"

definition outgoing :: "stored_event \<Rightarrow> audit_event" where
  "outgoing e = (se_event e)\<lparr>ev_detail := cleared_detail (ev_detail (se_event e))\<rparr>"

fun transcribe ::
  "externs \<Rightarrow> string \<Rightarrow> nat \<Rightarrow> stored_event list \<Rightarrow> nat \<Rightarrow> audit_db \<Rightarrow>
   (audit_error + nat) \<times> audit_db" where
  "transcribe X sid all_n [] merged db = (Inr merged, db)"
| "transcribe X sid all_n (e # es) merged db =
     (case append_event X (outgoing e) db of
        (Inr _, db) \<Rightarrow> transcribe X sid all_n es (merged + 1) db
      | (Inl error, db) \<Rightarrow>
          (Inl error,
           snd (set_segment_note sid (PARTIAL_MERGE_PREFIX @ show_nat merged @ '' of '' @
             show_nat all_n @ '' events: '' @ audit_error_text error) db)))"

definition mergeable :: "externs \<Rightarrow> string \<Rightarrow> audit_db \<Rightarrow> audit_error + segment" where
  "mergeable X sid db =
     bind_result (segment_lookup X sid db) (\<lambda>found.
       case found of
         None \<Rightarrow> Inl (Other (''no segment '' @ sid))
       | Some s \<Rightarrow>
           if seg_kind s \<noteq> Temporary then Inl (Other (sid @ '' is not a temporary segment''))
           else if seg_state s \<noteq> Seg_Open \<and> seg_state s \<noteq> Seg_Closed then
             Inl (Other (sid @ '' is '' @ segment_state_as_str (seg_state s) @
               '' '' @ byte_string [226, 128, 148] @
               '' only an open or closed segment can be merged''))
           else bind_result (merged_already X sid db) (\<lambda>done_before.
             if done_before then Inl (Other (sid @ '' is already merged''))
             else case seg_note s of
               None \<Rightarrow> Inr s
             | Some note \<Rightarrow>
                 if partial_merge_recorded note then
                   Inl (Other (sid @ '' has a partial merge recorded ('' @ note @
                     ''); refusing to merge again''))
                 else Inr s))"

definition fork_reason :: "string \<Rightarrow> string \<Rightarrow> int \<Rightarrow> string" where
  "fork_reason actor act i =
     ''conflicts with the main chain at event '' @ show_int i @ '': '' @ actor @ '' '' @ act @
     ''; not merged''"

text \<open>\<open>t\<close> and \<open>t'\<close> are the clock readings of the marker's detail and of the marker itself.\<close>

definition merge_segment ::
  "externs \<Rightarrow> audit_error + audit_db \<Rightarrow> string \<Rightarrow> int \<Rightarrow> int \<Rightarrow> audit_db \<Rightarrow>
   (audit_error + merge_outcome) \<times> audit_db" where
  "merge_segment X opened sid t t' db =
     and_then (mergeable X sid db, db) (\<lambda>s db.
     and_then (bind_result opened (all_events X), db) (\<lambda>events db.
     and_then (find_conflict X db events, db) (\<lambda>conflict db.
       case conflict of
         Some (actor, act, i) \<Rightarrow>
           let reason = fork_reason actor act i
           in and_then (append_event X
                  (audit_event_new t' ''host'' ACTION_SEGMENT_FORKED
                    (segment_forked_detail sid (seg_kind s) t reason (Some i))) db) (\<lambda>_ db.
              and_then (mark_segment_forked sid reason db) (\<lambda>_ db.
                (Inr (Forked reason), db)))
       | None \<Rightarrow>
           and_then (transcribe X sid (length events) events 0 db) (\<lambda>merged db.
           and_then (append_event X
                (audit_event_new t' ''host'' ACTION_SEGMENT_MERGED
                  (segment_merged_detail sid (seg_kind s) t merged)) db) (\<lambda>_ db.
           and_then (mark_segment_folded sid (last_hash db) db) (\<lambda>_ db.
             (Inr (Folded merged), db)))))))"

section \<open>Every operation only appends\<close>

lemma grows_insert_segment [grow_rules]: "grows X db (snd (insert_segment s db))"
  unfolding insert_segment_def by (intro grows_and_then) (auto intro: grow_rules)

lemma grows_update_segment [grow_rules]: "grows X db (snd (update_segment sid f db))"
  unfolding update_segment_def by (intro grows_and_then) (auto intro: grow_rules)

lemma grows_delete_segment [grow_rules]: "grows X db (snd (delete_segment sid db))"
  unfolding delete_segment_def by (intro grows_and_then) (auto intro: grow_rules)

lemmas segment_updates = set_segment_state_def mark_segment_forked_def mark_segment_folded_def
  set_segment_note_def

text \<open>An append whose failure is handled by another operation that only appends.\<close>

lemma grows_append_case:
  assumes "\<And>s db'. grows X db' (snd (ok s db'))" "\<And>e db'. grows X db' (snd (bad e db'))"
  shows "grows X db (snd (case append_event X ev db of (Inr s, db') \<Rightarrow> ok s db' | (Inl e, db') \<Rightarrow> bad e db'))"
proof -
  obtain r db' where r: "append_event X ev db = (r, db')" by force
  then have "grows X db db'" using grows_append [of X db ev] by simp
  with assms r show ?thesis by (auto split: sum.split intro: grows_trans)
qed

lemma grows_open_segment [grow_rules]:
  "grows X db (snd (open_segment_inner X kind owner now now' db))"
  unfolding open_segment_inner_def Let_def
  by (intro grows_and_then grows_append_case) (auto intro: grow_rules)

lemma grows_close_segment [grow_rules]: "grows X db (snd (close_segment X sid now now' db))"
  unfolding close_segment_def segment_updates
  by (rule grows_and_then)
    (auto split: option.split intro!: grow_rules grows_and_then grows_append_case)

lemma grows_adopt_segment [grow_rules]: "grows X db (snd (adopt_segment X sid h l db))"
  unfolding adopt_segment_def
  by (rule grows_and_then) (auto split: option.split intro: grow_rules)

lemma grows_transcribe [grow_rules]: "grows X db (snd (transcribe X sid n es m db))"
proof (induction es arbitrary: m db)
  case Nil
  then show ?case by (simp add: grow_rules)
next
  case (Cons e es)
  then show ?case
    unfolding transcribe.simps set_segment_note_def
    by (intro grows_append_case) (auto intro: grow_rules)
qed

lemma grows_merge_segment [grow_rules]: "grows X db (snd (merge_segment X opened sid t t' db))"
  unfolding merge_segment_def segment_updates Let_def
  by (intro grows_and_then)
    (auto split: option.split intro!: grow_rules grows_and_then)

section \<open>Segment ids are fresh\<close>

lemma segment_lookup_None: "segment_lookup X sid db = Inr None \<longleftrightarrow> sid \<notin> sr_id ` set (db_segments db)"
  by (auto simp: segment_lookup_def find_None_iff bind_result_def split: option.splits sum.splits
      dest!: find_Some_in)

lemma free_suffix_fresh:
  "free_suffix X db now owner n = Inr sid \<Longrightarrow> sid \<notin> sr_id ` set (db_segments db)"
proof (induction X db now owner n rule: free_suffix.induct)
  case (1 X db now owner n)
  show ?case
  proof (cases "U32_MAX < n")
    case True
    with 1(2) show ?thesis by (simp add: free_suffix.simps)
  next
    case False
    show ?thesis
    proof (cases "segment_lookup X (mint now owner (Some n)) db")
      case (Inl e)
      with 1(2) False show ?thesis by (simp add: free_suffix.simps)
    next
      case (Inr found)
      with 1 False segment_lookup_None [of X "mint now owner (Some n)" db] show ?thesis
        by (cases found) (simp_all add: free_suffix.simps [of X db now owner n])
    qed
  qed
qed

lemma free_segment_id_fresh:
  "free_segment_id X now owner db = Inr sid \<Longrightarrow> sid \<notin> sr_id ` set (db_segments db)"
  using segment_lookup_None [of X "mint now owner None" db]
  by (auto simp: free_segment_id_def split: sum.splits option.splits dest: free_suffix_fresh)

text \<open>A table this code wrote: every row can be read, and no id has two.\<close>

definition segments_ok :: "externs \<Rightarrow> audit_db \<Rightarrow> bool" where
  "segments_ok X db \<longleftrightarrow>
     distinct (map sr_id (db_segments db)) \<and>
     (\<forall>r \<in> set (db_segments db). \<exists>s. segment_from_row X r = Inr s)"

lemma segment_lookup_ok:
  "segments_ok X db \<Longrightarrow> \<exists>found. segment_lookup X sid db = Inr found"
proof (cases "find (\<lambda>r. sr_id r = sid) (db_segments db)")
  case None
  then show ?thesis by (simp add: segment_lookup_def)
next
  case (Some r)
  assume "segments_ok X db"
  with Some show ?thesis
    by (auto simp: segment_lookup_def segments_ok_def dest!: find_Some_in)
qed

lemma free_suffix_exhausted:
  assumes "segments_ok X db"
  shows "free_suffix X db now owner n = Inl e \<Longrightarrow> n \<le> k \<Longrightarrow> k \<le> U32_MAX \<Longrightarrow>
    mint now owner (Some k) \<in> sr_id ` set (db_segments db)"
  using assms
proof (induction X db now owner n rule: free_suffix.induct)
  case (1 X db now owner n)
  then have n: "\<not> U32_MAX < n" by simp
  obtain found where found: "segment_lookup X (mint now owner (Some n)) db = Inr found"
    using segment_lookup_ok 1(5) by blast
  with 1(2) n obtain s where s: "found = Some s" "free_suffix X db now owner (n + 1) = Inl e"
    by (cases found) (simp_all add: free_suffix.simps [of X db now owner n])
  show ?case
  proof (cases "k = n")
    case True
    with found s segment_lookup_None [of X "mint now owner (Some n)" db] show ?thesis by auto
  next
    case False
    with 1(3) have "n + 1 \<le> k" by simp
    with 1(1) [OF n found s(1) s(2)] 1(4,5) show ?thesis by simp
  qed
qed

lemma mint_suffix_inj: "mint now owner (Some j) = mint now owner (Some k) \<Longrightarrow> j = k"
  by (cases owner) (auto simp: mint_def dest: show_nat_inj)

lemma free_segment_id_exists:
  assumes "segments_ok X db" "length (db_segments db) < U32_MAX - 1"
  shows "\<exists>sid. free_segment_id X now owner db = Inr sid"
proof (rule ccontr)
  assume none: "\<not> ?thesis"
  obtain found where "segment_lookup X (mint now owner None) db = Inr found"
    using segment_lookup_ok [OF assms(1)] by blast
  with none obtain e where "free_suffix X db now owner 2 = Inl e"
    by (cases found; cases "free_suffix X db now owner 2") (auto simp: free_segment_id_def)
  from free_suffix_exhausted [OF assms(1) this]
  have "(\<lambda>k. mint now owner (Some k)) ` {2..U32_MAX} \<subseteq> sr_id ` set (db_segments db)"
    by auto
  then have "card ((\<lambda>k. mint now owner (Some k)) ` {2..U32_MAX}) \<le> card (sr_id ` set (db_segments db))"
    by (rule card_mono [rotated]) simp
  also have "\<dots> \<le> length (db_segments db)"
    by (metis card_image_le card_length finite_set le_trans)
  also have "card ((\<lambda>k. mint now owner (Some k)) ` {2..U32_MAX}) = U32_MAX - 1"
    by (subst card_image) (auto intro!: inj_onI dest: mint_suffix_inj)
  finally show False using assms(2) by simp
qed

section \<open>What a merge writes\<close>

text \<open>The rows a sequence of appends puts behind head \<open>p\<close>, numbered from \<open>i\<close>.\<close>

fun chain_rows :: "externs \<Rightarrow> string \<Rightarrow> int \<Rightarrow> audit_event list \<Rightarrow> raw_row list" where
  "chain_rows X p i [] = []"
| "chain_rows X p i (ev # evs) =
     (let d = x_text X (ev_detail ev); h = compute_hash X p ev d
      in row_of i ev d p h # chain_rows X h (i + 1) evs)"

definition appended_all :: "externs \<Rightarrow> audit_event list \<Rightarrow> audit_db \<Rightarrow> audit_db \<Rightarrow> bool" where
  "appended_all X evs db db' \<longleftrightarrow>
     db_events db' =
       db_events db @ chain_rows X (head_of GENESIS_PREV_HASH (db_events db)) (db_next_id db) evs \<and>
     db_next_id db' = db_next_id db + int (length evs) \<and> db_segments db' = db_segments db"

lemma appended_all_Nil: "appended_all X [] db db"
  by (simp add: appended_all_def)

lemma appended_all_one: "appended X ev db s db' \<Longrightarrow> appended_all X [ev] db db'"
  using appended_events [of X ev db s db'] by (simp add: appended_all_def Let_def)

lemma chain_rows_append:
  "chain_rows X p i (evs @ evs') =
   chain_rows X p i evs @ chain_rows X (head_of p (chain_rows X p i evs)) (i + int (length evs)) evs'"
  by (induction evs arbitrary: p i) (simp_all add: Let_def algebra_simps)

lemma head_of_append: "head_of p (rs @ ss) = head_of (head_of p rs) ss"
  by (simp add: head_of_def)

lemma appended_all_trans:
  "appended_all X evs a b \<Longrightarrow> appended_all X evs' b c \<Longrightarrow> appended_all X (evs @ evs') a c"
  by (simp add: appended_all_def chain_rows_append head_of_append)

lemma set_segment_note_chain:
  "db_events (snd (set_segment_note sid note db)) = db_events db \<and>
   db_next_id (snd (set_segment_note sid note db)) = db_next_id db"
  by (cases "take_fault db")
    (use take_fault_same [of db] in
      \<open>auto simp: set_segment_note_def update_segment_def and_then_def split: sum.split\<close>)

lemma transcribe_Inr:
  "transcribe X sid n es m db = (Inr k, db') \<Longrightarrow>
   k = m + length es \<and> appended_all X (map outgoing es) db db'"
proof (induction es arbitrary: m db)
  case Nil
  then show ?case by (simp add: appended_all_Nil)
next
  case (Cons e es)
  then obtain s db1 where ap: "append_event X (outgoing e) db = (Inr s, db1)"
    and rest: "transcribe X sid n es (m + 1) db1 = (Inr k, db')"
    by (auto split: prod.splits sum.splits)
  from appended_all_one [OF append_event_Inr [OF ap]] Cons.IH [OF rest] show ?case
    using appended_all_trans [of X "[outgoing e]" db db1] by auto
qed

lemma update_segment_Inr:
  assumes "update_segment sid f db = (Inr u, db')"
  shows "db_events db' = db_events db" "db_next_id db' = db_next_id db"
    "db_segments db' = map (\<lambda>r. if sr_id r = sid then f r else r) (db_segments db)"
  using assms take_fault_same [of db]
  by (cases "take_fault db"; auto simp: update_segment_def and_then_def split: sum.splits)+

lemma and_then_Inr:
  "and_then r f = (Inr b, s') \<longleftrightarrow> (\<exists>a s. r = (Inr a, s) \<and> f a s = (Inr b, s'))"
  by (cases r) (auto simp: and_then_def split: sum.splits)

lemma mergeable_Inr:
  "mergeable X sid db = Inr s \<Longrightarrow>
   segment_lookup X sid db = Inr (Some s) \<and> seg_kind s = Temporary \<and>
   (seg_state s = Seg_Open \<or> seg_state s = Seg_Closed) \<and> merged_already X sid db = Inr False"
  by (cases "segment_lookup X sid db"; cases "merged_already X sid db")
    (auto simp: mergeable_def split: option.splits if_splits)

definition merged_marker :: "string \<Rightarrow> segment_kind \<Rightarrow> int \<Rightarrow> int \<Rightarrow> nat \<Rightarrow> audit_event" where
  "merged_marker sid kind t t' n =
     audit_event_new t' ''host'' ACTION_SEGMENT_MERGED (segment_merged_detail sid kind t n)"

definition forked_marker :: "string \<Rightarrow> segment_kind \<Rightarrow> int \<Rightarrow> int \<Rightarrow> string \<Rightarrow> int \<Rightarrow> audit_event" where
  "forked_marker sid kind t t' reason i =
     audit_event_new t' ''host'' ACTION_SEGMENT_FORKED
       (segment_forked_detail sid kind t reason (Some i))"

lemma merge_segment_cases:
  assumes "merge_segment X opened sid t t' db = (Inr out, db')"
  obtains (folded) s es db1 where "mergeable X sid db = Inr s"
      "bind_result opened (all_events X) = Inr es" "find_conflict X db es = Inr None"
      "out = Folded (length es)"
      "appended_all X (map outgoing es @ [merged_marker sid (seg_kind s) t t' (length es)]) db db1"
      "db_events db' = db_events db1" "db_next_id db' = db_next_id db1"
      "db_segments db' = map (\<lambda>r. if sr_id r = sid then r\<lparr>sr_state := ''folded'',
         sr_head_hash := last_hash db1\<rparr> else r) (db_segments db)"
  | (forked) s es actor act i db1 where "mergeable X sid db = Inr s"
      "bind_result opened (all_events X) = Inr es"
      "find_conflict X db es = Inr (Some (actor, act, i))"
      "out = Forked (fork_reason actor act i)"
      "appended_all X [forked_marker sid (seg_kind s) t t' (fork_reason actor act i) i] db db1"
      "db_events db' = db_events db1" "db_next_id db' = db_next_id db1"
      "db_segments db' = map (\<lambda>r. if sr_id r = sid then r\<lparr>sr_state := ''forked'',
         sr_note := Some (fork_reason actor act i)\<rparr> else r) (db_segments db)"
proof -
  from assms obtain s es conflict where m: "mergeable X sid db = Inr s"
    and es: "bind_result opened (all_events X) = Inr es"
    and conf: "find_conflict X db es = Inr conflict"
    by (auto simp: merge_segment_def and_then_Inr)
  show thesis
  proof (cases conflict)
    case None
    with assms m es conf obtain k db1 ev db2 where tr: "transcribe X sid (length es) es 0 db = (Inr k, db1)"
      and ap: "append_event X (merged_marker sid (seg_kind s) t t' k) db1 = (Inr ev, db2)"
      and mk: "mark_segment_folded sid (last_hash db2) db2 = (Inr (), db')" and out: "out = Folded k"
      by (auto simp: merge_segment_def and_then_Inr merged_marker_def)
    from transcribe_Inr [OF tr] have k: "k = length es"
      and a1: "appended_all X (map outgoing es) db db1" by auto
    from appended_all_trans [OF a1 appended_all_one [OF append_event_Inr [OF ap]]]
    have a2: "appended_all X (map outgoing es @ [merged_marker sid (seg_kind s) t t' k]) db db2" .
    then have "db_segments db2 = db_segments db" by (simp add: appended_all_def)
    with update_segment_Inr [OF mk [unfolded mark_segment_folded_def]] folded [of s es db2] m es conf
      None out k a2 show thesis by simp
  next
    case (Some c)
    obtain actor act i where c: "c = (actor, act, i)" by (metis prod_cases3)
    let ?r = "fork_reason actor act i"
    from assms m es conf Some c obtain ev db1
      where ap: "append_event X (forked_marker sid (seg_kind s) t t' ?r i) db = (Inr ev, db1)"
      and mk: "mark_segment_forked sid ?r db1 = (Inr (), db')" and out: "out = Forked ?r"
      by (auto simp: merge_segment_def and_then_Inr forked_marker_def Let_def)
    note a = appended_all_one [OF append_event_Inr [OF ap]]
    then have "db_segments db1 = db_segments db" by (simp add: appended_all_def)
    with update_segment_Inr [OF mk [unfolded mark_segment_forked_def]] forked [of s es actor act i db1]
      m es conf Some c out a show thesis by simp
  qed
qed

text \<open>The row of a segment after an update of the rows with its id.\<close>

lemma segment_lookup_update:
  assumes "segment_lookup X sid db = Inr (Some s)" "\<And>r. sr_id (f r) = sr_id r"
    and "db_segments db' = map (\<lambda>r. if sr_id r = sid then f r else r) (db_segments db)"
  obtains r where "segment_from_row X r = Inr s" "sr_id r = sid"
    "find (\<lambda>r. sr_id r = sid) (db_segments db') = Some (f r)"
proof -
  from assms(1) obtain r where r: "find (\<lambda>r. sr_id r = sid) (db_segments db) = Some r"
    "segment_from_row X r = Inr s"
    by (auto simp: segment_lookup_def bind_result_Inr_iff split: option.splits)
  have "find (\<lambda>r. sr_id r = sid) (map (\<lambda>r. if sr_id r = sid then f r else r) rs) =
      map_option f (find (\<lambda>r. sr_id r = sid) rs)" for rs
    by (induction rs) (auto simp: assms(2))
  with r assms(3) have "find (\<lambda>r. sr_id r = sid) (db_segments db') = Some (f r)" by simp
  moreover have "sr_id r = sid" using find_Some_in [OF r(1)] by simp
  ultimately show thesis using that r(2) by blast
qed

lemma segment_from_row_state:
  assumes "segment_from_row X r = Inr s"
  shows "segment_from_row X (r\<lparr>sr_state := segment_state_as_str st, sr_head_hash := h\<rparr>) =
      Inr (s\<lparr>seg_state := st, seg_head_hash := h\<rparr>)"
    and "segment_from_row X (r\<lparr>sr_state := segment_state_as_str st, sr_note := n\<rparr>) =
      Inr (s\<lparr>seg_state := st, seg_note := n\<rparr>)"
    and "segment_from_row X (r\<lparr>sr_state := segment_state_as_str st, sr_closed_at_ms := c\<rparr>) =
      Inr (s\<lparr>seg_state := st, seg_closed_at_ms := c\<rparr>)"
  using assms by (auto simp: segment_from_row_def split: option.splits)

lemma merge_segment_row:
  assumes "merge_segment X opened sid t t' db = (Inr out, db')"
  obtains s where "segment_lookup X sid db' = Inr (Some s)"
    "case out of Folded n \<Rightarrow> seg_state s = Seg_Folded \<and> seg_head_hash s = last_hash db'
     | Forked reason \<Rightarrow> seg_state s = Seg_Forked \<and> seg_note s = Some reason"
  using assms
proof (cases rule: merge_segment_cases)
  case (folded s es db1)
  have "segment_lookup X sid db = Inr (Some s)" using mergeable_Inr [OF folded(1)] by simp
  then obtain r where "segment_from_row X r = Inr s" "sr_id r = sid"
    "find (\<lambda>r. sr_id r = sid) (db_segments db') =
     Some (r\<lparr>sr_state := ''folded'', sr_head_hash := last_hash db1\<rparr>)"
    by (rule segment_lookup_update [OF _ _ folded(8)]) auto
  with segment_from_row_state(1) [of X r s, where st = Seg_Folded and h = "last_hash db1"]
  have "segment_lookup X sid db' = Inr (Some (s\<lparr>seg_state := Seg_Folded, seg_head_hash := last_hash db1\<rparr>))"
    by (simp add: segment_lookup_def)
  moreover have "last_hash db' = last_hash db1" using folded(6) by (simp add: last_hash_def)
  ultimately show thesis using that folded(4) by simp
next
  case (forked s es actor act i db1)
  have "segment_lookup X sid db = Inr (Some s)" using mergeable_Inr [OF forked(1)] by simp
  then obtain r where "segment_from_row X r = Inr s" "sr_id r = sid"
    "find (\<lambda>r. sr_id r = sid) (db_segments db') =
     Some (r\<lparr>sr_state := ''forked'', sr_note := Some (fork_reason actor act i)\<rparr>)"
    by (rule segment_lookup_update [OF _ _ forked(8)]) auto
  with segment_from_row_state(2) [of X r s, where st = Seg_Forked and n = "Some (fork_reason actor act i)"]
  have "segment_lookup X sid db' =
      Inr (Some (s\<lparr>seg_state := Seg_Forked, seg_note := Some (fork_reason actor act i)\<rparr>))"
    by (simp add: segment_lookup_def)
  then show thesis using that forked(4) by simp
qed

lemma merge_refused:
  "segment_lookup X sid db = Inr (Some s) \<Longrightarrow> seg_state s = Seg_Folded \<or> seg_state s = Seg_Forked \<Longrightarrow>
   \<exists>e. merge_segment X opened sid t t' db = (Inl e, db)"
  by (auto simp: merge_segment_def mergeable_def)

section \<open>Conflicts\<close>

definition parseable :: "externs \<Rightarrow> audit_db \<Rightarrow> bool" where
  "parseable X db \<longleftrightarrow> (\<forall>r \<in> set (db_events db). x_parse X (row_detail_json r) \<noteq> None)"

lemma readable_parseable: "text_roundtrips X \<Longrightarrow> readable X db \<Longrightarrow> parseable X db"
  by (fastforce simp: readable_def parseable_def text_roundtrips_def)

text \<open>The same act: actor, action and cleared detail.\<close>

definition clash :: "externs \<Rightarrow> stored_event \<Rightarrow> raw_row \<Rightarrow> bool" where
  "clash X e r \<longleftrightarrow>
     row_actor r = ev_actor (se_event e) \<and> row_action r = ev_action (se_event e) \<and>
     x_parse X (row_detail_json r) = Some (cleared_detail (ev_detail (se_event e)))"

lemma row_with_find:
  "\<forall>r \<in> set rs. x_parse X (row_detail_json r) \<noteq> None \<Longrightarrow>
   row_with X actor act detail rs = Inr (map_option row_id
     (find (\<lambda>r. row_actor r = actor \<and> row_action r = act \<and>
        x_parse X (row_detail_json r) = Some detail) rs))"
  by (induction rs) (auto simp: parse_detail_def)

lemma main_chain_clash:
  "parseable X db \<Longrightarrow>
   main_chain_row_with X (ev_actor (se_event e)) (ev_action (se_event e))
     (cleared_detail (ev_detail (se_event e))) db =
   Inr (map_option row_id (find (clash X e) (db_events db)))"
  by (simp add: main_chain_row_with_def scan_def row_with_find parseable_def clash_def [abs_def])

lemma find_conflict_None:
  "parseable X db \<Longrightarrow>
   find_conflict X db es = Inr None \<longleftrightarrow> (\<forall>e \<in> set es. \<forall>r \<in> set (db_events db). \<not> clash X e r)"
  by (induction es) (auto simp: Let_def main_chain_clash find_None_iff split: option.split dest: find_Some_in)

lemma find_conflict_Some:
  "parseable X db \<Longrightarrow> find_conflict X db es = Inr (Some (actor, act, i)) \<Longrightarrow>
   \<exists>e \<in> set es. \<exists>r \<in> set (db_events db). clash X e r \<and> row_id r = i \<and>
     actor = row_actor r \<and> act = row_action r"
proof (induction es)
  case (Cons e es)
  show ?case
  proof (cases "find (clash X e) (db_events db)")
    case None
    with Cons show ?thesis by (auto simp: Let_def main_chain_clash)
  next
    case (Some r)
    with Cons.prems have "row_id r = i" "actor = ev_actor (se_event e)" "act = ev_action (se_event e)"
      by (auto simp: Let_def main_chain_clash)
    with find_Some_in [OF Some] show ?thesis by (auto simp: clash_def)
  qed
qed simp

lemma find_conflict_total: "parseable X db \<Longrightarrow> \<exists>hit. find_conflict X db es = Inr hit"
proof (induction es)
  case (Cons e es)
  then show ?case
    by (cases "find (clash X e) (db_events db)") (auto simp: Let_def main_chain_clash)
qed simp

lemma float_free_cleared: "float_free_depth d v \<Longrightarrow> float_free_depth d (cleared_detail v)"
  by (cases v) (auto simp: del_def)

lemma printable_cleared: "printable v \<Longrightarrow> printable (cleared_detail v)"
  by (simp add: printable_def wf_cleared_detail float_free_cleared)

lemma chain_rows_parse:
  assumes "text_roundtrips X" "ev \<in> set evs" "printable (ev_detail ev)"
  shows "\<exists>r \<in> set (chain_rows X p i evs). row_actor r = ev_actor ev \<and> row_action r = ev_action ev \<and>
    x_parse X (row_detail_json r) = Some (ev_detail ev)"
  using assms(2)
proof (induction evs arbitrary: p i)
  case (Cons f evs)
  then show ?case using assms(1,3) by (auto simp: Let_def text_roundtrips_def)
qed simp

lemma chain_rows_parseable:
  assumes "text_roundtrips X" "\<forall>ev \<in> set evs. printable (ev_detail ev)" "r \<in> set (chain_rows X p i evs)"
  shows "x_parse X (row_detail_json r) \<noteq> None"
  using assms(2,3)
proof (induction evs arbitrary: p i)
  case (Cons f evs)
  then show ?case using assms(1) by (auto simp: Let_def text_roundtrips_def)
qed simp

lemma transcribed_clash:
  assumes "text_roundtrips X" "parseable X db" "appended_all X (map outgoing es) db db'"
    and "\<forall>e \<in> set es. printable (ev_detail (se_event e))" "e \<in> set es"
  shows "parseable X db'" and "\<exists>r \<in> set (db_events db'). clash X e r"
proof -
  let ?evs = "map outgoing es"
  have pr: "\<forall>ev \<in> set ?evs. printable (ev_detail ev)"
    using assms(4) by (auto simp: outgoing_def intro: printable_cleared)
  show "parseable X db'"
    using assms(2,3) chain_rows_parseable [OF assms(1) pr]
    by (auto simp: parseable_def appended_all_def)
  have "outgoing e \<in> set ?evs" using assms(5) by simp
  from chain_rows_parse [OF assms(1) this] pr assms(3,5)
  show "\<exists>r \<in> set (db_events db'). clash X e r"
    by (fastforce simp: appended_all_def clash_def outgoing_def)
qed

lemma merged_already_events: "db_events db' = db_events db \<Longrightarrow> merged_already X sid db' = merged_already X sid db"
  by (simp add: merged_already_def scan_def)

lemma merged_already_rows_append:
  "merged_already_rows X sid rs = Inr False \<Longrightarrow>
   merged_already_rows X sid (rs @ ss) = merged_already_rows X sid ss"
  by (induction rs) (auto simp: bind_result_Inr_iff split: if_splits)

section \<open>Opening and closing\<close>

lemma insert_segment_Inr:
  assumes "insert_segment s db = (Inr u, db')"
  shows "db_events db' = db_events db" "db_next_id db' = db_next_id db"
    "db_segments db' = db_segments db @ [segment_to_row s]" "db_faults db' = tl (db_faults db)"
    "last_hash db' = last_hash db" "last_id db' = last_id db"
  using assms take_fault_same [of db]
  by (cases "take_fault db";
      auto simp: insert_segment_def and_then_def last_hash_def last_id_def split: sum.splits if_splits)+

lemma insert_segment_Inl:
  assumes "insert_segment s db = (Inl e, db')"
  shows "db_events db' = db_events db" "db_segments db' = db_segments db"
  using assms take_fault_same [of db]
  by (cases "take_fault db"; auto simp: insert_segment_def and_then_def split: sum.splits if_splits)+

lemma delete_segment_effect:
  assumes "delete_segment sid db = (r, db')"
  shows "db_events db' = db_events db"
    "db_segments db' = (case r of Inl e \<Rightarrow> db_segments db
       | Inr _ \<Rightarrow> filter (\<lambda>r. sr_id r \<noteq> sid) (db_segments db))"
  using assms take_fault_same [of db]
  by (cases "take_fault db"; auto simp: delete_segment_def and_then_def split: sum.splits if_splits)+

definition opened_segment :: "segment_kind \<Rightarrow> string \<Rightarrow> int \<Rightarrow> audit_db \<Rightarrow> segment" where
  "opened_segment kind sid now db =
     \<lparr>seg_id = sid, seg_kind = kind, seg_head_hash = None, seg_head_prev_chain = last_hash db,
      seg_head_prev_length = last_id db, seg_opened_at_ms = Some now, seg_closed_at_ms = None,
      seg_state = Seg_Open, seg_note = None\<rparr>"

lemma open_segment_inner_Inr:
  assumes "open_segment_inner X kind owner now now' db = (Inr s, db')"
  obtains sid ev db1 where "free_segment_id X now owner db = Inr sid" "s = opened_segment kind sid now db"
    "db_segments db1 = db_segments db @ [segment_to_row s]" "db_events db1 = db_events db"
    "db_next_id db1 = db_next_id db"
    "appended X (audit_event_new now' ''host'' ACTION_SEGMENT_OPENED (segment_opened_detail s)) db1 ev db'"
proof -
  from assms obtain sid where sid: "free_segment_id X now owner db = Inr sid"
    by (auto simp: open_segment_inner_def and_then_Inr)
  let ?s = "opened_segment kind sid now db"
  from assms sid obtain db1 where ins: "insert_segment ?s db = (Inr (), db1)"
    and r: "(case append_event X (audit_event_new now' ''host'' ACTION_SEGMENT_OPENED
        (segment_opened_detail ?s)) db1 of (Inr _, db) \<Rightarrow> (Inr ?s, db)
      | (Inl error, db) \<Rightarrow> and_then (delete_segment sid db) (\<lambda>_ db. (Inl error, db))) = (Inr s, db')"
    by (auto simp: open_segment_inner_def and_then_Inr Let_def simp flip: opened_segment_def)
  from r obtain ev where "append_event X (audit_event_new now' ''host'' ACTION_SEGMENT_OPENED
      (segment_opened_detail ?s)) db1 = (Inr ev, db')" and "s = ?s"
    by (auto simp: and_then_Inr split: prod.splits sum.splits)
  with that [of sid db1 ev] sid insert_segment_Inr [OF ins] append_event_Inr show thesis by blast
qed

lemma open_segment_inner_Inl:
  assumes "open_segment_inner X kind owner now now' db = (Inl e, db')"
  shows "db_events db' = db_events db" and
    "db_segments db' = db_segments db \<or>
     (\<exists>sid. free_segment_id X now owner db = Inr sid \<and>
       db_segments db' = db_segments db @ [segment_to_row (opened_segment kind sid now db)])"
proof -
  consider (free) "db' = db"
    | (ins) sid where "insert_segment (opened_segment kind sid now db) db = (Inl e, db')"
    | (app) sid db1 e1 db2 r where "free_segment_id X now owner db = Inr sid"
        "insert_segment (opened_segment kind sid now db) db = (Inr (), db1)"
        "append_event X (audit_event_new now' ''host'' ACTION_SEGMENT_OPENED
          (segment_opened_detail (opened_segment kind sid now db))) db1 = (Inl e1, db2)"
        "delete_segment sid db2 = (r, db')"
  proof (cases "free_segment_id X now owner db")
    case (Inl e')
    with assms that(1) show ?thesis by (simp add: open_segment_inner_def)
  next
    case (Inr sid)
    obtain r1 db1 where ins: "insert_segment (opened_segment kind sid now db) db = (r1, db1)" by force
    show ?thesis
    proof (cases r1)
      case (Inl e')
      with assms that(2) [of sid] Inr ins show ?thesis
        by (simp add: open_segment_inner_def Let_def flip: opened_segment_def)
    next
      case r1: (Inr u)
      obtain r2 db2 where ap: "append_event X (audit_event_new now' ''host'' ACTION_SEGMENT_OPENED
          (segment_opened_detail (opened_segment kind sid now db))) db1 = (r2, db2)" by force
      obtain r db3 where del: "delete_segment sid db2 = (r, db3)" by force
      from assms Inr ins r1 ap del that(3) [of sid db1 _ db2 r] show ?thesis
        by (cases r2; cases r)
          (auto simp: open_segment_inner_def Let_def simp flip: opened_segment_def)
    qed
  qed
  then have "db_events db' = db_events db \<and> (db_segments db' = db_segments db \<or>
      (\<exists>sid. free_segment_id X now owner db = Inr sid \<and>
       db_segments db' = db_segments db @ [segment_to_row (opened_segment kind sid now db)]))"
  proof cases
    case free
    then show ?thesis by simp
  next
    case ins
    with insert_segment_Inl show ?thesis by blast
  next
    case app
    note s1 = insert_segment_Inr [OF app(2)] and s2 = same_but_faults_fields [OF append_event_Inl [OF app(3)]]
      and s3 = delete_segment_effect [OF app(4)]
    have "sid \<notin> sr_id ` set (db_segments db)" using app(1) by (rule free_segment_id_fresh)
    then have "filter (\<lambda>r. sr_id r \<noteq> sid) (db_segments db) = db_segments db"
      by (auto simp: filter_id_conv)
    moreover have "sr_id (segment_to_row (opened_segment kind sid now db)) = sid"
      by (simp add: segment_to_row_def opened_segment_def)
    ultimately show ?thesis using s1 s2 s3 app(1) by (cases r) auto
  qed
  then show "db_events db' = db_events db" and
    "db_segments db' = db_segments db \<or>
     (\<exists>sid. free_segment_id X now owner db = Inr sid \<and>
       db_segments db' = db_segments db @ [segment_to_row (opened_segment kind sid now db)])"
    by blast+
qed

section \<open>Rows and the events they record\<close>

text \<open>A row that records an event.\<close>

definition same_content :: "audit_event \<Rightarrow> raw_row \<Rightarrow> externs \<Rightarrow> bool" where
  "same_content ev r X \<longleftrightarrow>
     row_timestamp_ms r = ev_timestamp_ms ev \<and> row_actor r = ev_actor ev \<and>
     row_action r = ev_action ev \<and> row_detail_json r = x_text X (ev_detail ev) \<and>
     row_agent_id r = ev_agent_id ev"

lemma chain_rows_content: "list_all2 (\<lambda>ev r. same_content ev r X) evs (chain_rows X p i evs)"
  by (induction evs arbitrary: p i) (simp_all add: Let_def same_content_def)

lemma chain_rows_snoc:
  "\<exists>r. chain_rows X p i (evs @ [ev]) = chain_rows X p i evs @ [r] \<and> same_content ev r X"
  by (simp add: chain_rows_append Let_def same_content_def)

end
