(* ===== verification/Audit_Index.thy ===== *)
theory Audit_Index
  imports Audit_Merge
begin

text \<open>
  The derived run index of the store (\<open>audit/src/store.rs\<close>, the \<open>runs\<close> table), the two binaries
  that check and rebuild it (\<open>audit/src/bin\<close>), the sinks producers write through
  (\<open>audit/src/sink.rs\<close>), and the store as a machine of all its operations.
\<close>

section \<open>The runs table\<close>

definition run_to_row :: "run_record \<Rightarrow> run_row" where
  "run_to_row r =
     \<lparr>rw_run_id = rr_run_id r, rw_session_id = rr_session_id r,
      rw_parent_run_id = rr_parent_run_id r,
      rw_resumed_from_snapshot = rr_resumed_from_snapshot r,
      rw_fingerprint = rr_fingerprint r, rw_fingerprint_schema = rr_fingerprint_schema r,
      rw_started_at_ms = rr_started_at_ms r, rw_ended_at_ms = rr_ended_at_ms r,
      rw_start_seq = rr_start_seq r, rw_end_seq = rr_end_seq r,
      rw_status = run_status_as_str (rr_status r)\<rparr>"

definition run_from_row :: "run_row \<Rightarrow> run_record" where
  "run_from_row r =
     \<lparr>rr_run_id = rw_run_id r, rr_session_id = rw_session_id r,
      rr_parent_run_id = rw_parent_run_id r,
      rr_resumed_from_snapshot = rw_resumed_from_snapshot r,
      rr_fingerprint = rw_fingerprint r, rr_fingerprint_schema = rw_fingerprint_schema r,
      rr_started_at_ms = rw_started_at_ms r, rr_ended_at_ms = rw_ended_at_ms r,
      rr_start_seq = rw_start_seq r, rr_end_seq = rw_end_seq r,
      rr_status = run_status_parse (rw_status r)\<rparr>"

lemma run_row_roundtrip [simp]: "run_from_row (run_to_row r) = r"
  by (simp add: run_from_row_def run_to_row_def)

definition index_run_start :: "run_record \<Rightarrow> audit_db \<Rightarrow> (audit_error + unit) \<times> audit_db" where
  "index_run_start r db =
     and_then (take_fault db) (\<lambda>_ db.
       (Inr (), db\<lparr>db_runs := filter (\<lambda>row. rw_run_id row \<noteq> rr_run_id r) (db_runs db) @ [run_to_row r]\<rparr>))"

definition index_run_end ::
  "string \<Rightarrow> int \<Rightarrow> int \<Rightarrow> run_status \<Rightarrow> audit_db \<Rightarrow> (audit_error + bool) \<times> audit_db" where
  "index_run_end run_id end_seq ended_at_ms status db =
     and_then (take_fault db) (\<lambda>_ db.
       (Inr (List.member (map rw_run_id (db_runs db)) run_id),
        db\<lparr>db_runs := map (\<lambda>row. if rw_run_id row = run_id then
             row\<lparr>rw_end_seq := Some end_seq, rw_ended_at_ms := Some ended_at_ms,
                 rw_status := run_status_as_str status\<rparr> else row) (db_runs db)\<rparr>))"

definition all_runs :: "audit_db \<Rightarrow> run_record list" where
  "all_runs db = map run_from_row (sort_key rw_start_seq (db_runs db))"

definition list_runs :: "nat \<Rightarrow> audit_db \<Rightarrow> run_record list" where
  "list_runs limit db = map run_from_row (sql_limit limit (sort_key rw_start_seq (db_runs db)))"

definition get_run :: "string \<Rightarrow> audit_db \<Rightarrow> run_record option" where
  "get_run run_id db = map_option run_from_row (find (\<lambda>row. rw_run_id row = run_id) (db_runs db))"

definition derive_runs :: "externs \<Rightarrow> audit_db \<Rightarrow> audit_error + run_record list \<times> rebuild_report" where
  "derive_runs X db = bind_result (all_events X db) (\<lambda>es. Inr (derive_runs_from es))"

text \<open>The rebuild is one transaction: \<open>DELETE\<close>, then one \<open>INSERT\<close> per derived row.\<close>

fun insert_runs :: "run_record list \<Rightarrow> run_row list \<Rightarrow> run_row list option" where
  "insert_runs [] rows = Some rows"
| "insert_runs (r # rs) rows =
     (if List.member (map rw_run_id rows) (rr_run_id r) then None
      else insert_runs rs (rows @ [run_to_row r]))"

definition rebuild_run_index :: "externs \<Rightarrow> audit_db \<Rightarrow> (audit_error + rebuild_report) \<times> audit_db" where
  "rebuild_run_index X db =
     and_then (derive_runs X db, db) (\<lambda>(rows, report) db.
     and_then (take_fault db) (\<lambda>_ db.
       case insert_runs rows [] of
         None \<Rightarrow> (Inl (Sqlite (SqliteFailure ''UNIQUE constraint failed: runs.run_id'')), db)
       | Some table \<Rightarrow> (Inr report, db\<lparr>db_runs := table\<rparr>)))"

text \<open>The findings of the cross-check, with the rows their messages print.\<close>

datatype index_finding =
    MissingInIndex run_record
  | DiffersFromChain run_record run_record
  | NotInChain run_record

definition check_runs :: "run_record list \<Rightarrow> run_record list \<Rightarrow> index_finding list" where
  "check_runs derived stored =
     concat (map (\<lambda>row. case find (\<lambda>s. rr_run_id s = rr_run_id row) stored of
         None \<Rightarrow> [MissingInIndex row]
       | Some s \<Rightarrow> if s \<noteq> row then [DiffersFromChain s row] else []) derived) @
     concat (map (\<lambda>row. if List.member (map rr_run_id derived) (rr_run_id row) then []
       else [NotInChain row]) stored)"

definition check_run_index :: "externs \<Rightarrow> audit_db \<Rightarrow> audit_error + index_finding list" where
  "check_run_index X db =
     bind_result (derive_runs X db) (\<lambda>(derived, _). Inr (check_runs derived (all_runs db)))"

section \<open>The binaries\<close>

record verify_args =
  va_path :: string
  va_runs :: bool

fun parse_verify_args :: "string list \<Rightarrow> string option \<Rightarrow> bool \<Rightarrow> string + verify_args" where
  "parse_verify_args [] path runs =
     (case path of
        None \<Rightarrow> Inl ''missing <path-to-db>''
      | Some p \<Rightarrow> Inr \<lparr>va_path = p, va_runs = runs\<rparr>)"
| "parse_verify_args (arg # args) path runs =
     (if arg = ''--runs'' then parse_verify_args args path True
      else if starts_with arg ''-'' then Inl (''unknown option: '' @ arg)
      else if path \<noteq> None then Inl (''unexpected extra argument: '' @ arg)
      else parse_verify_args args (Some arg) runs)"

text \<open>\<open>files\<close> is what is on disk under a path; the answer is the exit code and the file after the open.\<close>

definition verify_main ::
  "externs \<Rightarrow> (string \<Rightarrow> audit_db option) \<Rightarrow> string list \<Rightarrow> nat \<times> audit_db option" where
  "verify_main X files argv =
     (case parse_verify_args argv None False of
        Inl err \<Rightarrow> (2, None)
      | Inr args \<Rightarrow>
          (case files (va_path args) of
             None \<Rightarrow> (2, None)
           | Some file \<Rightarrow>
               (case open_file file of
                  (Inl e, db) \<Rightarrow> (2, Some db)
                | (Inr _, db) \<Rightarrow>
                    (case (if va_runs args then check_run_index X db else Inr []) of
                       Inl e \<Rightarrow> (2, Some db)
                     | Inr findings \<Rightarrow>
                         (case verify_store X db of
                            Intact n \<Rightarrow> (if findings \<noteq> [] then 1 else 0, Some db)
                          | Broken at_id reason \<Rightarrow> (1, Some db))))))"

definition rebuild_main ::
  "externs \<Rightarrow> (string \<Rightarrow> audit_db option) \<Rightarrow> string list \<Rightarrow> nat \<times> audit_db option" where
  "rebuild_main X files argv =
     (if find (\<lambda>arg. starts_with arg ''-'') argv \<noteq> None then (2, None)
      else if length argv \<noteq> 1 then (2, None)
      else case files (hd argv) of
        None \<Rightarrow> (2, None)
      | Some file \<Rightarrow>
          (case open_file file of
             (Inl e, db) \<Rightarrow> (2, Some db)
           | (Inr _, db) \<Rightarrow>
               (case rebuild_run_index X db of
                  (Inl e, db) \<Rightarrow> (2, Some db)
                | (Inr report, db) \<Rightarrow>
                    (case check_run_index X db of
                       Inl e \<Rightarrow> (2, Some db)
                     | Inr findings \<Rightarrow>
                         (if findings = [] \<and> rep_orphans report = 0 then 0 else 1, Some db)))))"

section \<open>Sinks\<close>

text \<open>
  \<open>SqliteAuditSink\<close>: the shared store, whether its mutex is poisoned, whether a reporter is set,
  and what the reporter was told.
\<close>

record audit_sink =
  sink_store :: audit_db
  sink_poisoned :: bool
  sink_reporter :: bool
  sink_reports :: "audit_error list"

definition poisoned_error :: audit_error where
  "poisoned_error = Other ''audit store mutex poisoned''"

definition sink_record :: "externs \<Rightarrow> audit_event \<Rightarrow> audit_sink \<Rightarrow> (audit_error + unit) \<times> audit_sink" where
  "sink_record X ev k =
     (let (result, k) =
        (if sink_poisoned k then (Inl poisoned_error, k)
         else case append_event X ev (sink_store k) of
           (Inl e, db) \<Rightarrow> (Inl e, k\<lparr>sink_store := db\<rparr>)
         | (Inr _, db) \<Rightarrow> (Inr (), k\<lparr>sink_store := db\<rparr>))
      in case result of
           Inl e \<Rightarrow> (Inl e, if sink_reporter k then k\<lparr>sink_reports := sink_reports k @ [e]\<rparr> else k)
         | Inr _ \<Rightarrow> (Inr (), k))"

definition sink_verify :: "externs \<Rightarrow> audit_sink \<Rightarrow> audit_error + chain_status" where
  "sink_verify X k =
     (if sink_poisoned k then Inl poisoned_error else Inr (verify_store X (sink_store k)))"

text \<open>\<open>FileAuditSink\<close>: the lines of its file, and whether the file system accepts the write.\<close>

definition file_line :: "audit_event \<Rightarrow> json" where
  "file_line ev =
     json_obj
       [(''timestamp_ms'', JInt (ev_timestamp_ms ev)),
        (''actor'', JStr (ev_actor ev)),
        (''action'', JStr (ev_action ev)),
        (''detail'', ev_detail ev)]"

definition file_sink_record ::
  "externs \<Rightarrow> string option \<Rightarrow> audit_event \<Rightarrow> string list \<Rightarrow> (audit_error + unit) \<times> string list" where
  "file_sink_record X io_failure ev file =
     (case io_failure of
        Some e \<Rightarrow> (Inl (Io e), file)
      | None \<Rightarrow> (Inr (), file @ [x_text X (file_line ev)]))"

section \<open>The store as a machine\<close>

datatype store_op =
    OpOpen nat
  | OpAppend audit_event nat
  | OpOpenSegment segment_kind "string option" int int
  | OpCloseSegment string int int
  | OpAdoptSegment string "string option" "int option"
  | OpMergeSegment "audit_error + audit_db" string int int
  | OpIndexRunStart run_record
  | OpIndexRunEnd string int int run_status
  | OpRebuildRunIndex

fun apply_op :: "externs \<Rightarrow> store_op \<Rightarrow> audit_db \<Rightarrow> audit_db" where
  "apply_op X (OpOpen n) db = snd (open_with n db)"
| "apply_op X (OpAppend ev n) db = snd (append_with X ev n db)"
| "apply_op X (OpOpenSegment kind owner now now') db = snd (open_segment_inner X kind owner now now' db)"
| "apply_op X (OpCloseSegment sid now now') db = snd (close_segment X sid now now' db)"
| "apply_op X (OpAdoptSegment sid h l) db = snd (adopt_segment X sid h l db)"
| "apply_op X (OpMergeSegment opened sid t t') db = snd (merge_segment X opened sid t t' db)"
| "apply_op X (OpIndexRunStart r) db = snd (index_run_start r db)"
| "apply_op X (OpIndexRunEnd rid e t s) db = snd (index_run_end rid e t s db)"
| "apply_op X OpRebuildRunIndex db = snd (rebuild_run_index X db)"

lemma grows_append_once [grow_rules]: "grows X db (snd (append_once X ev db))"
proof -
  obtain r db' where r: "append_once X ev db = (r, db')" by force
  show ?thesis
  proof (cases r)
    case (Inl e)
    with r append_once_Inl [of X ev db e db'] same_but_faults_fields [of db db'] show ?thesis
      by (auto intro: grows_same_chain)
  next
    case (Inr s)
    with r append_once_Inr [of X ev db s db'] appended_grows show ?thesis by auto
  qed
qed

lemma grows_append_with [grow_rules]: "grows X db (snd (append_with X ev n db))"
  unfolding append_with_def by (rule grows_retry) (rule grow_rules)

lemma grows_index [grow_rules]:
  "grows X db (snd (index_run_start r db))" "grows X db (snd (index_run_end rid e t s db))"
  unfolding index_run_start_def index_run_end_def
  by (intro grows_and_then; auto intro: grow_rules)+

lemma grows_rebuild [grow_rules]: "grows X db (snd (rebuild_run_index X db))"
  unfolding rebuild_run_index_def
  by (intro grows_and_then)
    (auto split: prod.split option.split intro!: grow_rules grows_and_then)

lemma grows_apply_op: "grows X db (apply_op X op db)"
  by (cases op) (auto intro: grow_rules)

interpretation store: machine "apply_op X" "sound X" extends for X
  using grows_apply_op by unfold_locales (auto simp: grows_def extends_refl intro: extends_trans)

lemma sound_new_file: "sound X (new_file faults)"
  by (simp add: sound_def new_file_def)

section \<open>A rebuilt index agrees with the chain\<close>

lemma insert_runs_distinct:
  "distinct (map rr_run_id rs) \<Longrightarrow> set (map rr_run_id rs) \<inter> set (map rw_run_id rows) = {} \<Longrightarrow>
   insert_runs rs rows = Some (rows @ map run_to_row rs)"
  by (induction rs arbitrary: rows) (auto simp: run_to_row_def)

lemma into_stored_id: "into_stored X r = Inr s \<Longrightarrow> se_id s = row_id r"
  by (auto simp: into_stored_def bind_result_Inr_iff)

lemma all_events_ascending: "sound X db \<Longrightarrow> all_events X db = Inr es \<Longrightarrow> ascending es"
proof -
  assume "sound X db" "all_events X db = Inr es"
  then have l: "list_all2 (\<lambda>r s. into_stored X r = Inr s) (db_events db) es"
    and asc: "sorted_wrt (<) (map row_id (db_events db))"
    by (simp_all add: all_events_def scan_def traverse_result_Inr sound_def)
  from l have "map se_id es = map row_id (db_events db)"
    by (induction rule: list_all2_induct) (auto simp: into_stored_id)
  with asc show ?thesis by (simp add: ascending_def)
qed

lemma check_runs_self:
  assumes "distinct (map rr_run_id rows)"
  shows "check_runs rows rows = []"
proof -
  have "find (\<lambda>s. rr_run_id s = rr_run_id row) rows = Some row" if "row \<in> set rows" for row
    using lookup_run_distinct [OF assms, of "rr_run_id row" row] that by (simp add: lookup_run_def)
  then show ?thesis by (simp add: check_runs_def)
qed

lemma rebuild_agrees:
  assumes "sound X db" "rebuild_run_index X db = (Inr report, db')"
  shows "check_run_index X db' = Inr []"
    and "derive_runs X db = Inr (all_runs db', report)"
proof -
  from assms(2) obtain es rows where es: "all_events X db = Inr es"
    and rows: "derive_runs_from es = (rows, report)"
    by (auto simp: rebuild_run_index_def derive_runs_def and_then_Inr bind_result_Inr_iff
        split: prod.splits option.splits)
  have fst_rows: "rows = fst (derive_fold es)" using derive_runs_from_rows [of es] rows by simp
  have dist: "distinct (map rr_run_id rows)" by (simp add: fst_rows derive_fold_distinct)
  then have ins: "insert_runs rows [] = Some (map run_to_row rows)"
    using insert_runs_distinct [of rows "[]"] by simp
  from assms(2) es rows ins have db': "db_runs db' = map run_to_row rows" "db_events db' = db_events db"
    using take_fault_same [of db]
    by (cases "take_fault db";
        auto simp: rebuild_run_index_def derive_runs_def and_then_def split: sum.splits)+
  have "sorted_wrt (<) (map rr_start_seq rows)"
    using derive_fold_starts [OF all_events_ascending [OF assms(1) es]] fst_rows by simp
  then have "sorted (map rw_start_seq (map run_to_row rows))"
    by (simp add: comp_def run_to_row_def strict_sorted_iff)
  then have runs: "all_runs db' = rows"
    using db' sort_key_id_if_sorted [of rw_start_seq "map run_to_row rows"]
    by (simp add: all_runs_def comp_def)
  have "all_events X db' = Inr es" using es db' by (simp add: all_events_def scan_def)
  with rows runs dist show "check_run_index X db' = Inr []"
    by (simp add: check_run_index_def derive_runs_def check_runs_self)
  from es rows runs show "derive_runs X db = Inr (all_runs db', report)"
    by (simp add: derive_runs_def)
qed

end
