(* ===== verification/Sample_Externs.thy ===== *)
theory Sample_Externs
  imports Json
begin

text \<open>
  One concrete choice of the functions of other crates, on which the conditional theorems of the
  development are applied: a printer and a parser for the JSON model (length-prefixed, not JSON's
  own grammar), an injective escape in the place of SHA-256, and a toy signature. The
  assumptions the development makes on \<open>externs\<close> are proved for it here.
\<close>

section \<open>A printer and its parser\<close>

definition enc_int :: "int \<Rightarrow> string" where
  "enc_int i = show_int i @ '';''"

definition enc_text :: "string \<Rightarrow> string" where
  "enc_text s = show_nat (length s) @ '';'' @ s"

fun enc_json :: "json \<Rightarrow> string" where
  "enc_json JNull = ''n''"
| "enc_json (JBool b) = (if b then ''t'' else ''f'')"
| "enc_json (JInt i) = ''i'' @ enc_int i"
| "enc_json (JFloat r) = ''r''"
| "enc_json (JStr s) = ''s'' @ enc_text s"
| "enc_json (JArr vs) = ''['' @ concat (map enc_json vs) @ '']''"
| "enc_json (JObj m) = ''{'' @ concat (map (\<lambda>e. ''k'' @ enc_text (fst e) @ enc_json (snd e)) m) @ ''}''"

definition split_semi :: "string \<Rightarrow> string \<times> string" where
  "split_semi s = (takeWhile (\<lambda>c. c \<noteq> CHR '';'') s, tl (dropWhile (\<lambda>c. c \<noteq> CHR '';'') s))"

definition dec_int :: "string \<Rightarrow> int \<times> string" where
  "dec_int s =
     (let (d, rest) = split_semi s
      in (case d of
            [] \<Rightarrow> 0
          | c # cs \<Rightarrow> if c = CHR ''-'' then - int (read_nat cs 0) else int (read_nat (c # cs) 0), rest))"

definition dec_text :: "string \<Rightarrow> string \<times> string" where
  "dec_text s = (let (d, rest) = split_semi s; n = read_nat d 0 in (take n rest, drop n rest))"

fun dec_json :: "nat \<Rightarrow> string \<Rightarrow> (json \<times> string) option"
  and dec_arr :: "nat \<Rightarrow> string \<Rightarrow> (json list \<times> string) option"
  and dec_obj :: "nat \<Rightarrow> string \<Rightarrow> ((string \<times> json) list \<times> string) option" where
  "dec_json 0 s = None"
| "dec_json (Suc n) s =
     (case s of
        [] \<Rightarrow> None
      | c # cs \<Rightarrow>
          if c = CHR ''n'' then Some (JNull, cs)
          else if c = CHR ''t'' then Some (JBool True, cs)
          else if c = CHR ''f'' then Some (JBool False, cs)
          else if c = CHR ''i'' then Some (map_prod JInt id (dec_int cs))
          else if c = CHR ''r'' then Some (JFloat 0, cs)
          else if c = CHR ''s'' then Some (map_prod JStr id (dec_text cs))
          else if c = CHR ''['' then map_option (map_prod JArr id) (dec_arr n cs)
          else if c = CHR ''{'' then map_option (map_prod JObj id) (dec_obj n cs)
          else None)"
| "dec_arr 0 s = None"
| "dec_arr (Suc n) s =
     (case s of
        [] \<Rightarrow> None
      | c # cs \<Rightarrow>
          if c = CHR '']'' then Some ([], cs)
          else Option.bind (dec_json n s) (\<lambda>(v, r).
               map_option (map_prod ((#) v) id) (dec_arr n r)))"
| "dec_obj 0 s = None"
| "dec_obj (Suc n) s =
     (case s of
        [] \<Rightarrow> None
      | c # cs \<Rightarrow>
          if c = CHR ''}'' then Some ([], cs)
          else let (k, r) = dec_text cs
               in Option.bind (dec_json n r) (\<lambda>(v, r').
                  map_option (map_prod ((#) (k, v)) id) (dec_obj n r')))"

lemma show_nat_no_semi: "CHR '';'' \<notin> set (show_nat n)"
proof
  assume "CHR '';'' \<in> set (show_nat n)"
  then obtain d where d: "d < 10" "CHR '';'' = digit_char d" using show_nat_digits by blast
  have "of_char (digit_char d) = (48 + d :: nat)" using d(1) by (simp add: digit_char_def)
  with d show False by (simp flip: d(2))
qed

lemma split_semi_append: "CHR '';'' \<notin> set d \<Longrightarrow> split_semi (d @ CHR '';'' # rest) = (d, rest)"
  by (auto simp: split_semi_def takeWhile_append2 dropWhile_append2 takeWhile_append dropWhile_append)

lemma dec_enc_text: "dec_text (enc_text s @ rest) = (s, rest)"
  by (simp add: dec_text_def enc_text_def split_semi_append show_nat_no_semi read_show_nat)

lemma show_nat_Cons: "\<exists>c cs. show_nat n = c # cs \<and> c \<noteq> CHR ''-''"
proof (cases "show_nat n")
  case Nil
  then show ?thesis by (subst (asm) show_nat.simps) (simp split: if_splits)
next
  case (Cons c cs)
  then show ?thesis using show_nat_no_minus [of n] by auto
qed

lemma dec_enc_int: "dec_int (enc_int i @ rest) = (i, rest)"
proof (cases "i < 0")
  case True
  then show ?thesis
    by (simp add: dec_int_def enc_int_def show_int_def split_semi_append [of "CHR ''-'' # d" for d, simplified]
        show_nat_no_semi read_show_nat)
next
  case False
  obtain c cs where "show_nat (nat i) = c # cs" "c \<noteq> CHR ''-''" using show_nat_Cons by blast
  then show ?thesis
    using False read_show_nat [of "nat i"] show_nat_no_semi [of "nat i"]
      split_semi_append [of "show_nat (nat i)" rest]
    by (simp add: dec_int_def enc_int_def show_int_def)
qed

lemma enc_json_Cons: "\<exists>c cs. enc_json v = c # cs \<and> c \<noteq> CHR '']''"
  by (cases v) auto

text \<open>The fuel that decoding a value takes.\<close>

fun fuel_json :: "json \<Rightarrow> nat" where
  "fuel_json (JArr vs) = Suc (Suc (sum_list (map (\<lambda>v. Suc (fuel_json v)) vs)))"
| "fuel_json (JObj m) = Suc (Suc (sum_list (map (\<lambda>e. Suc (fuel_json (snd e))) m)))"
| "fuel_json v = 1"

fun no_floats :: "json \<Rightarrow> bool" where
  "no_floats (JArr vs) \<longleftrightarrow> (\<forall>v \<in> set vs. no_floats v)"
| "no_floats (JObj m) \<longleftrightarrow> (\<forall>e \<in> set m. no_floats (snd e))"
| "no_floats (JFloat r) \<longleftrightarrow> False"
| "no_floats _ \<longleftrightarrow> True"

lemma dec_enc_arr:
  assumes "\<And>v n rest. v \<in> set vs \<Longrightarrow> fuel_json v \<le> n \<Longrightarrow> dec_json n (enc_json v @ rest) = Some (v, rest)"
    and "Suc (sum_list (map (\<lambda>v. Suc (fuel_json v)) vs)) \<le> n"
  shows "dec_arr n (concat (map enc_json vs) @ CHR '']'' # rest) = Some (vs, rest)"
  using assms
proof (induction vs arbitrary: n)
  case Nil
  then show ?case by (cases n) auto
next
  case (Cons v vs)
  then obtain n' where n: "n = Suc n'" by (cases n) auto
  obtain c cs where c: "enc_json v = c # cs" "c \<noteq> CHR '']''" using enc_json_Cons by blast
  have "dec_json n' (enc_json v @ concat (map enc_json vs) @ CHR '']'' # rest) =
      Some (v, concat (map enc_json vs) @ CHR '']'' # rest)"
    using Cons.prems n by (intro Cons.prems(1)) auto
  moreover have "dec_arr n' (concat (map enc_json vs) @ CHR '']'' # rest) = Some (vs, rest)"
    using Cons.prems n by (intro Cons.IH) auto
  ultimately show ?case using c by (simp add: n)
qed

lemma dec_enc_obj:
  assumes "\<And>e n rest. e \<in> set m \<Longrightarrow> fuel_json (snd e) \<le> n \<Longrightarrow>
      dec_json n (enc_json (snd e) @ rest) = Some (snd e, rest)"
    and "Suc (sum_list (map (\<lambda>e. Suc (fuel_json (snd e))) m)) \<le> n"
  shows "dec_obj n (concat (map (\<lambda>e. ''k'' @ enc_text (fst e) @ enc_json (snd e)) m) @ CHR ''}'' # rest) =
    Some (m, rest)"
  using assms
proof (induction m arbitrary: n)
  case Nil
  then show ?case by (cases n) auto
next
  case (Cons e m)
  then obtain n' where n: "n = Suc n'" by (cases n) auto
  let ?r = "concat (map (\<lambda>e. ''k'' @ enc_text (fst e) @ enc_json (snd e)) m) @ CHR ''}'' # rest"
  have "dec_json n' (enc_json (snd e) @ ?r) = Some (snd e, ?r)"
    using Cons.prems n by (intro Cons.prems(1)) auto
  moreover have "dec_obj n' ?r = Some (m, rest)"
    using Cons.prems n by (intro Cons.IH) auto
  ultimately show ?case by (simp add: n dec_enc_text)
qed

lemma dec_enc_json:
  "no_floats v \<Longrightarrow> fuel_json v \<le> n \<Longrightarrow> dec_json n (enc_json v @ rest) = Some (v, rest)"
proof (induction v arbitrary: n rest rule: no_floats.induct)
  case (1 vs)
  then obtain n' where n: "n = Suc n'" by (cases n) auto
  have "dec_arr n' (concat (map enc_json vs) @ CHR '']'' # rest) = Some (vs, rest)"
    using 1 n by (intro dec_enc_arr) auto
  then show ?case by (simp add: n)
next
  case (2 m)
  then obtain n' where n: "n = Suc n'" by (cases n) auto
  have "dec_obj n' (concat (map (\<lambda>e. ''k'' @ enc_text (fst e) @ enc_json (snd e)) m) @ CHR ''}'' # rest) =
      Some (m, rest)"
    using 2 n by (intro dec_enc_obj) auto
  then show ?case by (simp add: n)
qed (auto simp: gr0_conv_Suc Suc_le_eq dec_enc_int dec_enc_text)

lemma sum_fuel:
  "(\<And>x. x \<in> set xs \<Longrightarrow> Suc (f x) \<le> 2 * length (g x)) \<Longrightarrow>
   sum_list (map (\<lambda>x. Suc (f x)) xs) \<le> 2 * length (concat (map g xs))"
proof (induction xs)
  case (Cons x xs)
  then have "Suc (f x) \<le> 2 * length (g x)"
    and "sum_list (map (\<lambda>x. Suc (f x)) xs) \<le> 2 * length (concat (map g xs))" by auto
  then show ?case by simp
qed simp

lemma fuel_json_length: "Suc (fuel_json v) \<le> 2 * length (enc_json v)"
proof (induction v rule: no_floats.induct)
  case (1 vs)
  then have "sum_list (map (\<lambda>v. Suc (fuel_json v)) vs) \<le> 2 * length (concat (map enc_json vs))"
    by (rule sum_fuel)
  then show ?case by simp
next
  case (2 m)
  have "sum_list (map (\<lambda>e. Suc (fuel_json (snd e))) m) \<le>
      2 * length (concat (map (\<lambda>e. ''k'' @ enc_text (fst e) @ enc_json (snd e)) m))"
  proof (rule sum_fuel)
    fix e assume "e \<in> set m"
    then have "Suc (fuel_json (snd e)) \<le> 2 * length (enc_json (snd e))" by (rule 2)
    then show "Suc (fuel_json (snd e)) \<le> 2 * length (''k'' @ enc_text (fst e) @ enc_json (snd e))"
      by simp
  qed
  then show ?case by simp
qed (auto simp: enc_int_def enc_text_def)

definition ex_parse :: "string \<Rightarrow> json option" where
  "ex_parse s =
     (case dec_json (2 * length s) s of
        None \<Rightarrow> None
      | Some (v, rest) \<Rightarrow> if rest = [] \<or> rest = newline then Some (canonicalize v) else None)"

lemma ex_parse_text: "no_floats v \<Longrightarrow> ex_parse (enc_json v) = Some (canonicalize v)"
  using dec_enc_json [of v "2 * length (enc_json v)" "[]"] fuel_json_length [of v]
  by (simp add: ex_parse_def)

lemma float_free_no_floats: "float_free_depth d v \<Longrightarrow> no_floats v"
  by (induction d v rule: float_free_depth.induct) auto

lemma ex_parse_line: "no_floats v \<Longrightarrow> ex_parse (enc_json v @ newline) = Some (canonicalize v)"
  using dec_enc_json [of v "2 * length (enc_json v @ newline)" newline] fuel_json_length [of v]
  by (simp add: ex_parse_def)

section \<open>Digests, base64 and signatures\<close>

definition esc_char :: "char \<Rightarrow> string" where
  "esc_char c = (if c = CHR ''|'' then ''/0'' else if c = CHR ''/'' then ''/1'' else [c])"

definition ex_sha :: "string \<Rightarrow> string" where
  "ex_sha s = concat (map esc_char s)"

lemma ex_sha_inj: "ex_sha s = ex_sha t \<Longrightarrow> s = t"
proof (induction s arbitrary: t)
  case Nil
  then show ?case by (cases t) (auto simp: ex_sha_def esc_char_def split: if_splits)
next
  case (Cons c s)
  then show ?case by (cases t) (auto simp: ex_sha_def esc_char_def split: if_splits)
qed

lemma ex_sha_no_bar: "CHR ''|'' \<notin> set (ex_sha s)"
  by (auto simp: ex_sha_def esc_char_def split: if_splits)

definition hex_digit :: "nat \<Rightarrow> char" where
  "hex_digit n = (if n < 10 then char_of (48 + n) else char_of (87 + n))"

definition hex_val :: "char \<Rightarrow> nat" where
  "hex_val c = (if of_char c < (58 :: nat) then of_char c - 48 else of_char c - 87)"

definition hex_char :: "char \<Rightarrow> string" where
  "hex_char c = [hex_digit (of_char c div 16), hex_digit (of_char c mod 16)]"

definition ex_b64e :: "string \<Rightarrow> string" where
  "ex_b64e s = concat (map hex_char s)"

fun ex_b64d :: "string \<Rightarrow> string option" where
  "ex_b64d [] = Some []"
| "ex_b64d [c] = None"
| "ex_b64d (c # d # s) = map_option ((#) (char_of (16 * hex_val c + hex_val d))) (ex_b64d s)"

lemma hex_val_digit: "n < 16 \<Longrightarrow> hex_val (hex_digit n) = n"
  by (simp add: hex_val_def hex_digit_def)

lemma ex_b64_roundtrip: "ex_b64d (ex_b64e s) = Some s"
proof (induction s)
  case (Cons c s)
  have "of_char c div 16 < (16 :: nat)"
    by (rule less_mult_imp_div_less) (use nat_of_char_less_256 [of c] in linarith)
  with Cons show ?case
    by (simp add: ex_b64e_def hex_char_def hex_val_digit)
qed (simp add: ex_b64e_def)

definition ex_sign :: "string \<Rightarrow> string \<Rightarrow> string" where
  "ex_sign seed bytes = take 64 (ex_b64e (rev bytes) @ seed @ replicate 64 (CHR ''0''))"

definition sample_externs :: externs where
  "sample_externs =
     \<lparr>x_sha = ex_sha, x_text = enc_json, x_pretty = enc_json, x_parse = ex_parse, x_json_error = (\<lambda>_. ''not JSON''),
      x_conversion_error = (\<lambda>_ w. ''unknown segment word'' @ w),
      x_b64d = ex_b64d, x_b64e = ex_b64e, x_point = (\<lambda>k. length k = 32),
      x_verify = (\<lambda>key bytes sig. sig = ex_sign key bytes), x_public = (\<lambda>seed. seed),
      x_sign = ex_sign\<rparr>"

lemma brace_chars:
  "\<not> is_continuation (CHR ''}'')" "\<not> is_whitespace [CHR ''}'']" "\<not> is_whitespace (CHR ''{'' # xs)"
  "\<not> is_continuation (char_of (10 :: nat))" "is_whitespace [char_of (10 :: nat)]"
  by (simp_all add: is_continuation_def is_whitespace_def whitespace_scalars_def byte_string_def
      upt_rec char_of_def)

lemma sample_struct_roundtrips: "struct_roundtrips sample_externs"
proof -
  have "trim (enc_json (JObj m) @ newline) = enc_json (JObj m)" for m
    using trim_framed [OF brace_chars(1,2,3,4,5)] by (simp add: newline_def)
  moreover have "struct_printable v \<Longrightarrow> ex_parse (enc_json v) = Some (canonicalize v)" for v
    by (auto simp: struct_printable_def intro: ex_parse_text float_free_no_floats)
  ultimately show ?thesis by (simp add: struct_roundtrips_def sample_externs_def)
qed

lemma sample_text_roundtrips: "text_roundtrips sample_externs"
  by (rule struct_text_roundtrips [OF sample_struct_roundtrips])

lemma sample_pretty_roundtrips: "pretty_roundtrips sample_externs"
  by (auto simp: pretty_roundtrips_def sample_externs_def struct_printable_def
      intro: ex_parse_line float_free_no_floats)

lemmas sample_simps = sample_externs_def ex_sha_def ex_sign_def

end
