(* ===== verification/Audit_Properties.thy ===== *)
theory Audit_Properties
  imports Audit_Index Sample_Externs
begin

text \<open>
  The properties of the audit layer, each with a concrete application where it has hypotheses.
  The lemmas they rest on are in the component theories.
\<close>

section \<open>Histories of a store\<close>

definition history_of :: "externs \<Rightarrow> store_op list \<Rightarrow> audit_db \<Rightarrow> audit_db" where
  "history_of X ops db = foldl (\<lambda>db op. apply_op X op db) db ops"

lemma history_of_run: "history_of X ops db = store.run X ops db"
  by (simp add: history_of_def store.run_def)

lemma sound_history: "sound X (history_of X ops (new_file faults))"
  by (simp add: history_of_run store.inv_run sound_new_file)

lemma verify_store_sound: "sound X db \<Longrightarrow> verify_store X db = Intact (length (db_events db))"
  by (simp add: verify_store_def scan_def verify_chain_Intact sound_def)

text \<open>
  C1. Whatever sequence of operations a store goes through from an empty file - opens, appends,
  segment openings, closings, adoptions and merges, index writes and rebuilds, under every
  schedule of busy, locked and failing statements - the chain verifies as intact at its full
  length, its ids strictly increase, and every later state of the log has the earlier one as a
  prefix: no row is ever changed or removed.
\<close>

theorem chain_survives_every_history:
  "let db = history_of X ops (new_file faults); db' = history_of X ops' db
   in verify_store X db = Intact (length (db_events db)) \<and>
      sorted_wrt (<) (map row_id (db_events db)) \<and>
      (\<exists>new. db_events db' = db_events db @ new)"
proof -
  have s: "sound X (history_of X ops (new_file faults))" by (rule sound_history)
  moreover have "extends (history_of X ops (new_file faults))
      (history_of X ops' (history_of X ops (new_file faults)))"
    using store.moves_run [OF s] by (simp add: history_of_run)
  ultimately show ?thesis
    by (simp add: Let_def verify_store_sound) (simp add: sound_def extends_def)
qed

section \<open>Verification\<close>

text \<open>
  C32. The verifier's verdict is exact: it reports \<open>Intact\<close> precisely for a list of rows in which
  every row carries its predecessor's hash (the first one the genesis hash) and its own
  recomputed one, and otherwise \<open>Broken\<close> at the first row of which this fails, after an intact
  prefix.
\<close>

theorem verify_chain_exact:
  "case verify_chain X rows of
     Intact n \<Rightarrow> chained X GENESIS_PREV_HASH rows \<and> n = length rows
   | Broken at_id reason \<Rightarrow>
       \<exists>pre row post. rows = pre @ row # post \<and> chained X GENESIS_PREV_HASH pre \<and>
         row_id row = at_id \<and>
         \<not> (row_prev_hash row = head_of GENESIS_PREV_HASH pre \<and> row_hash row = recomputed X row)"
proof (cases "verify_chain X rows")
  case (Intact n)
  from Intact have "chained X GENESIS_PREV_HASH rows \<and> n = length rows"
    by (simp only: verify_chain_Intact)
  then show ?thesis unfolding Intact by simp
next
  case (Broken at_id reason)
  then have "verify_rows X GENESIS_PREV_HASH rows = Some (at_id, reason)"
    by (auto simp: verify_chain_def split: option.splits)
  from verify_rows_Some [OF this] Broken show ?thesis by auto
qed



definition sample_event :: "string \<Rightarrow> string \<Rightarrow> audit_event" where
  "sample_event actor act = audit_event_new 1700000000000 actor act (json_obj [(''k'', JInt 1)])"






text \<open>
  C40. The separator of the hash formula is not escaped: moving the text between two separators
  from the actor to the action of a row leaves every hash of the log as it was, so the verifier
  cannot see that edit.
\<close>

theorem separator_moves_unseen:
  "verify_chain X (pre @ row\<lparr>row_actor := a @ ''|'' @ b, row_action := c\<rparr> # post) =
   verify_chain X (pre @ row\<lparr>row_actor := a, row_action := b @ ''|'' @ c\<rparr> # post)"
proof -
  let ?r = "row\<lparr>row_actor := a @ ''|'' @ b, row_action := c\<rparr>"
  let ?s = "row\<lparr>row_actor := a, row_action := b @ ''|'' @ c\<rparr>"
  have eq: "recomputed X ?r = recomputed X ?s"
    by (simp add: recomputed_def row_event_def compute_hash_def hash_input_def)
  have "verify_rows X p (pre @ ?r # post) = verify_rows X p (pre @ ?s # post)" for p
    using eq by (induction pre arbitrary: p) simp_all
  moreover have "length (pre @ ?r # post) = length (pre @ ?s # post)" by simp
  ultimately show ?thesis unfolding verify_chain_def by presburger
qed

section \<open>Appending under contention\<close>

text \<open>
  An append rides out a locked database: as long as fewer statements than the attempt budget
  are answered with a lock error, the event is appended - with the next id, the current head as
  its predecessor and the hash of the formula - and nothing else in the file changes.
\<close>

theorem append_rides_out_locks:
  assumes "db_faults db = map Some locks @ fs" "\<forall>e \<in> set locks. lock_fault e"
    "length locks < APPEND_MAX_ATTEMPTS" "fs = [] \<or> hd fs = None" "next_append_ok X ev db"
  shows "\<exists>s db'. append_event X ev db = (Inr s, db') \<and>
    db_events db' = db_events db @ [row_of (db_next_id db) ev (x_text X (ev_detail ev))
      (head_of GENESIS_PREV_HASH (db_events db))
      (compute_hash X (head_of GENESIS_PREV_HASH (db_events db)) ev (x_text X (ev_detail ev)))] \<and>
    db_segments db' = db_segments db \<and> db_runs db' = db_runs db"
proof -
  obtain s db' where ap: "append_event X ev db = (Inr s, db')" "appended X ev db s db'"
    using append_event_within_budget [OF assms] by blast
  from appended_events [OF ap(2)] show ?thesis
    by (intro exI [of _ s] exI [of _ db']) (simp add: ap(1))
qed

definition busy :: sqlite_error where
  "busy = DatabaseBusy ''database is locked''"

theorem append_rides_out_locks_witness:
  "\<exists>s db'. append_event sample_externs (sample_event ''host'' ''vm.start'')
       (new_file [Some busy, Some busy, None]) = (Inr s, db')"
  using append_rides_out_locks [of "new_file [Some busy, Some busy, None]" "[busy, busy]" "[None]"
      sample_externs "sample_event ''host'' ''vm.start''"]
  by (auto simp: new_file_def lock_fault_def busy_def APPEND_MAX_ATTEMPTS_def next_append_ok_def
      i64_max_def)

text \<open>
  A lock that outlasts the budget, or any other failure, is reported and leaves no trace: an
  append that returns an error leaves the log, its next id and the derived tables as they were.
  Five lock answers in a row are such an error, and it is the last of them.
\<close>

theorem failed_append_leaves_no_trace:
  "(\<forall>e db'. append_event X ev db = (Inl e, db') \<longrightarrow>
      db_events db' = db_events db \<and> db_next_id db' = db_next_id db \<and>
      db_segments db' = db_segments db \<and> db_runs db' = db_runs db) \<and>
   (\<forall>locks fs. db_faults db = map Some locks @ fs \<and> (\<forall>e \<in> set locks. lock_fault e) \<and>
      length locks = APPEND_MAX_ATTEMPTS \<longrightarrow>
      fst (append_event X ev db) = Inl (Sqlite (last locks)))"
  using same_but_faults_fields [OF append_event_Inl] append_event_exhausted by fastforce

theorem failed_append_leaves_no_trace_witness:
  "fst (append_event sample_externs (sample_event ''host'' ''vm.start'')
     (new_file (replicate 5 (Some busy)))) = Inl (Sqlite busy)"
proof -
  let ?db = "new_file (replicate 5 (Some busy))"
  have "db_faults ?db = map Some (replicate 5 busy) @ [] \<and>
      (\<forall>e \<in> set (replicate 5 busy). lock_fault e) \<and> length (replicate 5 busy) = APPEND_MAX_ATTEMPTS"
    by (simp add: new_file_def APPEND_MAX_ATTEMPTS_def lock_fault_def busy_def)
  with failed_append_leaves_no_trace [THEN conjunct2, rule_format, of ?db "replicate 5 busy" "[]"
      sample_externs "sample_event ''host'' ''vm.start''"]
  show ?thesis by simp
qed

section \<open>Merging a segment\<close>

text \<open>
  C5. A merge that answers \<open>Folded n\<close> appended exactly the segment's \<open>n\<close> events, in order, with
  their time, actor, action and agent, and their detail less the provisional mark, then one
  \<open>segment_merged\<close> event; no event of the segment was on the chain before; and the row is
  \<open>folded\<close> with the new head of the chain.
\<close>

theorem merge_folds_by_transcription:
  assumes "merge_segment X opened sid t t' db = (Inr (Folded n), db')" "parseable X db"
  shows "\<exists>es rows marker s.
    bind_result opened (all_events X) = Inr es \<and> n = length es \<and>
    (\<forall>e \<in> set es. \<forall>r \<in> set (db_events db). \<not> clash X e r) \<and>
    db_events db' = db_events db @ rows @ [marker] \<and>
    list_all2 (\<lambda>e r. same_content (outgoing e) r X) es rows \<and>
    row_action marker = ACTION_SEGMENT_MERGED \<and>
    segment_lookup X sid db' = Inr (Some s) \<and> seg_state s = Seg_Folded \<and>
    seg_head_hash s = Some (row_hash marker)"
  using assms(1)
proof (cases rule: merge_segment_cases)
  case (folded s es db1)
  let ?p = "head_of GENESIS_PREV_HASH (db_events db)" and ?i = "db_next_id db"
  let ?m = "merged_marker sid (seg_kind s) t t' (length es)"
  obtain marker where m: "chain_rows X ?p ?i (map outgoing es @ [?m]) =
      chain_rows X ?p ?i (map outgoing es) @ [marker]" "same_content ?m marker X"
    using chain_rows_snoc by blast
  have ev: "db_events db' = db_events db @ chain_rows X ?p ?i (map outgoing es) @ [marker]"
    using folded(5,6) m by (simp add: appended_all_def)
  have "list_all2 (\<lambda>e r. same_content (outgoing e) r X) es (chain_rows X ?p ?i (map outgoing es))"
    using chain_rows_content [of X "map outgoing es" ?p ?i] by (simp add: list_all2_map1)
  moreover obtain s' where "segment_lookup X sid db' = Inr (Some s')" "seg_state s' = Seg_Folded"
      "seg_head_hash s' = last_hash db'"
    using merge_segment_row [OF assms(1)] by auto
  moreover have "last_hash db' = Some (row_hash marker)" using ev by (simp add: last_hash_def)
  moreover have "row_action marker = ACTION_SEGMENT_MERGED"
    using m(2) by (simp add: same_content_def merged_marker_def audit_event_new_def)
  moreover have "n = length es" using folded(4) by simp
  ultimately show ?thesis
    using ev folded(2,3) find_conflict_None [OF assms(2), of es]
    by (intro exI [of _ es] exI [of _ "chain_rows X ?p ?i (map outgoing es)"] exI [of _ marker]
        exI [of _ s']) simp
qed simp

definition sample_segment :: segment where
  "sample_segment =
     \<lparr>seg_id = ''seg-a'', seg_kind = Temporary, seg_head_hash = None, seg_head_prev_chain = None,
      seg_head_prev_length = None, seg_opened_at_ms = None, seg_closed_at_ms = None,
      seg_state = Seg_Closed, seg_note = Some ''adopted from another node''\<rparr>"

text \<open>A centre that adopted \<open>seg-a\<close>, and that segment's own file with the given events.\<close>

definition sample_centre :: "audit_event list \<Rightarrow> sqlite_error option list \<Rightarrow> audit_db" where
  "sample_centre evs faults =
     (new_file faults)\<lparr>db_segments := [segment_to_row sample_segment],
        db_events := chain_rows sample_externs GENESIS_PREV_HASH 1 evs,
        db_next_id := 1 + int (length evs)\<rparr>"

definition sample_file :: "audit_event list \<Rightarrow> audit_db" where
  "sample_file evs =
     (new_file [])\<lparr>db_events := chain_rows sample_externs GENESIS_PREV_HASH 1 evs,
        db_next_id := 1 + int (length evs)\<rparr>"

definition provisional_event :: "string \<Rightarrow> audit_event" where
  "provisional_event actor =
     audit_event_new 5 actor ''act'' (json_obj [(''k'', JInt 1), (PROVISIONAL, JBool True)])"

lemma sample_centre_parseable:
  "\<forall>ev \<in> set evs. printable (ev_detail ev) \<Longrightarrow> parseable sample_externs (sample_centre evs faults)"
  using chain_rows_parseable [OF sample_text_roundtrips]
  by (simp add: parseable_def sample_centre_def)

lemma provisional_printable: "printable (ev_detail (provisional_event actor))"
  by (simp add: provisional_event_def audit_event_new_def printable_def PROVISIONAL_def json_obj_def
      obj_insert_all_def ordered_def i64_min_def)

lemma pair_eq_fst: "fst p = x \<Longrightarrow> p = (x, snd p)"
  by (cases p) simp

theorem merge_folds_by_transcription_witness:
  "\<exists>rows marker. length rows = 1 \<and> db_events (snd (merge_segment sample_externs
       (Inr (sample_file [provisional_event ''b''])) ''seg-a'' 9 9
       (sample_centre [provisional_event ''a''] []))) =
     db_events (sample_centre [provisional_event ''a''] []) @ rows @ [marker] \<and>
     row_action marker = ACTION_SEGMENT_MERGED"
proof -
  have "fst (merge_segment sample_externs (Inr (sample_file [provisional_event ''b''])) ''seg-a'' 9 9
      (sample_centre [provisional_event ''a''] [])) = Inr (Folded 1)"
    by code_simp
  from merge_folds_by_transcription [OF pair_eq_fst [OF this] sample_centre_parseable]
  show ?thesis by (fastforce simp: provisional_printable dest: list_all2_lengthD)
qed

text \<open>
  A merge that answers \<open>Forked reason\<close> transcribed nothing: exactly one \<open>segment_forked\<close> event
  was appended, the reason names a row of the chain that already records one of the segment's
  acts (same actor, action and cleared detail), and the row is \<open>forked\<close> with that reason.
\<close>

theorem merge_forks_on_conflict:
  assumes "merge_segment X opened sid t t' db = (Inr (Forked reason), db')" "parseable X db"
  shows "\<exists>es e r marker s.
    bind_result opened (all_events X) = Inr es \<and> e \<in> set es \<and> r \<in> set (db_events db) \<and>
    clash X e r \<and> reason = fork_reason (row_actor r) (row_action r) (row_id r) \<and>
    db_events db' = db_events db @ [marker] \<and> row_action marker = ACTION_SEGMENT_FORKED \<and>
    segment_lookup X sid db' = Inr (Some s) \<and> seg_state s = Seg_Forked \<and> seg_note s = Some reason"
  using assms(1)
proof (cases rule: merge_segment_cases)
  case (forked s es actor act i db1)
  let ?m = "forked_marker sid (seg_kind s) t t' (fork_reason actor act i) i"
  obtain marker where "db_events db1 = db_events db @ [marker]" "same_content ?m marker X"
    using chain_rows_snoc [of X _ _ "[]" ?m] forked(5) by (auto simp: appended_all_def)
  moreover obtain s' where "segment_lookup X sid db' = Inr (Some s')" "seg_state s' = Seg_Forked"
      "seg_note s' = Some reason"
    using merge_segment_row [OF assms(1)] by auto
  moreover obtain e r where "e \<in> set es" "r \<in> set (db_events db)" "clash X e r" "row_id r = i"
      "actor = row_actor r" "act = row_action r"
    using find_conflict_Some [OF assms(2) forked(3)] by blast
  ultimately show ?thesis
    using forked(2,4,6)
    by (intro exI [of _ es] exI [of _ e] exI [of _ r] exI [of _ marker] exI [of _ s'])
      (simp add: same_content_def forked_marker_def audit_event_new_def)
qed simp

theorem merge_forks_on_conflict_witness:
  "\<exists>marker. db_events (snd (merge_segment sample_externs
       (Inr (sample_file [provisional_event ''b''])) ''seg-a'' 9 9
       (sample_centre [outgoing \<lparr>se_id = 1, se_event = provisional_event ''b'', se_prev_hash = [],
          se_hash = []\<rparr>] []))) =
     db_events (sample_centre [outgoing \<lparr>se_id = 1, se_event = provisional_event ''b'',
       se_prev_hash = [], se_hash = []\<rparr>] []) @ [marker] \<and> row_action marker = ACTION_SEGMENT_FORKED"
proof -
  let ?ev = "outgoing \<lparr>se_id = 1, se_event = provisional_event ''b'', se_prev_hash = [], se_hash = []\<rparr>"
  have "fst (merge_segment sample_externs (Inr (sample_file [provisional_event ''b''])) ''seg-a'' 9 9
      (sample_centre [?ev] [])) = Inr (Forked (fork_reason ''b'' ''act'' 1))"
    by code_simp
  moreover have "\<forall>ev \<in> set [?ev]. printable (ev_detail ev)"
    by (simp add: outgoing_def printable_cleared provisional_printable)
  ultimately show ?thesis
    using merge_forks_on_conflict [OF pair_eq_fst sample_centre_parseable] by blast
qed

lemma merged_already_marker:
  assumes "r \<in> set rs" "row_action r = ACTION_SEGMENT_MERGED"
    "x_parse X (row_detail_json r) = Some d" "text_member d ''segment_id'' = Some sid"
  shows "merged_already_rows X sid rs \<noteq> Inr False"
  using assms(1)
  by (induction rs) (auto simp: assms(2-) parse_detail_def bind_result_def split: sum.split)

lemma merge_refused_by_marker:
  assumes "merged_already X sid db \<noteq> Inr False"
  shows "\<exists>e. merge_segment X opened sid t t' db = (Inl e, db)"
proof (cases "mergeable X sid db")
  case (Inl e)
  then show ?thesis by (simp add: merge_segment_def)
next
  case (Inr s)
  with mergeable_Inr [OF this] assms show ?thesis by simp
qed

lemma merged_detail_printable:
  "is_i64 t \<Longrightarrow> n < 2 ^ 64 \<Longrightarrow> printable (segment_merged_detail sid kind t n)"
  using wf_json_obj [of "[(''segment_id'', JStr sid), (''kind'', JStr (segment_kind_as_str kind)),
      (''merged_at_ms'', JInt t), (''event_count'', JInt (int n))]"]
    set_obj_insert_all [of "[(''segment_id'', JStr sid), (''kind'', JStr (segment_kind_as_str kind)),
      (''merged_at_ms'', JInt t), (''event_count'', JInt (int n))]"]
  by (fastforce simp: printable_def segment_merged_detail_def json_obj_def i64_bounds)

text \<open>
  C27. A segment is merged at most once. After a merge of \<open>sid\<close> succeeded, every later attempt to
  merge it is refused and changes nothing, whatever happened to the store in between - also
  when its row was reset by closing the segment again, and also from a copy of the file in
  which more events were written.
\<close>

theorem merged_at_most_once:
  assumes "text_roundtrips X" "is_i64 t" "n < 2 ^ 64"
    and "merge_segment X opened sid t t' db = (Inr (Folded n), db')" "sound X db"
  shows "\<exists>e. merge_segment X opened' sid u u' (history_of X ops db') = (Inl e, history_of X ops db')"
  using assms(4)
proof (cases rule: merge_segment_cases)
  case (folded s es db1)
  let ?m = "merged_marker sid (seg_kind s) t t' (length es)"
  obtain marker where m: "marker \<in> set (db_events db')" "same_content ?m marker X"
    using chain_rows_snoc [of X "head_of GENESIS_PREV_HASH (db_events db)" "db_next_id db"
        "map outgoing es" ?m] folded(5,6)
    by (simp add: appended_all_def) (metis in_set_conv_decomp append_assoc)
  have "sound X db'" using grows_merge_segment [of X db opened sid t t'] assms by (simp add: grows_def)
  then have "extends db' (history_of X ops db')" by (simp add: history_of_run store.moves_run)
  with m(1) have "marker \<in> set (scan (history_of X ops db'))" by (auto simp: extends_def scan_def)
  moreover have "row_detail_json marker = x_text X (segment_merged_detail sid (seg_kind s) t n)"
    "row_action marker = ACTION_SEGMENT_MERGED"
    using m(2) folded(4) by (simp_all add: same_content_def merged_marker_def audit_event_new_def)
  moreover have "printable (segment_merged_detail sid (seg_kind s) t n)"
    using assms(2,3) by (rule merged_detail_printable)
  ultimately have "merged_already X sid (history_of X ops db') \<noteq> Inr False"
    using assms(1) unfolding merged_already_def
    by (intro merged_already_marker) (auto simp: text_roundtrips_def text_member_def)
  then show ?thesis by (rule merge_refused_by_marker)
qed simp

theorem merged_at_most_once_witness:
  "\<exists>e. fst (merge_segment sample_externs (Inr (sample_file [provisional_event ''c''])) ''seg-a'' 8 8
     (history_of sample_externs [OpCloseSegment ''seg-a'' 7 7]
       (snd (merge_segment sample_externs (Inr (sample_file [provisional_event ''b''])) ''seg-a'' 9 9
         (sample_centre [provisional_event ''a''] []))))) = Inl e"
proof -
  have "fst (merge_segment sample_externs (Inr (sample_file [provisional_event ''b''])) ''seg-a'' 9 9
      (sample_centre [provisional_event ''a''] [])) = Inr (Folded 1)"
    by code_simp
  moreover have "sound sample_externs (sample_centre [provisional_event ''a''] [])"
    by (simp add: sound_def sample_centre_def recomputed_row_of Let_def)
  moreover have "is_i64 9" "(1 :: nat) < 2 ^ 64" by (simp_all add: i64_bounds)
  ultimately obtain e where "merge_segment sample_externs
      (Inr (sample_file [provisional_event ''c''])) ''seg-a'' 8 8
      (history_of sample_externs [OpCloseSegment ''seg-a'' 7 7]
       (snd (merge_segment sample_externs (Inr (sample_file [provisional_event ''b''])) ''seg-a'' 9 9
         (sample_centre [provisional_event ''a''] [])))) = (Inl e, history_of sample_externs
      [OpCloseSegment ''seg-a'' 7 7] (snd (merge_segment sample_externs
         (Inr (sample_file [provisional_event ''b''])) ''seg-a'' 9 9
         (sample_centre [provisional_event ''a''] []))))"
    using merged_at_most_once [OF sample_text_roundtrips _ _ pair_eq_fst] by blast
  then show ?thesis by simp
qed

lemma merge_segment_interrupted:
  assumes "mergeable X sid db = Inr s" "bind_result opened (all_events X) = Inr es"
    "find_conflict X db es = Inr None" "transcribe X sid (length es) es 0 db = (Inr k, db1)"
    "append_event X (merged_marker sid (seg_kind s) t t' k) db1 = (Inl e, db2)"
  shows "merge_segment X opened sid t t' db = (Inl e, db2)"
  using assms by (simp add: merge_segment_def merged_marker_def)

lemma mergeable_later:
  assumes "mergeable X sid db = Inr s" "db_segments db2 = db_segments db"
    "merged_already X sid db2 = Inr False"
  shows "mergeable X sid db2 = Inr s"
proof -
  have "segment_lookup X sid db2 = segment_lookup X sid db"
    using assms(2) by (simp add: segment_lookup_def)
  moreover have "merged_already X sid db2 = merged_already X sid db"
    using mergeable_Inr [OF assms(1)] assms(3) by simp
  ultimately have "mergeable X sid db2 = mergeable X sid db"
    unfolding mergeable_def by (simp only:)
  with assms(1) show ?thesis by simp
qed

lemma transcribed_not_marker:
  "\<forall>ev \<in> set evs. ev_action ev \<noteq> ACTION_SEGMENT_MERGED \<Longrightarrow>
   merged_already_rows X sid (chain_rows X p i evs) = Inr False"
  by (induction evs arbitrary: p i) (simp_all add: Let_def)

lemma mergeable_after_transcription:
  assumes "mergeable X sid db = Inr s" "appended_all X (map outgoing es) db db1"
    "\<forall>e \<in> set es. ev_action (se_event e) \<noteq> ACTION_SEGMENT_MERGED"
    "db_events db2 = db_events db1" "db_segments db2 = db_segments db"
  shows "mergeable X sid db2 = Inr s"
proof -
  have no: "merged_already_rows X sid (db_events db) = Inr False"
    using mergeable_Inr [OF assms(1)] by (simp add: merged_already_def scan_def)
  have "\<forall>ev \<in> set (map outgoing es). ev_action ev \<noteq> ACTION_SEGMENT_MERGED"
    using assms(3) by (simp add: outgoing_def)
  note none = transcribed_not_marker [OF this]
  have rows: "db_events db2 = db_events db @
      chain_rows X (head_of GENESIS_PREV_HASH (db_events db)) (db_next_id db) (map outgoing es)"
    using assms(2,4) by (simp add: appended_all_def)
  have "merged_already X sid db2 = Inr False"
    by (simp only: merged_already_def scan_def rows merged_already_rows_append [OF no] none)
  with assms(1,5) show ?thesis by (rule mergeable_later)
qed

lemma conflict_after_transcription:
  assumes "text_roundtrips X" "parseable X db" "appended_all X (map outgoing es) db db1"
    "\<forall>e \<in> set es. printable (ev_detail (se_event e))" "es \<noteq> []" "db_events db2 = db_events db1"
  shows "\<exists>actor act i. find_conflict X db2 es = Inr (Some (actor, act, i))"
proof -
  have hd: "hd es \<in> set es" using assms(5) by simp
  note cl = transcribed_clash [OF assms(1-4) hd]
  have par: "parseable X db2" using cl(1) assms(6) by (simp add: parseable_def)
  have "find_conflict X db2 es \<noteq> Inr None"
    unfolding find_conflict_None [OF par] using cl(2) hd assms(6) by auto
  moreover obtain hit where "find_conflict X db2 es = Inr hit"
    using find_conflict_total [OF par] by blast
  ultimately show ?thesis by (cases hit) auto
qed

lemma merge_with_conflict:
  assumes "mergeable X sid db = Inr s" "bind_result opened (all_events X) = Inr es"
    "find_conflict X db es = Inr (Some (actor, act, i))"
    "merge_segment X opened sid t t' db = (Inr out, db')"
  shows "out = Forked (fork_reason actor act i)"
  using assms(4)
proof (cases rule: merge_segment_cases)
  case (folded s' es' db1)
  with assms(2,3) have False by simp
  then show ?thesis ..
next
  case (forked s' es' actor' act' i' db1)
  from forked(2) assms(2) have "es' = es" by simp
  with forked(3) assms(3) have "actor' = actor" "act' = act" "i' = i" by simp_all
  with forked(4) show ?thesis by simp
qed

text \<open>
  C39. A merge that fails on its very last append - every event of the segment transcribed, the
  \<open>segment_merged\<close> event refused - leaves no note of it, so the next attempt takes the events it
  transcribed itself for a conflict and forks the segment: the guard that is there to stop a
  half-done merge from being called a fork does not see this one.
\<close>

theorem interrupted_merge_is_called_a_fork:
  assumes "text_roundtrips X" "parseable X db"
    and "mergeable X sid db = Inr s" "bind_result opened (all_events X) = Inr es" "es \<noteq> []"
    and "\<forall>e \<in> set es. printable (ev_detail (se_event e)) \<and> ev_action (se_event e) \<noteq> ACTION_SEGMENT_MERGED"
    and "find_conflict X db es = Inr None" "transcribe X sid (length es) es 0 db = (Inr k, db1)"
    and "append_event X (merged_marker sid (seg_kind s) t t' k) db1 = (Inl err, db2)"
  shows "merge_segment X opened sid t t' db = (Inl err, db2) \<and> mergeable X sid db2 = Inr s \<and>
    (\<exists>actor act i. find_conflict X db2 es = Inr (Some (actor, act, i)) \<and>
      (\<forall>out db3. merge_segment X opened sid u u' db2 = (Inr out, db3) \<longrightarrow>
         out = Forked (fork_reason actor act i)))"
proof -
  have app: "appended_all X (map outgoing es) db db1" using transcribe_Inr [OF assms(8)] by simp
  have same: "db_events db2 = db_events db1" "db_segments db2 = db_segments db"
    using same_but_faults_fields [OF append_event_Inl [OF assms(9)]] app
    by (simp_all add: appended_all_def)
  have m2: "mergeable X sid db2 = Inr s"
    using mergeable_after_transcription [OF assms(3) app _ same] assms(6) by blast
  obtain actor act i where conf: "find_conflict X db2 es = Inr (Some (actor, act, i))"
    using conflict_after_transcription [OF assms(1,2) app _ assms(5) same(1)] assms(6) by blast
  from merge_segment_interrupted [OF assms(3,4,7,8,9)] m2 conf
    merge_with_conflict [OF m2 assms(4) conf]
  show ?thesis by blast
qed

definition cut_centre :: audit_db where
  "cut_centre = sample_centre [provisional_event ''a''] (None # replicate 5 (Some busy))"

definition cut_events :: "stored_event list" where
  "cut_events = map (decoded sample_externs) (db_events (sample_file [provisional_event ''b'']))"

definition cut_merge :: "audit_db \<Rightarrow> (audit_error + merge_outcome) \<times> audit_db" where
  "cut_merge = merge_segment sample_externs (Inr (sample_file [provisional_event ''b''])) ''seg-a'' 9 9"

theorem interrupted_merge_is_called_a_fork_witness:
  "fst (cut_merge cut_centre) = Inl (Sqlite busy) \<and>
   (\<exists>reason. fst (cut_merge (snd (cut_merge cut_centre))) = Inr (Forked reason))"
proof -
  let ?X = "sample_externs" and ?f = "sample_file [provisional_event ''b'']"
  let ?tr = "transcribe ?X ''seg-a'' 1 cut_events 0 cut_centre"
  let ?ap = "append_event ?X (merged_marker ''seg-a'' Temporary 9 9 1) (snd ?tr)"
  have m: "mergeable ?X ''seg-a'' cut_centre = Inr sample_segment" by code_simp
  have es: "bind_result (Inr ?f) (all_events ?X) = Inr cut_events" by code_simp
  have ne: "cut_events \<noteq> []" by (simp add: cut_events_def sample_file_def Let_def)
  have d: "map (\<lambda>e. ev_detail (se_event e)) cut_events = [ev_detail (provisional_event ''b'')]"
    and a: "map (\<lambda>e. ev_action (se_event e)) cut_events = [''act'']"
    by code_simp+
  have ok: "\<forall>e \<in> set cut_events. printable (ev_detail (se_event e)) \<and>
      ev_action (se_event e) \<noteq> ACTION_SEGMENT_MERGED"
  proof -
    from d obtain z where z: "cut_events = [z]" by (cases cut_events) auto
    with d a provisional_printable [of "''b''"] show ?thesis
      unfolding z by (simp add: ACTION_SEGMENT_MERGED_def)
  qed
  have fc: "find_conflict ?X cut_centre cut_events = Inr None" by code_simp
  have "length cut_events = 1" by (simp add: cut_events_def sample_file_def Let_def)
  moreover have "fst ?tr = Inr 1" by code_simp
  ultimately have tr: "transcribe ?X ''seg-a'' (length cut_events) cut_events 0 cut_centre = (Inr 1, snd ?tr)"
    by (simp add: pair_eq_fst)
  have "fst ?ap = Inl (Sqlite busy)" by code_simp
  then have ap: "append_event ?X (merged_marker ''seg-a'' (seg_kind sample_segment) 9 9 1) (snd ?tr) =
      (Inl (Sqlite busy), snd ?ap)"
    by (simp add: pair_eq_fst sample_segment_def)
  have par: "parseable ?X cut_centre"
    unfolding cut_centre_def using provisional_printable by (intro sample_centre_parseable) simp
  note cut = interrupted_merge_is_called_a_fork [OF sample_text_roundtrips par m es ne ok fc tr ap,
      of 9 9, folded cut_merge_def]
  then have first: "cut_merge cut_centre = (Inl (Sqlite busy), snd ?ap)" by (rule conjunct1)
  have "\<not> isl (fst (cut_merge (snd (cut_merge cut_centre))))" by code_simp
  then obtain out db3 where "cut_merge (snd ?ap) = (Inr out, db3)"
    unfolding first by (metis isl_def prod.collapse snd_conv sum.collapse(2) sum.disc(1))
  with cut first show ?thesis by fastforce
qed

section \<open>Records of a run\<close>

text \<open>
  The file of a run-scoped export stands on its own: for a store written through appends,
  the exported events are the chain from its first event up to the requested id, nothing left
  out, and a reader who has only the lines recomputes every hash from their members, starting
  at the genesis hash.
\<close>

theorem export_stands_alone:
  assumes "text_roundtrips X" "sound X db" "readable X db"
  shows "\<exists>es. exported_events X to_id db = Inr es \<and> lines_chained X GENESIS_PREV_HASH es \<and>
    map se_id es = filter (\<lambda>i. i \<le> to_id) (map row_id (db_events db))"
proof -
  let ?rs = "takeWhile (\<lambda>r. row_id r \<le> to_id) (db_events db)"
  have "db_events db = ?rs @ dropWhile (\<lambda>r. row_id r \<le> to_id) (db_events db)" by simp
  then have "chained X GENESIS_PREV_HASH ?rs"
    using assms(2) chained_prefix unfolding sound_def by metis
  moreover have "\<forall>r \<in> set ?rs. \<exists>v. printable v \<and> row_detail_json r = x_text X v"
    using assms(3) by (auto simp: readable_def dest: set_takeWhileD)
  ultimately have "lines_chained X GENESIS_PREV_HASH (map (decoded X) ?rs)"
    using lines_chained_decoded [OF assms(1)] by blast
  moreover have "map se_id (map (decoded X) ?rs) = filter (\<lambda>i. i \<le> to_id) (map row_id (db_events db))"
    using assms(2) filter_ids_prefix [of "db_events db" to_id]
    by (simp add: sound_def decoded_def filter_map comp_def)
  ultimately show ?thesis using exported_events_prefix [OF assms] by blast
qed

lemma sample_file_readable:
  "\<forall>ev \<in> set evs. printable (ev_detail ev) \<Longrightarrow> readable X (sample_file evs)"
  if "X = sample_externs" for X
proof -
  have "r \<in> set (chain_rows X p i evs) \<Longrightarrow> \<forall>ev \<in> set evs. printable (ev_detail ev) \<Longrightarrow>
      \<exists>v. printable v \<and> row_detail_json r = x_text X v" for r p i
    by (induction evs arbitrary: p i) (auto simp: Let_def)
  then show "\<forall>ev \<in> set evs. printable (ev_detail ev) \<Longrightarrow> readable X (sample_file evs)"
    using that by (simp add: readable_def sample_file_def)
qed

theorem export_stands_alone_witness:
  "\<exists>es. exported_events sample_externs 1
       (sample_file [provisional_event ''a'', provisional_event ''b'']) = Inr es \<and>
     lines_chained sample_externs GENESIS_PREV_HASH es \<and> map se_id es = [1]"
proof -
  let ?db = "sample_file [provisional_event ''a'', provisional_event ''b'']"
  have "sound sample_externs ?db"
    by (simp add: sound_def sample_file_def recomputed_row_of Let_def)
  moreover have "readable sample_externs ?db"
    using provisional_printable by (intro sample_file_readable) auto
  moreover have "map row_id (db_events ?db) = [1, 2]" by (simp add: sample_file_def Let_def)
  ultimately show ?thesis
    using export_stands_alone [OF sample_text_roundtrips, of ?db 1] by simp
qed

text \<open>
  C28. The run index is what the chain says of each run: the one-pass derivation holds a row for
  a run id exactly when the chain has a decodable opening event of it, the row is the first such
  event's payload, and it is closed by the first decodable end of that id after it - or is
  abandoned if there is a marker and no end - however the events of different runs interleave.
  No id has two rows.
\<close>

theorem derived_row_is_run_history:
  "find (\<lambda>r. rr_run_id r = rid) (fst (derive_runs_from events)) = history rid events \<and>
   distinct (map rr_run_id (fst (derive_runs_from events)))"
  using derive_fold_lookup [of rid events] derive_fold_distinct [of events]
  by (simp add: lookup_run_def)

text \<open>
  Every run marker of the chain is accounted for - it opened a run, ended one, abandoned one
  or is counted as an orphan - and in a chain of increasing ids every closed row has an interval,
  which starts at its opening event and ends strictly after it.
\<close>

theorem markers_accounted_and_intervals_proper:
  assumes "ascending events"
  shows "case derive_runs_from events of (rows, report) \<Rightarrow>
    rep_runs report = length rows \<and>
    rep_runs report + rep_ends report + rep_abandoned report + rep_orphans report =
      length (filter is_marker events) \<and>
    (\<forall>r \<in> set rows. \<forall>e. rr_end_seq r = Some e \<longrightarrow>
       run_interval r events = Inr (rr_start_seq r, e) \<and> rr_start_seq r < e)"
proof -
  obtain rows report where d: "derive_runs_from events = (rows, report)" by force
  have rows: "rows = fst (derive_fold events)" using derive_runs_from_rows [of events] d by simp
  have "run_interval r events = Inr (rr_start_seq r, e) \<and> rr_start_seq r < e"
    if "r \<in> set rows" "rr_end_seq r = Some e" for r e
    using derived_end_after_start [OF assms, of r e] that rows
    by (simp add: run_interval_def run_end_def)
  with derive_runs_from_accounted [OF d] show ?thesis by (simp add: d)
qed

definition stored :: "int \<Rightarrow> string \<Rightarrow> json \<Rightarrow> stored_event" where
  "stored i act detail =
     \<lparr>se_id = i, se_event = audit_event_new (1000 * i) ''agent'' act detail, se_prev_hash = [], se_hash = []\<rparr>"

definition sample_runs :: "stored_event list" where
  "sample_runs =
     [stored 1 ACTION_RUN_START (run_start_detail sample_externs ''r1'' None None None JNull),
      stored 2 ACTION_RUN_START (run_start_detail sample_externs ''r2'' None None None JNull),
      stored 4 ACTION_RUN_END (run_end_detail ''r1'' Ok ''done''),
      stored 7 ACTION_RUN_END (run_end_detail ''r1'' Failed ''again'')]"

theorem markers_accounted_and_intervals_proper_witness:
  "case derive_runs_from sample_runs of (rows, report) \<Rightarrow>
     rep_runs report = length rows \<and>
     (\<forall>r \<in> set rows. \<forall>e. rr_end_seq r = Some e \<longrightarrow> run_interval r sample_runs = Inr (rr_start_seq r, e))"
proof -
  have "ascending sample_runs" by (simp add: ascending_def sample_runs_def stored_def)
  from markers_accounted_and_intervals_proper [OF this] show ?thesis by (auto split: prod.splits)
qed

text \<open>
  C36. Rebuilding the index restores agreement: after a rebuild that succeeded, the cross-check
  finds nothing, and the table, read in start order, is the derivation of the chain.
\<close>

theorem rebuilt_index_agrees:
  assumes "sound X db" "rebuild_run_index X db = (Inr report, db')"
  shows "check_run_index X db' = Inr [] \<and> derive_runs X db = Inr (all_runs db', report)"
  using rebuild_agrees [OF assms] by blast

theorem rebuilt_index_agrees_witness:
  "check_run_index sample_externs (snd (rebuild_run_index sample_externs
     (sample_file [audit_event_new 5 ''agent'' ACTION_RUN_START
        (run_start_detail sample_externs ''r1'' None None None JNull)]))) = Inr []"
proof -
  let ?db = "sample_file [audit_event_new 5 ''agent'' ACTION_RUN_START
        (run_start_detail sample_externs ''r1'' None None None JNull)]"
  have "sound sample_externs ?db" by (simp add: sound_def sample_file_def recomputed_row_of Let_def)
  moreover have "fst (rebuild_run_index sample_externs ?db) =
      Inr \<lparr>rep_runs = 1, rep_starts = 1, rep_ends = 0, rep_abandoned = 0, rep_orphans = 0\<rparr>"
    by code_simp
  ultimately show ?thesis using rebuilt_index_agrees [OF _ pair_eq_fst] by blast
qed

section \<open>Opening a segment, opening a file\<close>

lemma opened_row:
  assumes "open_segment_inner X kind owner now now' db = (Inr s, db')"
  shows "\<exists>row. db_events db' = db_events db @ [row] \<and> row_action row = ACTION_SEGMENT_OPENED \<and>
    row_detail_json row = x_text X (segment_opened_detail s) \<and>
    row_prev_hash row = head_of GENESIS_PREV_HASH (db_events db) \<and>
    db_segments db' = db_segments db @ [segment_to_row s] \<and>
    seg_id s \<notin> sr_id ` set (db_segments db) \<and>
    seg_head_prev_chain s = last_hash db \<and> seg_head_prev_length s = last_id db \<and>
    seg_kind s = kind \<and> seg_state s = Seg_Open"
proof -
  from open_segment_inner_Inr [OF assms] obtain sid ev db1 where
    o: "free_segment_id X now owner db = Inr sid" "s = opened_segment kind sid now db"
      "db_segments db1 = db_segments db @ [segment_to_row s]" "db_events db1 = db_events db"
      "appended X (audit_event_new now' ''host'' ACTION_SEGMENT_OPENED (segment_opened_detail s)) db1 ev db'"
    by blast
  from appended_events [OF o(5)] o(3,4) free_segment_id_fresh [OF o(1)] show ?thesis
    by (simp add: o(2) opened_segment_def audit_event_new_def)
qed

text \<open>
  Opening a segment pins its anchor to the chain: on success the id is one no row has, the
  recorded anchor is the last hash and the last id at that moment, and the one event appended
  is the opening event, chained onto exactly that anchor. On failure the chain is unchanged,
  and so is the table, unless removing the row failed too: then the row stays behind without
  an opening event.
\<close>

theorem segment_opens_at_its_anchor:
  "case open_segment_inner X kind owner now now' db of
     (Inr s, db') \<Rightarrow>
       seg_id s \<notin> sr_id ` set (db_segments db) \<and>
       seg_head_prev_chain s = last_hash db \<and> seg_head_prev_length s = last_id db \<and>
       db_segments db' = db_segments db @ [segment_to_row s] \<and>
       (\<exists>row. db_events db' = db_events db @ [row] \<and> row_action row = ACTION_SEGMENT_OPENED \<and>
         row_prev_hash row = (case seg_head_prev_chain s of None \<Rightarrow> GENESIS_PREV_HASH | Some h \<Rightarrow> h))
   | (Inl e, db') \<Rightarrow>
       db_events db' = db_events db \<and>
       (db_segments db' = db_segments db \<or>
        (\<exists>sid. db_segments db' = db_segments db @ [segment_to_row (opened_segment kind sid now db)]))"
proof -
  obtain r db' where r: "open_segment_inner X kind owner now now' db = (r, db')" by force
  show ?thesis
  proof (cases r)
    case (Inl e)
    with open_segment_inner_Inl [of X kind owner now now' db e db'] r show ?thesis by auto
  next
    case (Inr s)
    have "head_of GENESIS_PREV_HASH (db_events db) =
        (case last_hash db of None \<Rightarrow> GENESIS_PREV_HASH | Some h \<Rightarrow> h)"
      by (simp add: last_hash_def head_of_def)
    with opened_row [of X kind owner now now' db s db'] r Inr show ?thesis by fastforce
  qed
qed

text \<open>
  A segment row can be left on the table with no opening event behind it: when the append is
  refused by the lock to the end of its budget, the removal of the row meets the same lock,
  and nothing retries it.
\<close>

theorem locked_open_leaves_an_orphan_row:
  "let (r, db) = open_segment_inner X kind owner now now'
         (new_file (None # replicate 6 (Some busy)))
   in r = Inl (Sqlite busy) \<and> db_events db = [] \<and> length (db_segments db) = 1"
proof -
  let ?db = "new_file (None # replicate 6 (Some busy))"
  define sid where "sid = mint now owner None"
  define s where "s = opened_segment kind sid now ?db"
  define db1 where "db1 = ?db\<lparr>db_faults := replicate 6 (Some busy), db_segments := [segment_to_row s]\<rparr>"
  have free: "free_segment_id X now owner ?db = Inr sid"
    by (simp add: free_segment_id_def segment_lookup_def new_file_def sid_def)
  have ins: "insert_segment s ?db = (Inr (), db1)"
    by (simp add: insert_segment_def take_fault_def new_file_def db1_def)
  have "db_faults db1 = map Some (replicate 5 busy) @ [Some busy]"
    by (simp add: db1_def eval_nat_numeral)
  then have ap: "append_event X ev db1 = (Inl (Sqlite busy), db1\<lparr>db_faults := [Some busy]\<rparr>)" for ev
    by (subst append_event_exhausted [of db1 "replicate 5 busy" "[Some busy]"])
      (simp_all add: APPEND_MAX_ATTEMPTS_def lock_fault_def busy_def)
  have del: "delete_segment sid (db1\<lparr>db_faults := [Some busy]\<rparr>) =
      (Inl (Sqlite busy), db1\<lparr>db_faults := []\<rparr>)"
    by (simp add: delete_segment_def take_fault_def)
  have "open_segment_inner X kind owner now now' ?db = (Inl (Sqlite busy), db1\<lparr>db_faults := []\<rparr>)"
    using free ins ap del
    by (simp add: open_segment_inner_def Let_def opened_segment_def [symmetric] s_def [symmetric])
  then show ?thesis by (simp add: db1_def new_file_def)
qed

text \<open>
  A file of a newer build is refused: whatever the schedule of statement failures, opening
  it is an error, its version, tables and rows are as they were, and with no failure in the way
  the error names both versions. What may change is the journal mode, which is switched before
  the version is read.
\<close>

theorem newer_file_is_refused:
  assumes "AUDIT_SCHEMA_VERSION < db_version db"
  shows "(\<exists>e. fst (open_file db) = Inl e) \<and>
    (let db' = snd (open_file db)
     in db_version db' = db_version db \<and> db_tables db' = db_tables db \<and>
        db_events db' = db_events db \<and> db_segments db' = db_segments db \<and> db_runs db' = db_runs db) \<and>
    (db_faults db = [] \<longrightarrow>
       fst (open_file db) = Inl (DataTooNew (db_version db) AUDIT_SCHEMA_VERSION))"
proof -
  define same :: "audit_db \<Rightarrow> bool" where "same = (\<lambda>db'. db_version db' = db_version db \<and> db_tables db' = db_tables db \<and>
      db_events db' = db_events db \<and> db_segments db' = db_segments db \<and> db_runs db' = db_runs db)"
  have once: "\<exists>e. fst (init_schema d) = Inl e" "same (snd (init_schema d))" if "same d" for d
  proof -
    from that assms have newer: "AUDIT_SCHEMA_VERSION < db_version d" by (simp add: same_def)
    obtain r d' where r: "init_schema d = (r, d')" by force
    from init_schema_newer [OF newer r] have d': "d' = d\<lparr>db_journal := db_journal d', db_faults := db_faults d'\<rparr>"
      and e: "\<exists>e. r = Inl e" by auto
    show "\<exists>e. fst (init_schema d) = Inl e" using r e by simp
    have "same (d\<lparr>db_journal := db_journal d', db_faults := db_faults d'\<rparr>)"
      using that by (simp add: same_def)
    with d' r show "same (snd (init_schema d))" by simp
  qed
  have loop: "(\<exists>e. fst (retry_locked init_schema n a d) = Inl e) \<and> same (snd (retry_locked init_schema n a d))"
    if "same d" for n a d
    using that
  proof (induction "n - a" arbitrary: a d rule: less_induct)
    case less
    obtain e d' where r: "init_schema d = (Inl e, d')" "same d'"
      using once [OF less(2)] by (cases "init_schema d") auto
    show ?case
    proof (cases "n \<le> a \<or> \<not> is_lock_error e")
      case True
      with r show ?thesis by (simp add: retry_locked.simps [of init_schema n a])
    next
      case False
      then have "a < n" by simp
      then have "n - (a + 1) < n - a" by linarith
      from less(1) [OF this r(2)] r(1) False show ?thesis
        by (simp add: retry_locked.simps [of init_schema n a])
    qed
  qed
  have "same db" by (simp add: same_def)
  from loop [OF this] init_schema_newer_clean [OF assms] show ?thesis
    by (simp add: open_file_def open_with_def same_def Let_def)
qed

theorem newer_file_is_refused_witness:
  "fst (open_file ((new_file [])\<lparr>db_version := 2\<rparr>)) = Inl (DataTooNew 2 1)"
proof -
  have "AUDIT_SCHEMA_VERSION < db_version ((new_file [])\<lparr>db_version := 2\<rparr>)"
    by (simp add: AUDIT_SCHEMA_VERSION_def)
  from newer_file_is_refused [OF this] show ?thesis
    by (simp add: new_file_def AUDIT_SCHEMA_VERSION_def)
qed

section \<open>Fingerprints and names\<close>

text \<open>
  A configuration's fingerprint does not depend on the order of its members at any depth,
  and the canonical text the log keeps beside it determines the configuration.
\<close>

theorem fingerprint_is_canonical:
  "(same_members v w \<longrightarrow> fingerprint X v = fingerprint X w \<and> canonical_json X v = canonical_json X w) \<and>
   (text_roundtrips X \<and> printable v \<and> printable w \<and> canonical_json X v = canonical_json X w \<longrightarrow> v = w)"
  by (auto simp: fingerprint_def canonical_json_same_members intro: canonical_json_inj)

theorem fingerprint_is_canonical_witness:
  "fingerprint sample_externs (JObj [(''b'', JInt 1), (''a'', JNull)]) =
   fingerprint sample_externs (JObj [(''a'', JNull), (''b'', JInt 1)])"
proof -
  have "same_members (JObj [(''b'', JInt 1), (''a'', JNull)]) (JObj [(''a'', JNull), (''b'', JInt 1)])"
    by (rule same_members.obj [where n' = "[(''b'', JInt 1), (''a'', JNull)]"])
      (simp_all add: same_members.atom)
  with fingerprint_is_canonical show ?thesis by blast
qed

text \<open>
  A segment id can always be minted while the table has fewer than \<open>2 ^ 32 - 2\<close> rows, it is
  one no row has, and the part of it that names the owner can steer no path: it is not empty,
  at most 48 characters, all of them ASCII letters, digits, \<open>-\<close>, \<open>_\<close> or \<open>.\<close>, and does not end in
  a dot.
\<close>

theorem minted_ids_fresh_and_safe:
  "(segments_ok X db \<and> length (db_segments db) < U32_MAX - 1 \<longrightarrow>
      (\<exists>sid. free_segment_id X now owner db = Inr sid)) \<and>
   (\<forall>sid. free_segment_id X now owner db = Inr sid \<longrightarrow> sid \<notin> sr_id ` set (db_segments db)) \<and>
   (\<forall>name. safe_owner name \<noteq> [] \<and> length (safe_owner name) \<le> 48 \<and>
      last (safe_owner name) \<noteq> CHR ''.'' \<and> CHR ''/'' \<notin> set (safe_owner name) \<and>
      (\<forall>c \<in> set (safe_owner name). is_ascii_alphanumeric c \<or> c \<in> set ''-_.''))"
proof -
  have "CHR ''/'' \<notin> set (safe_owner name)" for name
    using safe_owner_shape [of name] by (auto simp: owner_char_ok_def is_ascii_alphanumeric_def)
  with safe_owner_shape free_segment_id_exists free_segment_id_fresh show ?thesis
    by (fastforce simp: OWNER_MAX_CHARS_def owner_char_ok_def)
qed

theorem minted_ids_fresh_and_safe_witness:
  "free_segment_id sample_externs 5 (Some ''a/b'') (sample_centre [] []) = Inr ''seg-a_b-5'' \<and>
   ''seg-a_b-5'' \<notin> sr_id ` set (db_segments (sample_centre [] []))"
proof -
  have "free_segment_id sample_externs 5 (Some ''a/b'') (sample_centre [] []) = Inr ''seg-a_b-5''"
    by code_simp
  with minted_ids_fresh_and_safe [of sample_externs "sample_centre [] []" 5 "Some ''a/b''"]
  show ?thesis by blast
qed

end
