(* ===== verification/Net_Message.thy ===== *)
theory Net_Message
  imports Json
begin

text \<open>
  Node keys and signed messages: \<open>net/src/error.rs\<close> (the categories), \<open>net/src/identity.rs\<close> (the
  JWK of a node and its check), \<open>net/src/message.rs\<close> (signing, canonical bytes, the line form).

  A signing key is its 32-byte seed and a verifying key its 32 bytes. Error texts that only a
  person reads are constructors with the values the texts interpolate.
\<close>

section \<open>Categories\<close>

datatype category = Network | Refused | Crashed | Partial | Invalid

fun category_as_str :: "category \<Rightarrow> string" where
  "category_as_str Network = ''network''"
| "category_as_str Refused = ''refused''"
| "category_as_str Crashed = ''crashed''"
| "category_as_str Partial = ''partial''"
| "category_as_str Invalid = ''invalid''"

section \<open>Node keys\<close>

definition KEY_TYPE :: string where "KEY_TYPE = ''OKP''"
definition CURVE :: string where "CURVE = ''Ed25519''"
definition KEY_BYTES :: nat where "KEY_BYTES = 32"
definition SIGNATURE_BYTES :: nat where "SIGNATURE_BYTES = 64"

record node_key =
  nk_schema_version :: nat
  nk_kty :: string
  nk_crv :: string
  nk_x :: string
  nk_d :: string

datatype key_shape =
    WrongKty string
  | WrongCrv string
  | MemberNotBase64url string
  | MemberWrongBytes string nat nat
  | HalvesDiffer
  | NotAPublicKey
  | MalformedKey

definition decode_member :: "externs \<Rightarrow> nat \<Rightarrow> string \<Rightarrow> string \<Rightarrow> key_shape + string" where
  "decode_member X wanted field text =
     (case x_b64d X text of
        None \<Rightarrow> Inl (MemberNotBase64url field)
      | Some bytes \<Rightarrow>
          if length bytes \<noteq> wanted then Inl (MemberWrongBytes field (length bytes) wanted)
          else Inr bytes)"

definition from_signing_key :: "externs \<Rightarrow> string \<Rightarrow> node_key" where
  "from_signing_key X seed =
     \<lparr>nk_schema_version = 1, nk_kty = KEY_TYPE, nk_crv = CURVE,
      nk_x = x_b64e X (x_public X seed), nk_d = x_b64e X seed\<rparr>"

definition check_labels :: "node_key \<Rightarrow> key_shape + unit" where
  "check_labels k =
     (if nk_kty k \<noteq> KEY_TYPE then Inl (WrongKty (nk_kty k))
      else if nk_crv k \<noteq> CURVE then Inl (WrongCrv (nk_crv k))
      else Inr ())"

definition key_pair :: "externs \<Rightarrow> node_key \<Rightarrow> key_shape + string \<times> string" where
  "key_pair X k =
     bind_result (check_labels k) (\<lambda>_.
     bind_result (decode_member X KEY_BYTES ''d'' (nk_d k)) (\<lambda>seed.
       if x_b64e X (x_public X seed) \<noteq> nk_x k then Inl HalvesDiffer
       else bind_result (decode_member X KEY_BYTES ''x'' (nk_x k)) (\<lambda>public.
         if \<not> x_point X public then Inl NotAPublicKey else Inr (seed, public))))"

definition node_signing_key :: "externs \<Rightarrow> node_key \<Rightarrow> key_shape + string" where
  "node_signing_key X k = bind_result (key_pair X k) (\<lambda>(seed, _). Inr seed)"

definition node_verifying_key :: "externs \<Rightarrow> node_key \<Rightarrow> key_shape + string" where
  "node_verifying_key X k = bind_result (key_pair X k) (\<lambda>(_, public). Inr public)"

definition check_shape :: "externs \<Rightarrow> node_key \<Rightarrow> key_shape + unit" where
  "check_shape X k = bind_result (key_pair X k) (\<lambda>_. Inr ())"

definition public_jwk :: "node_key \<Rightarrow> json" where
  "public_jwk k = json_obj [(''crv'', JStr (nk_crv k)), (''kty'', JStr (nk_kty k)), (''x'', JStr (nk_x k))]"

definition key_fingerprint :: "externs \<Rightarrow> node_key \<Rightarrow> string" where
  "key_fingerprint X k = fingerprint X (public_jwk k)"

text \<open>
  What is documented of the key crates: base64 decodes what it encoded, a seed's public half is a
  public key of 32 bytes, a signature has 64 bytes and verifies under the key it was made with.
\<close>

definition key_laws :: "externs \<Rightarrow> bool" where
  "key_laws X \<longleftrightarrow>
     (\<forall>s. x_b64d X (x_b64e X s) = Some s) \<and>
     (\<forall>seed. length seed = KEY_BYTES \<longrightarrow>
        length (x_public X seed) = KEY_BYTES \<and> x_point X (x_public X seed) \<and>
        (\<forall>bytes. length (x_sign X seed bytes) = SIGNATURE_BYTES \<and>
           x_verify X (x_public X seed) bytes (x_sign X seed bytes)))"

lemma key_pair_from_signing_key:
  "key_laws X \<Longrightarrow> length seed = KEY_BYTES \<Longrightarrow>
   key_pair X (from_signing_key X seed) = Inr (seed, x_public X seed)"
  by (simp add: key_pair_def from_signing_key_def check_labels_def decode_member_def key_laws_def)

lemma key_pair_Inr:
  assumes "key_pair X k = Inr (seed, public)"
  shows "nk_kty k = KEY_TYPE \<and> nk_crv k = CURVE \<and> length seed = KEY_BYTES \<and>
    length public = KEY_BYTES \<and> x_b64d X (nk_d k) = Some seed \<and> x_b64d X (nk_x k) = Some public \<and>
    nk_x k = x_b64e X (x_public X seed) \<and> x_point X public"
  using assms
  by (auto simp: key_pair_def check_labels_def decode_member_def bind_result_Inr_iff
      split: option.splits if_splits)

section \<open>Messages\<close>

definition PROTOCOL_VERSION :: nat where "PROTOCOL_VERSION = 1"

record signed_message =
  msg_v :: nat
  msg_from :: string
  msg_to :: string
  msg_ts :: int
  msg_body :: json
  msg_sig :: string

datatype message_error =
    MsgKey key_shape
  | SigNotBase64url
  | SigWrongBytes nat
  | MsgNotJson

definition preamble :: "nat \<Rightarrow> string \<Rightarrow> string \<Rightarrow> int \<Rightarrow> json \<Rightarrow> json" where
  "preamble v sender dest ts body =
     json_obj
       [(''v'', JInt (int v)), (''from'', JStr sender), (''to'', JStr dest), (''ts'', JInt ts),
        (''body'', body)]"

definition sign_with_version ::
  "externs \<Rightarrow> nat \<Rightarrow> string \<Rightarrow> string \<Rightarrow> string \<Rightarrow> int \<Rightarrow> json \<Rightarrow> signed_message" where
  "sign_with_version X v seed sender dest ts body =
     \<lparr>msg_v = v, msg_from = sender, msg_to = dest, msg_ts = ts, msg_body = body,
      msg_sig = x_b64e X (x_sign X seed (canonical_json X (preamble v sender dest ts body)))\<rparr>"

definition sign_with :: "externs \<Rightarrow> string \<Rightarrow> string \<Rightarrow> string \<Rightarrow> int \<Rightarrow> json \<Rightarrow> signed_message" where
  "sign_with X = sign_with_version X PROTOCOL_VERSION"

definition sign_message ::
  "externs \<Rightarrow> node_key \<Rightarrow> string \<Rightarrow> string \<Rightarrow> int \<Rightarrow> json \<Rightarrow> message_error + signed_message" where
  "sign_message X k sender dest ts body =
     (case node_signing_key X k of
        Inl e \<Rightarrow> Inl (MsgKey e)
      | Inr seed \<Rightarrow> Inr (sign_with_version X PROTOCOL_VERSION seed sender dest ts body))"

definition canonical_bytes :: "externs \<Rightarrow> signed_message \<Rightarrow> string" where
  "canonical_bytes X m =
     canonical_json X (preamble (msg_v m) (msg_from m) (msg_to m) (msg_ts m) (msg_body m))"

definition msg_signature :: "externs \<Rightarrow> signed_message \<Rightarrow> message_error + string" where
  "msg_signature X m =
     (case x_b64d X (msg_sig m) of
        None \<Rightarrow> Inl SigNotBase64url
      | Some bytes \<Rightarrow>
          if length bytes \<noteq> SIGNATURE_BYTES then Inl (SigWrongBytes (length bytes)) else Inr bytes)"

definition verify_with :: "externs \<Rightarrow> string \<Rightarrow> signed_message \<Rightarrow> bool" where
  "verify_with X key m =
     (case msg_signature X m of
        Inl _ \<Rightarrow> False
      | Inr sig \<Rightarrow> x_verify X key (canonical_bytes X m) sig)"

definition body_hash :: "externs \<Rightarrow> json \<Rightarrow> string" where
  "body_hash X body = fingerprint X body"

section \<open>The line form\<close>

text \<open>The derived \<open>Serialize\<close> and \<open>Deserialize\<close>: members in declaration order.\<close>

definition message_to_json :: "signed_message \<Rightarrow> json" where
  "message_to_json m =
     JObj [(''v'', JInt (int (msg_v m))), (''from'', JStr (msg_from m)), (''to'', JStr (msg_to m)),
           (''ts'', JInt (msg_ts m)), (''body'', msg_body m), (''sig'', JStr (msg_sig m))]"

definition message_from_json :: "json \<Rightarrow> signed_message option" where
  "message_from_json value =
     Option.bind (struct_fields [''v'', ''from'', ''to'', ''ts'', ''body'', ''sig''] value) (\<lambda>fs.
     Option.bind (de_required fs ''v'' de_u32) (\<lambda>v.
     Option.bind (de_required fs ''from'' as_str) (\<lambda>sender.
     Option.bind (de_required fs ''to'' as_str) (\<lambda>dest.
     Option.bind (de_required fs ''ts'' as_i64) (\<lambda>ts.
     Option.bind (de_required fs ''body'' Some) (\<lambda>body.
     Option.bind (de_required fs ''sig'' as_str) (\<lambda>sig.
     Some \<lparr>msg_v = v, msg_from = sender, msg_to = dest, msg_ts = ts, msg_body = body,
           msg_sig = sig\<rparr>)))))))"

definition to_line :: "externs \<Rightarrow> signed_message \<Rightarrow> string" where
  "to_line X m = x_text X (message_to_json m) @ newline"

definition parse_line :: "externs \<Rightarrow> string \<Rightarrow> message_error + signed_message" where
  "parse_line X line =
     (case Option.bind (x_parse X (trim line)) message_from_json of
        None \<Rightarrow> Inl MsgNotJson
      | Some m \<Rightarrow> bind_result (msg_signature X m) (\<lambda>_. Inr m))"

section \<open>Lemmas\<close>

lemma sign_verifies:
  assumes "key_laws X" "length seed = KEY_BYTES"
  shows "verify_with X (x_public X seed) (sign_with_version X v seed sender dest ts body)"
  using assms
  by (simp add: verify_with_def msg_signature_def sign_with_version_def canonical_bytes_def key_laws_def)

text \<open>A message whose integers fit their Rust types and whose body can be printed.\<close>

definition wf_message :: "signed_message \<Rightarrow> bool" where
  "wf_message m \<longleftrightarrow>
     msg_v m < 2 ^ 32 \<and> is_i64 (msg_ts m) \<and> wf_json (msg_body m) \<and>
     float_free_depth 126 (msg_body m)"

lemma preamble_printable:
  assumes "wf_message m"
  shows "printable (preamble (msg_v m) (msg_from m) (msg_to m) (msg_ts m) (msg_body m))"
proof -
  let ?kvs = "[(''v'', JInt (int (msg_v m))), (''from'', JStr (msg_from m)), (''to'', JStr (msg_to m)),
     (''ts'', JInt (msg_ts m)), (''body'', msg_body m)]"
  have "\<forall>e \<in> set (obj_insert_all ?kvs). float_free_depth 126 (snd e)"
    using set_obj_insert_all [of ?kvs] assms by (fastforce simp: wf_message_def)
  moreover have "wf_json (json_obj ?kvs)"
    using assms by (intro wf_json_obj) (auto simp: wf_message_def i64_bounds)
  ultimately show ?thesis by (simp add: printable_def preamble_def json_obj_def)
qed

lemma preamble_inj:
  assumes "preamble v a b t x = preamble v' a' b' t' x'"
  shows "v = v' \<and> a = a' \<and> b = b' \<and> t = t' \<and> x = x'"
proof -
  have "json_get k (preamble v a b t x) = json_get k (preamble v' a' b' t' x')" for k
    by (simp add: assms)
  from this [of "''v''"] this [of "''from''"] this [of "''to''"] this [of "''ts''"] this [of "''body''"]
  show ?thesis by (simp add: preamble_def codec_simps)
qed

lemma canonical_bytes_inj:
  assumes "text_roundtrips X" "wf_message m" "wf_message m'" "canonical_bytes X m = canonical_bytes X m'"
  shows "msg_v m = msg_v m' \<and> msg_from m = msg_from m' \<and> msg_to m = msg_to m' \<and>
    msg_ts m = msg_ts m' \<and> msg_body m = msg_body m'"
proof (rule preamble_inj)
  show "preamble (msg_v m) (msg_from m) (msg_to m) (msg_ts m) (msg_body m) =
      preamble (msg_v m') (msg_from m') (msg_to m') (msg_ts m') (msg_body m')"
    using canonical_json_inj [OF assms(1) preamble_printable [OF assms(2)] preamble_printable [OF assms(3)]]
      assms(4) by (simp add: canonical_bytes_def)
qed

lemma message_struct_printable: "wf_message m \<Longrightarrow> struct_printable (message_to_json m)"
  using wf_json_struct [of "msg_body m"]
  by (auto simp: struct_printable_def message_to_json_def wf_message_def i64_bounds)

lemma message_json_roundtrip:
  assumes "wf_message m"
  shows "message_from_json (canonicalize (message_to_json m)) = Some m"
proof -
  have "canonicalize (msg_body m) = msg_body m"
    using assms by (simp add: wf_message_def canonicalize_id)
  then show ?thesis
    using assms unfolding message_to_json_def
    by (simp add: message_from_json_def struct_fields_canonicalize de_required_def wf_message_def
        del: canonicalize.simps(1))
qed

lemma line_roundtrip:
  assumes "struct_roundtrips X" "wf_message m" "msg_signature X m = Inr sig"
  shows "parse_line X (to_line X m) = Inr m"
proof -
  have "trim (to_line X m) = x_text X (message_to_json m)"
    using assms(1) by (simp add: struct_roundtrips_def to_line_def message_to_json_def)
  moreover have "x_parse X (x_text X (message_to_json m)) = Some (canonicalize (message_to_json m))"
    using assms(1) message_struct_printable [OF assms(2)] by (simp add: struct_roundtrips_def)
  ultimately show ?thesis
    using assms(2,3) by (simp add: parse_line_def message_json_roundtrip)
qed

end
