(* ===== verification/Net_Auth.thy ===== *)
theory Net_Auth
  imports Net_Message
begin

text \<open>
  Who sent this, and is it new: \<open>net/src/replay.rs\<close> (the window and the per-peer record) and
  \<open>net/src/sign.rs\<close> (the six steps). The clock is an argument, as in the code. The subtraction
  and addition around the window are those of an \<open>i64\<close>, with its wrap-around.
\<close>

section \<open>The replay guard\<close>

definition REPLAY_WINDOW_BACK_MS :: int where "REPLAY_WINDOW_BACK_MS = 5 * 60 * 1000"
definition REPLAY_WINDOW_AHEAD_MS :: int where "REPLAY_WINDOW_AHEAD_MS = 60 * 1000"

record window =
  back_ms :: int
  ahead_ms :: int

definition default_window :: window where
  "default_window = \<lparr>back_ms = REPLAY_WINDOW_BACK_MS, ahead_ms = REPLAY_WINDOW_AHEAD_MS\<rparr>"

datatype replay_error = RStale int int int | RFuture int int int | RReplay string int

record peer_record =
  high_water :: int
  at_water :: "string list"

definition default_record :: peer_record where
  "default_record = \<lparr>high_water = 0, at_water = []\<rparr>"

record replay_guard =
  rg_window :: window
  rg_peers :: "(string \<times> peer_record) list"

definition new_guard :: replay_guard where
  "new_guard = \<lparr>rg_window = default_window, rg_peers = []\<rparr>"

definition guard_with_window :: "window \<Rightarrow> replay_guard" where
  "guard_with_window w = \<lparr>rg_window = w, rg_peers = []\<rparr>"

definition tracked_peers :: "replay_guard \<Rightarrow> nat" where
  "tracked_peers g = length (rg_peers g)"

definition guard_high_water :: "replay_guard \<Rightarrow> string \<Rightarrow> int option" where
  "guard_high_water g from_id = map_option high_water (map_of (rg_peers g) from_id)"

text \<open>\<open>entry(from).or_default()\<close> leaves the default record behind even when the message is refused.\<close>

definition guard_record :: "replay_guard \<Rightarrow> string \<Rightarrow> peer_record" where
  "guard_record g from_id =
     (case map_of (rg_peers g) from_id of None \<Rightarrow> default_record | Some r \<Rightarrow> r)"

definition set_record :: "string \<Rightarrow> peer_record \<Rightarrow> replay_guard \<Rightarrow> replay_guard" where
  "set_record from_id r g = g\<lparr>rg_peers := put from_id r (rg_peers g)\<rparr>"

definition guard_accept ::
  "string \<Rightarrow> int \<Rightarrow> string \<Rightarrow> int \<Rightarrow> replay_guard \<Rightarrow> (replay_error + unit) \<times> replay_guard" where
  "guard_accept from_id ts h now g =
     (let w = rg_window g
      in if ts < i64_sub now (back_ms w) then (Inl (RStale ts now (back_ms w)), g)
         else if i64_add now (ahead_ms w) < ts then (Inl (RFuture ts now (ahead_ms w)), g)
         else
           let r = guard_record g from_id; g = set_record from_id r g
           in if ts < high_water r then (Inl (RReplay from_id ts), g)
              else if ts = high_water r \<and> List.member (at_water r) h then
                (Inl (RReplay from_id ts), g)
              else
                let r = (if high_water r < ts then \<lparr>high_water = ts, at_water = []\<rparr> else r);
                    r = r\<lparr>at_water := List.insert h (at_water r)\<rparr>
                in (Inr (), set_record from_id r g))"

text \<open>What the record remembers of a triple, for ever.\<close>

definition remembered :: "replay_guard \<Rightarrow> string \<times> int \<times> string \<Rightarrow> bool" where
  "remembered g k =
     (case k of (from_id, ts, h) \<Rightarrow>
        (case map_of (rg_peers g) from_id of
           None \<Rightarrow> False
         | Some r \<Rightarrow> ts < high_water r \<or> (ts = high_water r \<and> h \<in> set (at_water r))))"

lemma rg_peers_set_record [simp]: "rg_peers (set_record f r g) = put f r (rg_peers g)"
  by (simp add: set_record_def)

lemma rg_window_set_record [simp]: "rg_window (set_record f r g) = rg_window g"
  by (simp add: set_record_def)

lemma guard_record_None: "map_of (rg_peers g) f = None \<Longrightarrow> guard_record g f = default_record"
  by (simp add: guard_record_def)

lemma remembered_record:
  "remembered g (f, ts, h) \<Longrightarrow>
   ts < high_water (guard_record g f) \<or> (ts = high_water (guard_record g f) \<and> h \<in> set (at_water (guard_record g f)))"
  by (auto simp: remembered_def guard_record_def split: option.splits)

lemma guard_accept_marks:
  "guard_accept f ts h now g = (Inr (), g') \<Longrightarrow> remembered g' (f, ts, h)"
  by (auto simp: guard_accept_def Let_def remembered_def split: if_splits)

lemma guard_accept_keeps:
  "remembered g k \<Longrightarrow> remembered (snd (guard_accept f ts h now g)) k"
  by (cases k; cases "map_of (rg_peers g) f")
    (auto simp: guard_accept_def Let_def remembered_def guard_record_def default_record_def
      split: option.splits if_splits)

lemma guard_accept_refuses:
  "remembered g (f, ts, h) \<Longrightarrow> \<exists>e. fst (guard_accept f ts h now g) = Inl e"
  by (drule remembered_record) (auto simp: guard_accept_def Let_def)

text \<open>The mark never falls, and refusing moves no mark.\<close>

definition mark :: "replay_guard \<Rightarrow> string \<Rightarrow> int" where
  "mark g f = high_water (guard_record g f)"

lemma guard_accept_mark:
  "mark (snd (guard_accept f ts h now g)) k =
     (if k = f \<and> isl (fst (guard_accept f ts h now g)) = False then max (mark g k) ts else mark g k)"
  by (auto simp: mark_def guard_accept_def Let_def guard_record_def split: option.splits)

lemma guard_accept_window:
  assumes "guard_accept f ts h now g = (Inr (), g')"
  shows "i64_sub now (back_ms (rg_window g)) \<le> ts \<and> ts \<le> i64_add now (ahead_ms (rg_window g))"
  using assms by (auto simp: guard_accept_def Let_def split: if_splits)

lemma rg_window_accept [simp]: "rg_window (snd (guard_accept f ts h now g)) = rg_window g"
  by (auto simp: guard_accept_def Let_def)

lemma guard_accept_fresh:
  assumes "i64_sub now (back_ms (rg_window g)) \<le> ts" "ts \<le> i64_add now (ahead_ms (rg_window g))"
    "\<not> remembered g (f, ts, h)" "map_of (rg_peers g) f = None \<longrightarrow> 0 \<le> ts"
  shows "fst (guard_accept f ts h now g) = Inr ()"
  using assms
  by (auto simp: guard_accept_def Let_def remembered_def guard_record_def default_record_def
      split: option.splits)

section \<open>Peer keys\<close>

type_synonym peer_keys = "(string \<times> string list) list"

definition keys_insert :: "string \<Rightarrow> string list \<Rightarrow> peer_keys \<Rightarrow> peer_keys" where
  "keys_insert node_id ks peers = put node_id ks peers"

definition keys_of :: "peer_keys \<Rightarrow> string \<Rightarrow> string list" where
  "keys_of peers node_id = (case map_of peers node_id of None \<Rightarrow> [] | Some ks \<Rightarrow> ks)"

definition add_key :: "string \<Rightarrow> string \<Rightarrow> peer_keys \<Rightarrow> peer_keys" where
  "add_key node_id k peers = put node_id (keys_of peers node_id @ [k]) peers"

definition knows :: "peer_keys \<Rightarrow> string \<Rightarrow> bool" where
  "knows peers node_id \<longleftrightarrow> map_of peers node_id \<noteq> None"

definition peer_keys_len :: "peer_keys \<Rightarrow> nat" where
  "peer_keys_len peers = length peers"

section \<open>The six steps\<close>

datatype verify_error =
    UnknownSender string
  | BadSignature string
  | UnsupportedVersion nat nat
  | NotAddressedToUs string string
  | Stale int int int
  | Future int int int
  | Replay string int

fun verify_category :: "verify_error \<Rightarrow> category" where
  "verify_category (UnknownSender _) = Refused"
| "verify_category (Replay _ _) = Refused"
| "verify_category (BadSignature _) = Invalid"
| "verify_category (UnsupportedVersion _ _) = Invalid"
| "verify_category (NotAddressedToUs _ _) = Invalid"
| "verify_category (Stale _ _ _) = Network"
| "verify_category (Future _ _ _) = Network"

text \<open>\<open>Display\<close>: the age and the lead are \<open>i64\<close> differences.\<close>

fun verify_error_text :: "verify_error \<Rightarrow> string" where
  "verify_error_text (UnknownSender f) = f @ '' is not a known peer''"
| "verify_error_text (BadSignature f) = ''the signature from '' @ f @ '' does not verify''"
| "verify_error_text (UnsupportedVersion found supported) =
     ''protocol version '' @ show_nat found @ '' is not one this build speaks ('' @
     show_nat supported @ '')''"
| "verify_error_text (NotAddressedToUs dest us) =
     ''addressed to '' @ dest @ '', and this node is '' @ us"
| "verify_error_text (Stale ts now back) =
     ''the timestamp is '' @ show_int (i64_sub now ts) @ '' ms old; the window allows '' @ show_int back"
| "verify_error_text (Future ts now ahead) =
     ''the timestamp is '' @ show_int (i64_sub ts now) @ '' ms in the future; the window allows '' @
     show_int ahead"
| "verify_error_text (Replay f ts) = f @ '' has already been seen at '' @ show_int ts"

fun verify_error_of :: "replay_error \<Rightarrow> verify_error" where
  "verify_error_of (RStale ts now back) = Stale ts now back"
| "verify_error_of (RFuture ts now ahead) = Future ts now ahead"
| "verify_error_of (RReplay f ts) = Replay f ts"

record verified_message =
  vm_from :: string
  vm_to :: string
  vm_ts :: int
  vm_body :: json

definition check_identity :: "externs \<Rightarrow> signed_message \<Rightarrow> peer_keys \<Rightarrow> verify_error + unit" where
  "check_identity X m peers =
     (if \<not> knows peers (msg_from m) then Inl (UnknownSender (msg_from m))
      else if \<not> list_ex (\<lambda>key. verify_with X key m) (keys_of peers (msg_from m)) then
        Inl (BadSignature (msg_from m))
      else if msg_v m \<noteq> PROTOCOL_VERSION then Inl (UnsupportedVersion (msg_v m) PROTOCOL_VERSION)
      else Inr ())"

definition accept_message ::
  "externs \<Rightarrow> signed_message \<Rightarrow> int \<Rightarrow> replay_guard \<Rightarrow> (verify_error + unit) \<times> replay_guard" where
  "accept_message X m now g =
     (case guard_accept (msg_from m) (msg_ts m) (body_hash X (msg_body m)) now g of
        (Inl e, g) \<Rightarrow> (Inl (verify_error_of e), g)
      | (Inr _, g) \<Rightarrow> (Inr (), g))"

definition verify_at ::
  "externs \<Rightarrow> signed_message \<Rightarrow> string \<Rightarrow> peer_keys \<Rightarrow> int \<Rightarrow> replay_guard \<Rightarrow>
   (verify_error + verified_message) \<times> replay_guard" where
  "verify_at X m this_node peers now g =
     and_then (check_identity X m peers, g) (\<lambda>_ g.
       if msg_to m \<noteq> this_node then (Inl (NotAddressedToUs (msg_to m) this_node), g)
       else and_then (accept_message X m now g) (\<lambda>_ g.
         (Inr \<lparr>vm_from = msg_from m, vm_to = msg_to m, vm_ts = msg_ts m, vm_body = msg_body m\<rparr>, g)))"

definition authenticate_forwarded ::
  "externs \<Rightarrow> signed_message \<Rightarrow> peer_keys \<Rightarrow> int \<Rightarrow> replay_guard \<Rightarrow>
   (verify_error + unit) \<times> replay_guard" where
  "authenticate_forwarded X m peers now g =
     and_then (check_identity X m peers, g) (\<lambda>_ g. accept_message X m now g)"

text \<open>The identity of a message for the record: sender, time and the hash of the body.\<close>

definition message_key :: "externs \<Rightarrow> signed_message \<Rightarrow> string \<times> int \<times> string" where
  "message_key X m = (msg_from m, msg_ts m, body_hash X (msg_body m))"

lemma accept_message_simps:
  "accept_message X m now g =
     (map_sum verify_error_of id (fst (guard_accept (msg_from m) (msg_ts m) (body_hash X (msg_body m)) now g)),
      snd (guard_accept (msg_from m) (msg_ts m) (body_hash X (msg_body m)) now g))"
  by (auto simp: accept_message_def split: prod.split sum.split)

lemma accept_message_marks:
  "accept_message X m now g = (Inr u, g') \<Longrightarrow> remembered g' (message_key X m)"
  unfolding message_key_def
  by (rule guard_accept_marks [of _ _ _ now g])
    (auto simp: accept_message_def split: prod.splits sum.splits)

lemma accept_message_keeps: "remembered g k \<Longrightarrow> remembered (snd (accept_message X m now g)) k"
  by (simp add: accept_message_simps guard_accept_keeps)

lemma accept_message_refuses:
  "remembered g (message_key X m) \<Longrightarrow> \<exists>e. fst (accept_message X m now g) = Inl e"
  using guard_accept_refuses [of g "msg_from m" "msg_ts m" "body_hash X (msg_body m)" now]
  by (auto simp: accept_message_simps message_key_def)

lemma and_then_fst_Inr:
  "fst (and_then r f) = Inr b \<longleftrightarrow> (\<exists>a. fst r = Inr a \<and> fst (f a (snd r)) = Inr b)"
  by (cases r) (auto simp: and_then_def split: sum.splits)

lemma verify_at_Inr:
  "verify_at X m us peers now g = (Inr v, g') \<longleftrightarrow>
   check_identity X m peers = Inr () \<and> msg_to m = us \<and> accept_message X m now g = (Inr (), g') \<and>
   v = \<lparr>vm_from = msg_from m, vm_to = msg_to m, vm_ts = msg_ts m, vm_body = msg_body m\<rparr>"
  by (cases "check_identity X m peers"; cases "accept_message X m now g")
    (auto simp: verify_at_def and_then_def split: sum.splits)

lemma verify_at_guard:
  "snd (verify_at X m us peers now g) =
   (if check_identity X m peers = Inr () \<and> msg_to m = us then snd (accept_message X m now g) else g)"
  by (cases "check_identity X m peers"; cases "accept_message X m now g")
    (auto simp: verify_at_def and_then_def split: sum.splits)

section \<open>At most once\<close>

definition guard_step :: "(string \<times> int \<times> string) \<times> int \<Rightarrow> replay_guard \<Rightarrow> bool \<times> replay_guard" where
  "guard_step i g =
     (case i of ((f, ts, h), now) \<Rightarrow>
        let (r, g') = guard_accept f ts h now g in (\<not> isl r, g'))"

definition verify_step ::
  "externs \<Rightarrow> string \<Rightarrow> signed_message \<times> peer_keys \<times> int \<Rightarrow> replay_guard \<Rightarrow> bool \<times> replay_guard" where
  "verify_step X us i g =
     (case i of (m, peers, now) \<Rightarrow>
        let (r, g') = verify_at X m us peers now g in (\<not> isl r, g'))"

definition forward_step ::
  "externs \<Rightarrow> signed_message \<times> peer_keys \<times> int \<Rightarrow> replay_guard \<Rightarrow> bool \<times> replay_guard" where
  "forward_step X i g =
     (case i of (m, peers, now) \<Rightarrow>
        let (r, g') = authenticate_forwarded X m peers now g in (\<not> isl r, g'))"

interpretation guard: at_most_once guard_step fst remembered
proof
  fix i :: "(string \<times> int \<times> string) \<times> int" and s s' :: replay_guard and k
  obtain f ts h now where i: "i = ((f, ts, h), now)" by (metis prod_cases3 surj_pair)
  show "remembered s' (fst i)" if "guard_step i s = (True, s')"
    using that by (auto simp: guard_step_def i Let_def not_isl_iff intro: guard_accept_marks
        split: prod.splits)
  show "remembered (snd (guard_step i s)) k" if "remembered s k"
    using guard_accept_keeps [OF that, of f ts h now] by (simp add: guard_step_def i Let_def case_prod_beta)
  show "\<not> fst (guard_step i s)" if "remembered s (fst i)"
    using guard_accept_refuses [of s f ts h now] that
    by (simp add: guard_step_def i Let_def case_prod_beta isl_iff)
qed

interpretation verify: at_most_once "verify_step X us" "\<lambda>i. message_key X (fst i)" remembered for X us
proof
  fix i :: "signed_message \<times> peer_keys \<times> int" and s s' :: replay_guard and k
  obtain m peers now where i: "i = (m, peers, now)" by (rule prod_cases3)
  show "remembered s' (message_key X (fst i))" if "verify_step X us i s = (True, s')"
    using that by (auto simp: verify_step_def i Let_def not_isl_iff verify_at_Inr
        intro: accept_message_marks split: prod.splits)
  show "remembered (snd (verify_step X us i s)) k" if "remembered s k"
    using accept_message_keeps [OF that, of X m now] that
    by (simp add: verify_step_def i Let_def case_prod_beta verify_at_guard)
  show "\<not> fst (verify_step X us i s)" if "remembered s (message_key X (fst i))"
  proof
    assume "fst (verify_step X us i s)"
    then obtain v g' where "verify_at X m us peers now s = (Inr v, g')"
      by (auto simp: verify_step_def i Let_def not_isl_iff split: prod.splits)
    then have "fst (accept_message X m now s) = Inr ()" by (simp add: verify_at_Inr)
    with accept_message_refuses [of s X m now] that show False by (simp add: i)
  qed
qed

lemma authenticate_forwarded_Inr:
  "authenticate_forwarded X m peers now g = (Inr u, g') \<longleftrightarrow>
   check_identity X m peers = Inr () \<and> accept_message X m now g = (Inr (), g')"
  by (cases "check_identity X m peers") (auto simp: authenticate_forwarded_def)

lemma authenticate_forwarded_guard:
  "snd (authenticate_forwarded X m peers now g) =
   (if check_identity X m peers = Inr () then snd (accept_message X m now g) else g)"
  by (cases "check_identity X m peers") (auto simp: authenticate_forwarded_def)

interpretation forward: at_most_once "forward_step X" "\<lambda>i. message_key X (fst i)" remembered for X
proof
  fix i :: "signed_message \<times> peer_keys \<times> int" and s s' :: replay_guard and k
  obtain m peers now where i: "i = (m, peers, now)" by (rule prod_cases3)
  show "remembered s' (message_key X (fst i))" if "forward_step X i s = (True, s')"
    using that by (auto simp: forward_step_def i Let_def not_isl_iff authenticate_forwarded_Inr
        intro: accept_message_marks split: prod.splits)
  show "remembered (snd (forward_step X i s)) k" if "remembered s k"
    using accept_message_keeps [OF that, of X m now] that
    by (simp add: forward_step_def i Let_def case_prod_beta authenticate_forwarded_guard)
  show "\<not> fst (forward_step X i s)" if "remembered s (message_key X (fst i))"
  proof
    assume "fst (forward_step X i s)"
    then obtain u g' where "authenticate_forwarded X m peers now s = (Inr u, g')"
      by (auto simp: forward_step_def i Let_def not_isl_iff split: prod.splits)
    then have "fst (accept_message X m now s) = Inr ()" by (simp add: authenticate_forwarded_Inr)
    with accept_message_refuses [of s X m now] that show False by (simp add: i)
  qed
qed

end
