(* ===== verification/Net_Files.thy ===== *)
theory Net_Files
  imports Net_Auth
begin

text \<open>
  The versioned files of a node: \<open>net/src/versioned.rs\<close> (the load rule), the file half of
  \<open>net/src/identity.rs\<close> (\<open>node.key\<close>) and \<open>net/src/peers.rs\<close> (\<open>peers.json\<close>). A file is what reading its path
  answers. The locale \<open>versioned_format\<close> is the trait \<open>Versioned\<close> with the laws a format keeps; it
  is interpreted on each of the three formats of the crate.
\<close>

section \<open>Versioned documents\<close>

datatype file_read = NotFound | ReadFailed string | Contents string

datatype 'a versioned_load = Missing | Current 'a | Migrated nat 'a | TooNew nat

datatype 'why versioned_error =
    V_Io string
  | V_Json
  | NotAnObject
  | NoVersion
  | TooOld nat nat
  | Shape 'why

definition schema_version :: "json \<Rightarrow> 'why versioned_error + nat" where
  "schema_version value =
     (case as_object value of
        None \<Rightarrow> Inl NotAnObject
      | Some object \<Rightarrow>
          (case Option.bind (map_of object ''schema_version'') as_u64 of
             None \<Rightarrow> Inl NoVersion
           | Some n \<Rightarrow> if n < 2 ^ 32 then Inr n else Inl NoVersion))"

definition load_versioned ::
  "externs \<Rightarrow> nat \<Rightarrow> nat \<Rightarrow> (json \<Rightarrow> nat \<Rightarrow> 'why versioned_error + 'a) \<Rightarrow> file_read \<Rightarrow>
   'why versioned_error + 'a versioned_load" where
  "load_versioned X current oldest from_value file =
     (case file of
        NotFound \<Rightarrow> Inr Missing
      | ReadFailed e \<Rightarrow> Inl (V_Io e)
      | Contents raw \<Rightarrow>
          (case x_parse X raw of
             None \<Rightarrow> Inl V_Json
           | Some value \<Rightarrow>
               bind_result (schema_version value) (\<lambda>found.
                 if current < found then Inr (TooNew found)
                 else if found < oldest then Inl (TooOld found oldest)
                 else bind_result (from_value value found) (\<lambda>parsed.
                   Inr (if found < current then Migrated found parsed else Current parsed)))))"

definition to_bytes :: "externs \<Rightarrow> json \<Rightarrow> string" where
  "to_bytes X v = x_pretty X v @ newline"

text \<open>
  \<open>save\<close> replaces the file; \<open>save_new_private\<close> is \<open>create_new\<close>, so an existing file is an error and
  stays. \<open>io\<close> is the file system's own refusal, if any.
\<close>

definition save_versioned ::
  "externs \<Rightarrow> json \<Rightarrow> string option \<Rightarrow> file_read \<Rightarrow> ('why versioned_error + unit) \<times> file_read" where
  "save_versioned X v io file =
     (case io of Some e \<Rightarrow> (Inl (V_Io e), file) | None \<Rightarrow> (Inr (), Contents (to_bytes X v)))"

definition save_new_private ::
  "externs \<Rightarrow> json \<Rightarrow> string option \<Rightarrow> file_read \<Rightarrow> ('why versioned_error + unit) \<times> file_read" where
  "save_new_private X v io file =
     (case io of
        Some e \<Rightarrow> (Inl (V_Io e), file)
      | None \<Rightarrow>
          if file = NotFound then (Inr (), Contents (to_bytes X v))
          else (Inl (V_Io ''File exists''), file))"

locale versioned_format =
  fixes current :: nat
    and oldest :: nat
    and from_value :: "json \<Rightarrow> nat \<Rightarrow> 'why versioned_error + 'a"
    and to_value :: "'a \<Rightarrow> json"
    and ok :: "'a \<Rightarrow> bool"
  assumes oldest_le: "oldest \<le> current"
    and value_printable: "ok a \<Longrightarrow> struct_printable (to_value a)"
    and value_version: "ok a \<Longrightarrow> (schema_version (canonicalize (to_value a)) :: 'why versioned_error + nat) = Inr current"
    and value_reads: "ok a \<Longrightarrow> from_value (canonicalize (to_value a)) current = Inr a"
begin

lemma load_saved:
  assumes "pretty_roundtrips X" "ok a"
  shows "load_versioned X current oldest from_value (Contents (to_bytes X (to_value a))) = Inr (Current a)"
  using assms oldest_le value_printable [OF assms(2)] value_version [OF assms(2)] value_reads [OF assms(2)]
  by (simp add: load_versioned_def to_bytes_def pretty_roundtrips_def)

lemma load_newer:
  assumes "x_parse X raw = Some value" "(schema_version value :: 'why versioned_error + nat) = Inr found"
    "current < found"
  shows "load_versioned X current oldest from_value (Contents raw) = Inr (TooNew found)"
  using assms by (simp add: load_versioned_def)

lemma load_Current:
  assumes "load_versioned X current oldest from_value file = Inr (Current a)"
  obtains raw v where "file = Contents raw" "x_parse X raw = Some v"
    "(schema_version v :: 'why versioned_error + nat) = Inr current" "from_value v current = Inr a"
  using assms
  by (auto simp: load_versioned_def bind_result_Inr_iff split: file_read.splits option.splits if_splits)

end

lemma schema_version_struct:
  "distinct (''schema_version'' # map fst m) \<Longrightarrow> n < 2 ^ 32 \<Longrightarrow>
   schema_version (canonicalize (JObj ((''schema_version'', JInt (int n)) # m))) = Inr n"
  by (rule map_of_canonicalize_obj [of "(''schema_version'', JInt (int n)) # m"])
    (simp_all add: schema_version_def del: canonicalize.simps(1))

section \<open>The node key file\<close>

definition NODE_KEY_VERSION :: nat where "NODE_KEY_VERSION = 1"

definition node_key_to_json :: "node_key \<Rightarrow> json" where
  "node_key_to_json k =
     JObj [(''schema_version'', JInt (int (nk_schema_version k))), (''kty'', JStr (nk_kty k)),
           (''crv'', JStr (nk_crv k)), (''x'', JStr (nk_x k)), (''d'', JStr (nk_d k))]"

definition node_key_from_json :: "json \<Rightarrow> node_key option" where
  "node_key_from_json value =
     Option.bind (struct_fields [''schema_version'', ''kty'', ''crv'', ''x'', ''d''] value) (\<lambda>fs.
     Option.bind (de_required fs ''schema_version'' de_u32) (\<lambda>v.
     Option.bind (de_required fs ''kty'' as_str) (\<lambda>kty.
     Option.bind (de_required fs ''crv'' as_str) (\<lambda>crv.
     Option.bind (de_required fs ''x'' as_str) (\<lambda>x.
     Option.bind (de_required fs ''d'' as_str) (\<lambda>d.
     Some \<lparr>nk_schema_version = v, nk_kty = kty, nk_crv = crv, nk_x = x, nk_d = d\<rparr>))))))"

definition node_key_from_value :: "externs \<Rightarrow> json \<Rightarrow> nat \<Rightarrow> key_shape versioned_error + node_key" where
  "node_key_from_value X value from_version =
     (case node_key_from_json value of
        None \<Rightarrow> Inl (Shape MalformedKey)
      | Some k \<Rightarrow>
          (case check_shape X k of Inl why \<Rightarrow> Inl (Shape why) | Inr _ \<Rightarrow> Inr k))"

definition node_key_load :: "externs \<Rightarrow> file_read \<Rightarrow> key_shape versioned_error + node_key versioned_load" where
  "node_key_load X = load_versioned X NODE_KEY_VERSION NODE_KEY_VERSION (node_key_from_value X)"

datatype node_key_error =
    NK_Versioned "key_shape versioned_error"
  | NK_Random string
  | NK_TooNew nat

text \<open>\<open>random\<close> is the OS random source's answer: 32 bytes, or why not.\<close>

definition generate_key :: "externs \<Rightarrow> string + string \<Rightarrow> node_key_error + node_key" where
  "generate_key X random =
     (case random of Inl e \<Rightarrow> Inl (NK_Random e) | Inr seed \<Rightarrow> Inr (from_signing_key X seed))"

definition load_or_create ::
  "externs \<Rightarrow> bool \<Rightarrow> string + string \<Rightarrow> string option \<Rightarrow> file_read \<Rightarrow>
   (node_key_error + node_key option) \<times> file_read" where
  "load_or_create X enabled random io file =
     (if \<not> enabled then (Inr None, file)
      else case node_key_load X file of
        Inl e \<Rightarrow> (Inl (NK_Versioned e), file)
      | Inr Missing \<Rightarrow>
          (case generate_key X random of
             Inl e \<Rightarrow> (Inl e, file)
           | Inr k \<Rightarrow>
               (case save_new_private X (node_key_to_json k) io file of
                  (Inl e, file) \<Rightarrow> (Inl (NK_Versioned e), file)
                | (Inr _, file) \<Rightarrow> (Inr (Some k), file)))
      | Inr (Current k) \<Rightarrow> (Inr (Some k), file)
      | Inr (Migrated _ k) \<Rightarrow> (Inr (Some k), file)
      | Inr (TooNew found) \<Rightarrow> (Inl (NK_TooNew found), file))"

definition node_key_ok :: "externs \<Rightarrow> node_key \<Rightarrow> bool" where
  "node_key_ok X k \<longleftrightarrow> check_shape X k = Inr () \<and> nk_schema_version k = NODE_KEY_VERSION"

lemma node_key_json_roundtrip:
  "nk_schema_version k < 2 ^ 32 \<Longrightarrow> node_key_from_json (canonicalize (node_key_to_json k)) = Some k"
  unfolding node_key_to_json_def
  by (simp add: node_key_from_json_def struct_fields_canonicalize de_required_def
      del: canonicalize.simps(1))

section \<open>Peers\<close>

definition SERVER_CLAIM :: string where "SERVER_CLAIM = ''server''"
definition DISPATCH_CLAIM :: string where "DISPATCH_CLAIM = ''dispatch''"

record peer_entry =
  pe_node_id :: string
  pe_addresses :: "string list"
  pe_public_key :: json
  pe_capabilities :: "string list"
  pe_rooms :: "string list"

record peers_file =
  pf_schema_version :: nat
  pf_peers :: "peer_entry list"

datatype entry_shape =
    KeyNotObject
  | KeyWrongType string string
  | CarriesPrivateKey
  | NoX
  | XNotBase64url
  | XWrongBytes nat
  | XNotAPublicKey

datatype peers_shape = MalformedPeers | EmptyNodeId | BadEntry entry_shape

datatype peers_error = P_Versioned "peers_shape versioned_error" | P_Entry entry_shape

definition PEERS_VERSION :: nat where "PEERS_VERSION = 1"

definition empty_peers :: peers_file where
  "empty_peers = \<lparr>pf_schema_version = PEERS_VERSION, pf_peers = []\<rparr>"

definition text_or_empty :: "(string \<times> json) list \<Rightarrow> string \<Rightarrow> string" where
  "text_or_empty object k = (case Option.bind (map_of object k) as_str of None \<Rightarrow> [] | Some s \<Rightarrow> s)"

definition public_key_from_jwk :: "externs \<Rightarrow> json \<Rightarrow> entry_shape + string" where
  "public_key_from_jwk X value =
     (case as_object value of
        None \<Rightarrow> Inl KeyNotObject
      | Some object \<Rightarrow>
          if text_or_empty object ''kty'' \<noteq> KEY_TYPE \<or> text_or_empty object ''crv'' \<noteq> CURVE then
            Inl (KeyWrongType (text_or_empty object ''kty'') (text_or_empty object ''crv''))
          else if map_of object ''d'' \<noteq> None then Inl CarriesPrivateKey
          else case Option.bind (map_of object ''x'') as_str of
            None \<Rightarrow> Inl NoX
          | Some x \<Rightarrow>
              (case x_b64d X x of
                 None \<Rightarrow> Inl XNotBase64url
               | Some bytes \<Rightarrow>
                   if length bytes \<noteq> 32 then Inl (XWrongBytes (length bytes))
                   else if \<not> x_point X bytes then Inl XNotAPublicKey
                   else Inr bytes))"

definition entry_new :: "string \<Rightarrow> string \<Rightarrow> json \<Rightarrow> peer_entry" where
  "entry_new node_id address public_key =
     \<lparr>pe_node_id = node_id, pe_addresses = [address], pe_public_key = public_key,
      pe_capabilities = [], pe_rooms = []\<rparr>"

definition entry_verifying_key :: "externs \<Rightarrow> peer_entry \<Rightarrow> entry_shape + string" where
  "entry_verifying_key X e = public_key_from_jwk X (pe_public_key e)"

definition is_server :: "peer_entry \<Rightarrow> bool" where
  "is_server e \<longleftrightarrow> List.member (pe_capabilities e) SERVER_CLAIM"

definition may_dispatch :: "peer_entry \<Rightarrow> bool" where
  "may_dispatch e \<longleftrightarrow> List.member (pe_capabilities e) DISPATCH_CLAIM"

definition same_as :: "peer_entry \<Rightarrow> peer_entry \<Rightarrow> bool" where
  "same_as e other \<longleftrightarrow>
     pe_node_id e = pe_node_id other \<and> pe_public_key e = pe_public_key other \<and>
     pe_addresses e = pe_addresses other"

definition peers_entry :: "peers_file \<Rightarrow> string \<Rightarrow> peer_entry option" where
  "peers_entry f node_id = find (\<lambda>e. pe_node_id e = node_id) (pf_peers f)"

definition servers :: "peers_file \<Rightarrow> peer_entry list" where
  "servers f = filter is_server (pf_peers f)"

fun collect_keys :: "externs \<Rightarrow> peer_entry list \<Rightarrow> peer_keys \<Rightarrow> entry_shape + peer_keys" where
  "collect_keys X [] keys = Inr keys"
| "collect_keys X (e # es) keys =
     bind_result (entry_verifying_key X e) (\<lambda>k.
       collect_keys X es (keys_insert (pe_node_id e) [k] keys))"

definition peers_keys :: "externs \<Rightarrow> peers_file \<Rightarrow> entry_shape + peer_keys" where
  "peers_keys X f = collect_keys X (pf_peers f) []"

definition server_keys :: "externs \<Rightarrow> peers_file \<Rightarrow> entry_shape + peer_keys" where
  "server_keys X f = collect_keys X (filter is_server (pf_peers f)) []"

definition entry_to_json :: "peer_entry \<Rightarrow> json" where
  "entry_to_json e =
     JObj [(''node_id'', JStr (pe_node_id e)), (''addresses'', str_list (pe_addresses e)),
           (''public_key'', pe_public_key e), (''capabilities'', str_list (pe_capabilities e)),
           (''rooms'', str_list (pe_rooms e))]"

definition entry_from_json :: "json \<Rightarrow> peer_entry option" where
  "entry_from_json value =
     Option.bind (struct_fields [''node_id'', ''addresses'', ''public_key'', ''capabilities'', ''rooms''] value) (\<lambda>fs.
     Option.bind (de_required fs ''node_id'' as_str) (\<lambda>node_id.
     Option.bind (de_default fs ''addresses'' (de_vec as_str) []) (\<lambda>addresses.
     Option.bind (de_required fs ''public_key'' Some) (\<lambda>public_key.
     Option.bind (de_default fs ''capabilities'' (de_vec as_str) []) (\<lambda>capabilities.
     Option.bind (de_default fs ''rooms'' (de_vec as_str) []) (\<lambda>rooms.
     Some \<lparr>pe_node_id = node_id, pe_addresses = addresses, pe_public_key = public_key,
           pe_capabilities = capabilities, pe_rooms = rooms\<rparr>))))))"

definition peers_to_json :: "peers_file \<Rightarrow> json" where
  "peers_to_json f =
     JObj [(''schema_version'', JInt (int (pf_schema_version f))),
           (''peers'', JArr (map entry_to_json (pf_peers f)))]"

definition peers_from_json :: "json \<Rightarrow> peers_file option" where
  "peers_from_json value =
     Option.bind (struct_fields [''schema_version'', ''peers''] value) (\<lambda>fs.
     Option.bind (de_required fs ''schema_version'' de_u32) (\<lambda>v.
     Option.bind (de_default fs ''peers'' (de_vec entry_from_json) []) (\<lambda>peers.
     Some \<lparr>pf_schema_version = v, pf_peers = peers\<rparr>)))"

fun check_entries :: "externs \<Rightarrow> peer_entry list \<Rightarrow> peers_shape + unit" where
  "check_entries X [] = Inr ()"
| "check_entries X (e # es) =
     (if trim (pe_node_id e) = [] then Inl EmptyNodeId
      else case entry_verifying_key X e of
        Inl why \<Rightarrow> Inl (BadEntry why)
      | Inr _ \<Rightarrow> check_entries X es)"

definition peers_from_value :: "externs \<Rightarrow> json \<Rightarrow> nat \<Rightarrow> peers_shape versioned_error + peers_file" where
  "peers_from_value X value from_version =
     (case peers_from_json value of
        None \<Rightarrow> Inl (Shape MalformedPeers)
      | Some f \<Rightarrow>
          (case check_entries X (pf_peers f) of Inl why \<Rightarrow> Inl (Shape why) | Inr _ \<Rightarrow> Inr f))"

definition peers_load :: "externs \<Rightarrow> file_read \<Rightarrow> peers_shape versioned_error + peers_file versioned_load" where
  "peers_load X = load_versioned X PEERS_VERSION PEERS_VERSION (peers_from_value X)"

fun peers_category :: "peers_error \<Rightarrow> category" where
  "peers_category (P_Versioned (V_Io _)) = Network"
| "peers_category _ = Invalid"

section \<open>The formats keep the contract\<close>

lemma node_key_printable: "nk_schema_version k < 2 ^ 32 \<Longrightarrow> struct_printable (node_key_to_json k)"
  by (simp add: struct_printable_def node_key_to_json_def i64_bounds)

interpretation node_key_file: versioned_format NODE_KEY_VERSION NODE_KEY_VERSION
  "node_key_from_value X" node_key_to_json "node_key_ok X" for X
proof
  fix k assume ok: "node_key_ok X k"
  then have v: "nk_schema_version k < 2 ^ 32" by (simp add: node_key_ok_def NODE_KEY_VERSION_def)
  then show "struct_printable (node_key_to_json k)" by (rule node_key_printable)
  show "schema_version (canonicalize (node_key_to_json k)) = Inr NODE_KEY_VERSION"
    using ok v
    by (simp add: node_key_to_json_def node_key_ok_def schema_version_struct del: canonicalize.simps(1))
  show "node_key_from_value X (canonicalize (node_key_to_json k)) NODE_KEY_VERSION = Inr k"
    using ok v by (simp add: node_key_from_value_def node_key_json_roundtrip node_key_ok_def)
qed simp

lemma str_list_ok [simp]:
  "ints_ok (str_list xs)" "distinct_members (str_list xs)" "0 < d \<Longrightarrow> float_free_depth d (str_list xs)"
  by (auto simp: str_list_def)

text \<open>A peer table this build can have loaded: printable keys, names that are not blank.\<close>

definition wf_entry :: "externs \<Rightarrow> peer_entry \<Rightarrow> bool" where
  "wf_entry X e \<longleftrightarrow>
     wf_json (pe_public_key e) \<and> float_free_depth 122 (pe_public_key e) \<and>
     trim (pe_node_id e) \<noteq> [] \<and> (\<exists>k. entry_verifying_key X e = Inr k)"

definition peers_ok :: "externs \<Rightarrow> peers_file \<Rightarrow> bool" where
  "peers_ok X f \<longleftrightarrow> pf_schema_version f = PEERS_VERSION \<and> (\<forall>e \<in> set (pf_peers f). wf_entry X e)"

lemma check_entries_Inr:
  "check_entries X es = Inr () \<longleftrightarrow>
   (\<forall>e \<in> set es. trim (pe_node_id e) \<noteq> [] \<and> (\<exists>k. entry_verifying_key X e = Inr k))"
  by (induction es) (auto split: sum.split)

lemma entry_json_roundtrip:
  "wf_json (pe_public_key e) \<Longrightarrow> entry_from_json (canonicalize (entry_to_json e)) = Some e"
  unfolding entry_to_json_def
  by (simp add: entry_from_json_def struct_fields_canonicalize de_required_def de_default_def
      canonicalize_id de_vec_str del: canonicalize.simps(1))

lemma float_free_mono: "float_free_depth d v \<Longrightarrow> d \<le> d' \<Longrightarrow> float_free_depth d' v"
proof (induction d v arbitrary: d' rule: float_free_depth.induct)
  case (1 d vs)
  then show ?case by (auto intro!: 1(1) [of _ "d' - 1"])
next
  case (2 d m)
  then show ?case by (auto intro!: 2(1) [of _ "d' - 1"])
qed auto

lemma entry_printable:
  assumes "wf_json (pe_public_key e)" "float_free_depth 122 (pe_public_key e)"
  shows "ints_ok (entry_to_json e)" "distinct_members (entry_to_json e)" "float_free_depth 123 (entry_to_json e)"
  using assms wf_json_struct [of "pe_public_key e"] by (simp_all add: entry_to_json_def)

lemma peers_json_roundtrip:
  assumes "peers_ok X f"
  shows "peers_from_json (canonicalize (peers_to_json f)) = Some f"
proof -
  have "de_vec entry_from_json (JArr (map canonicalize (map entry_to_json (pf_peers f)))) = Some (pf_peers f)"
    unfolding map_map using assms
    by (intro de_vec_map) (auto simp: peers_ok_def wf_entry_def entry_json_roundtrip)
  then show ?thesis
    using assms unfolding peers_to_json_def
    by (simp add: peers_from_json_def struct_fields_canonicalize de_required_def de_default_def
        peers_ok_def PEERS_VERSION_def del: canonicalize.simps(1) de_vec.simps)
qed

lemma PEERS_VERSION_small: "PEERS_VERSION < 2 ^ 32"
  by (simp add: PEERS_VERSION_def)

interpretation peers_file: versioned_format PEERS_VERSION PEERS_VERSION
  "peers_from_value X" peers_to_json "peers_ok X" for X
proof
  fix f assume ok: "peers_ok X f"
  then have e: "wf_json (pe_public_key e) \<and> float_free_depth 122 (pe_public_key e)"
    if "e \<in> set (pf_peers f)" for e
    using that by (simp add: peers_ok_def wf_entry_def)
  have "float_free_depth 126 (JArr (map entry_to_json (pf_peers f)))"
    using e float_free_mono [OF entry_printable(3), of _ 125] by simp
  with e show "struct_printable (peers_to_json f)"
    using ok
    by (auto simp: struct_printable_def peers_to_json_def entry_printable peers_ok_def
        PEERS_VERSION_def i64_bounds)
  show "schema_version (canonicalize (peers_to_json f)) = Inr PEERS_VERSION"
    using ok PEERS_VERSION_small
    by (simp add: peers_to_json_def peers_ok_def schema_version_struct del: canonicalize.simps(1))
  show "peers_from_value X (canonicalize (peers_to_json f)) PEERS_VERSION = Inr f"
  proof -
    have "check_entries X (pf_peers f) = Inr ()"
      using ok by (simp add: check_entries_Inr peers_ok_def wf_entry_def)
    then show ?thesis using ok by (simp add: peers_from_value_def peers_json_roundtrip)
  qed
qed simp

section \<open>Reading a peer table\<close>

lemma collect_keys_knows:
  "collect_keys X es keys = Inr out \<Longrightarrow>
   knows out n \<longleftrightarrow> knows keys n \<or> n \<in> pe_node_id ` set es"
proof (induction es arbitrary: keys)
  case (Cons e es)
  then obtain k where "collect_keys X es (keys_insert (pe_node_id e) [k] keys) = Inr out"
    by (auto simp: bind_result_Inr_iff)
  from Cons.IH [OF this] show ?case by (auto simp: knows_def keys_insert_def)
qed simp

text \<open>With distinct ids the table's keys are the entries' keys; with a repeated id the last entry's.\<close>

lemma collect_keys_last:
  assumes "collect_keys X es keys = Inr out"
  shows "keys_of out n =
    (case find (\<lambda>e. pe_node_id e = n) (rev es) of
       None \<Rightarrow> keys_of keys n
     | Some e \<Rightarrow> (case entry_verifying_key X e of Inr k \<Rightarrow> [k] | Inl _ \<Rightarrow> []))"
  using assms
proof (induction es arbitrary: keys)
  case (Cons e es)
  then obtain k where k: "entry_verifying_key X e = Inr k"
    and rest: "collect_keys X es (keys_insert (pe_node_id e) [k] keys) = Inr out"
    by (auto simp: bind_result_Inr_iff)
  have "find P (xs @ [x]) = (case find P xs of None \<Rightarrow> (if P x then Some x else None) | Some y \<Rightarrow> Some y)"
    for P :: "peer_entry \<Rightarrow> bool" and xs x
    by (induction xs) auto
  with Cons.IH [OF rest] k show ?case
    by (auto simp: keys_of_def keys_insert_def split: option.splits)
qed simp

lemma public_key_shape:
  assumes "public_key_from_jwk X v = Inr k"
  obtains m where "v = JObj m" "map_of m ''d'' = None" "length k = 32" "x_point X k"
  using assms
  by (cases v) (auto simp: public_key_from_jwk_def split: option.splits if_splits)

lemma public_jwk_reads:
  assumes "key_pair X k = Inr (seed, public)"
  shows "public_key_from_jwk X (public_jwk k) = Inr public"
proof -
  have "nk_kty k = KEY_TYPE" "nk_crv k = CURVE" "length public = KEY_BYTES"
    "x_b64d X (nk_x k) = Some public" "x_point X public"
    using key_pair_Inr [OF assms] by blast+
  then show ?thesis by (simp add: public_key_from_jwk_def public_jwk_def json_obj_def map_of_obj_insert_all
      text_or_empty_def KEY_BYTES_def)
qed

end
