(* ===== verification/Net_Rooms.thy ===== *)
theory Net_Rooms
  imports Net_Files "HOL-Library.Product_Lexorder"
begin

text \<open>
  \<open>net/src/rooms.rs\<close>: the room file, the checks a room set must pass, the per-member message
  budgets, and merging a published room set into the local one. A conflict report keeps the two
  rooms; the sources keep the two one-line summaries printed from them.
\<close>

section \<open>Rooms\<close>

record rate_rule =
  rr_messages :: nat
  rr_window_seconds :: nat

definition rate_allows :: "rate_rule \<Rightarrow> nat \<Rightarrow> bool" where
  "rate_allows r used \<longleftrightarrow> used < rr_messages r"

definition window_ms :: "rate_rule \<Rightarrow> int" where
  "window_ms r = int (rr_window_seconds r) * 1000"

datatype mention = Members | Nobody

fun mention_as_str :: "mention \<Rightarrow> string" where
  "mention_as_str Members = ''members''"
| "mention_as_str Nobody = ''nobody''"

definition mention_allows :: "mention \<Rightarrow> bool" where
  "mention_allows m \<longleftrightarrow> m = Members"

record room_rules =
  ru_rate :: rate_rule
  ru_mention :: mention
  ru_require_signature :: bool

definition rules_new :: "rate_rule \<Rightarrow> room_rules" where
  "rules_new rate = \<lparr>ru_rate = rate, ru_mention = Nobody, ru_require_signature = True\<rparr>"

record room =
  ro_name :: string
  ro_members :: "string list"
  ro_rules :: room_rules

definition has_member :: "room \<Rightarrow> string \<Rightarrow> bool" where
  "has_member r node_id \<longleftrightarrow> List.member (ro_members r) node_id"

definition allows_mention :: "room \<Rightarrow> bool" where
  "allows_mention r \<longleftrightarrow> mention_allows (ru_mention (ro_rules r))"

definition allows_mention_from :: "room \<Rightarrow> string \<Rightarrow> bool" where
  "allows_mention_from r node_id \<longleftrightarrow> has_member r node_id \<and> allows_mention r"

record rooms_file =
  rf_schema_version :: nat
  rf_rooms :: "room list"

definition ROOMS_VERSION :: nat where "ROOMS_VERSION = 1"

definition empty_rooms :: rooms_file where
  "empty_rooms = \<lparr>rf_schema_version = ROOMS_VERSION, rf_rooms = []\<rparr>"

definition find_room :: "rooms_file \<Rightarrow> string \<Rightarrow> room option" where
  "find_room f name = find (\<lambda>r. ro_name r = name) (rf_rooms f)"

definition is_configured_for :: "rooms_file \<Rightarrow> string \<Rightarrow> string \<Rightarrow> bool" where
  "is_configured_for f node_id name =
     (case find_room f name of None \<Rightarrow> False | Some r \<Rightarrow> has_member r node_id)"

text \<open>The \<open>BTreeSet\<close> of names, as a list in ascending order.\<close>

definition room_names_for :: "rooms_file \<Rightarrow> string \<Rightarrow> string list" where
  "room_names_for f node_id =
     sorted_list_of_set (ro_name ` set (filter (\<lambda>r. has_member r node_id) (rf_rooms f)))"

definition rooms_for :: "rooms_file \<Rightarrow> string \<Rightarrow> room list" where
  "rooms_for f node_id = filter (\<lambda>r. has_member r node_id) (rf_rooms f)"

section \<open>The checks\<close>

datatype rooms_shape =
    MalformedRooms
  | TwoRooms string
  | EmptyRoomName
  | EmptyMember string
  | LowersSignature string
  | NoMessages string
  | NoWindow string

datatype rooms_error = R_Versioned "rooms_shape versioned_error" | R_Room rooms_shape

definition validate_room :: "room \<Rightarrow> rooms_shape + unit" where
  "validate_room r =
     (if trim (ro_name r) = [] then Inl EmptyRoomName
      else if list_ex (\<lambda>m. trim m = []) (ro_members r) then Inl (EmptyMember (ro_name r))
      else if \<not> ru_require_signature (ro_rules r) then Inl (LowersSignature (ro_name r))
      else if rr_messages (ru_rate (ro_rules r)) = 0 then Inl (NoMessages (ro_name r))
      else if rr_window_seconds (ru_rate (ro_rules r)) = 0 then Inl (NoWindow (ro_name r))
      else Inr ())"

fun check_rooms_from :: "string list \<Rightarrow> room list \<Rightarrow> rooms_shape + unit" where
  "check_rooms_from names [] = Inr ()"
| "check_rooms_from names (r # rs) =
     bind_result (validate_room r) (\<lambda>_.
       if List.member names (ro_name r) then Inl (TwoRooms (ro_name r))
       else check_rooms_from (ro_name r # names) rs)"

definition check_rooms :: "room list \<Rightarrow> rooms_shape + unit" where
  "check_rooms rs = check_rooms_from [] rs"

definition rooms_check :: "rooms_file \<Rightarrow> rooms_error + unit" where
  "rooms_check f = (case check_rooms (rf_rooms f) of Inl why \<Rightarrow> Inl (R_Room why) | Inr _ \<Rightarrow> Inr ())"

fun rooms_category :: "rooms_error \<Rightarrow> category" where
  "rooms_category (R_Versioned (V_Io _)) = Network"
| "rooms_category _ = Invalid"

section \<open>Reading and writing\<close>

text \<open>A unit variant is read from its word, or from an object whose one member is the word with \<open>null\<close>.\<close>

definition de_word :: "json \<Rightarrow> string option" where
  "de_word v = (case v of JStr s \<Rightarrow> Some s | JObj [(s, JNull)] \<Rightarrow> Some s | _ \<Rightarrow> None)"

definition mention_from_json :: "json \<Rightarrow> mention option" where
  "mention_from_json v =
     Option.bind (de_word v) (\<lambda>s.
       if s = ''members'' then Some Members else if s = ''nobody'' then Some Nobody else None)"

definition rate_to_json :: "rate_rule \<Rightarrow> json" where
  "rate_to_json r =
     JObj [(''messages'', JInt (int (rr_messages r))),
           (''window_seconds'', JInt (int (rr_window_seconds r)))]"

definition rate_from_json :: "json \<Rightarrow> rate_rule option" where
  "rate_from_json v =
     Option.bind (struct_fields [''messages'', ''window_seconds''] v) (\<lambda>fs.
     Option.bind (de_required fs ''messages'' de_u32) (\<lambda>messages.
     Option.bind (de_required fs ''window_seconds'' de_u32) (\<lambda>window_seconds.
     Some \<lparr>rr_messages = messages, rr_window_seconds = window_seconds\<rparr>)))"

definition rules_to_json :: "room_rules \<Rightarrow> json" where
  "rules_to_json r =
     JObj [(''rate'', rate_to_json (ru_rate r)), (''mention'', JStr (mention_as_str (ru_mention r))),
           (''require_signature'', JBool (ru_require_signature r))]"

definition rules_from_json :: "json \<Rightarrow> room_rules option" where
  "rules_from_json v =
     Option.bind (struct_fields [''rate'', ''mention'', ''require_signature''] v) (\<lambda>fs.
     Option.bind (de_required fs ''rate'' rate_from_json) (\<lambda>rate.
     Option.bind (de_default fs ''mention'' mention_from_json Nobody) (\<lambda>mention.
     Option.bind (de_required fs ''require_signature'' as_bool) (\<lambda>require_signature.
     Some \<lparr>ru_rate = rate, ru_mention = mention, ru_require_signature = require_signature\<rparr>))))"

definition room_to_json :: "room \<Rightarrow> json" where
  "room_to_json r =
     JObj [(''name'', JStr (ro_name r)), (''members'', str_list (ro_members r)),
           (''rules'', rules_to_json (ro_rules r))]"

definition room_from_json :: "json \<Rightarrow> room option" where
  "room_from_json v =
     Option.bind (struct_fields [''name'', ''members'', ''rules''] v) (\<lambda>fs.
     Option.bind (de_required fs ''name'' as_str) (\<lambda>name.
     Option.bind (de_default fs ''members'' (de_vec as_str) []) (\<lambda>members.
     Option.bind (de_required fs ''rules'' rules_from_json) (\<lambda>rules.
     Some \<lparr>ro_name = name, ro_members = members, ro_rules = rules\<rparr>))))"

definition rooms_to_json :: "rooms_file \<Rightarrow> json" where
  "rooms_to_json f =
     JObj [(''schema_version'', JInt (int (rf_schema_version f))),
           (''rooms'', JArr (map room_to_json (rf_rooms f)))]"

definition rooms_from_json :: "json \<Rightarrow> rooms_file option" where
  "rooms_from_json v =
     Option.bind (struct_fields [''schema_version'', ''rooms''] v) (\<lambda>fs.
     Option.bind (de_required fs ''schema_version'' de_u32) (\<lambda>version.
     Option.bind (de_default fs ''rooms'' (de_vec room_from_json) []) (\<lambda>rooms.
     Some \<lparr>rf_schema_version = version, rf_rooms = rooms\<rparr>)))"

definition rooms_from_value :: "json \<Rightarrow> nat \<Rightarrow> rooms_shape versioned_error + rooms_file" where
  "rooms_from_value value from_version =
     (case rooms_from_json value of
        None \<Rightarrow> Inl (Shape MalformedRooms)
      | Some f \<Rightarrow>
          (case check_rooms (rf_rooms f) of Inl why \<Rightarrow> Inl (Shape why) | Inr _ \<Rightarrow> Inr f))"

definition rooms_load :: "externs \<Rightarrow> file_read \<Rightarrow> rooms_shape versioned_error + rooms_file versioned_load" where
  "rooms_load X = load_versioned X ROOMS_VERSION ROOMS_VERSION rooms_from_value"

section \<open>The budgets\<close>

record budget =
  bu_used :: nat
  bu_window_start_ms :: int

type_synonym rate_counters = "((string \<times> string) \<times> budget) list"

definition budget_used :: "rate_counters \<Rightarrow> string \<Rightarrow> string \<Rightarrow> nat" where
  "budget_used c room member = (case map_of c (room, member) of None \<Rightarrow> 0 | Some b \<Rightarrow> bu_used b)"

record rate_error =
  re_room :: string
  re_member :: string
  re_messages :: nat
  re_window_seconds :: nat

definition rate_category :: "rate_error \<Rightarrow> category" where
  "rate_category e = Refused"

definition admit ::
  "string \<Rightarrow> string \<Rightarrow> rate_rule \<Rightarrow> int \<Rightarrow> rate_counters \<Rightarrow> (rate_error + unit) \<times> rate_counters" where
  "admit room member rule now c =
     (let b = (case map_of c (room, member) of
                 None \<Rightarrow> \<lparr>bu_used = 0, bu_window_start_ms = now\<rparr>
               | Some b \<Rightarrow> b);
          b = (if window_ms rule \<le> i64_sub now (bu_window_start_ms b)
               then \<lparr>bu_used = 0, bu_window_start_ms = now\<rparr> else b)
      in if \<not> rate_allows rule (bu_used b) then
           (Inl \<lparr>re_room = room, re_member = member, re_messages = rr_messages rule,
                 re_window_seconds = rr_window_seconds rule\<rparr>,
            put (room, member) b c)
         else (Inr (), put (room, member) (b\<lparr>bu_used := bu_used b + 1\<rparr>) c))"

section \<open>Merging a published set\<close>

record room_conflict =
  rc_name :: string
  rc_local :: room
  rc_from_published :: room

record room_merge_report =
  rm_added :: nat
  rm_unchanged :: nat
  rm_conflicts :: "room_conflict list"

definition empty_room_report :: room_merge_report where
  "empty_room_report = \<lparr>rm_added = 0, rm_unchanged = 0, rm_conflicts = []\<rparr>"

fun merge_rooms_from ::
  "rooms_file \<Rightarrow> room list \<Rightarrow> rooms_file \<times> room_merge_report \<Rightarrow> rooms_file \<times> room_merge_report" where
  "merge_rooms_from local_file [] acc = acc"
| "merge_rooms_from local_file (r # rs) (merged, report) =
     merge_rooms_from local_file rs
       (case find_room local_file (ro_name r) of
          Some known \<Rightarrow>
            if known = r then (merged, report\<lparr>rm_unchanged := rm_unchanged report + 1\<rparr>)
            else (merged, report\<lparr>rm_conflicts := rm_conflicts report @
                    [\<lparr>rc_name = ro_name r, rc_local = known, rc_from_published = r\<rparr>]\<rparr>)
        | None \<Rightarrow> (merged\<lparr>rf_rooms := rf_rooms merged @ [r]\<rparr>, report\<lparr>rm_added := rm_added report + 1\<rparr>))"

definition merge_rooms :: "rooms_file \<Rightarrow> rooms_file \<Rightarrow> rooms_file \<times> room_merge_report" where
  "merge_rooms local_file published =
     merge_rooms_from local_file (rf_rooms published)
       (local_file\<lparr>rf_schema_version := ROOMS_VERSION\<rparr>, empty_room_report)"

section \<open>The format keeps the contract\<close>

lemma mention_word [simp]: "mention_from_json (JStr (mention_as_str m)) = Some m"
  by (cases m) (simp_all add: mention_from_json_def de_word_def)

definition wf_rate :: "rate_rule \<Rightarrow> bool" where
  "wf_rate r \<longleftrightarrow> rr_messages r < 2 ^ 32 \<and> rr_window_seconds r < 2 ^ 32"

lemma rate_json_roundtrip: "wf_rate r \<Longrightarrow> rate_from_json (canonicalize (rate_to_json r)) = Some r"
  unfolding rate_to_json_def
  by (simp add: rate_from_json_def struct_fields_canonicalize de_required_def wf_rate_def
      del: canonicalize.simps(1))

lemma rules_json_roundtrip:
  "wf_rate (ru_rate r) \<Longrightarrow> rules_from_json (canonicalize (rules_to_json r)) = Some r"
  unfolding rules_to_json_def
  by (simp add: rules_from_json_def struct_fields_canonicalize de_required_def de_default_def
      rate_json_roundtrip del: canonicalize.simps(1))

lemma room_json_roundtrip:
  "wf_rate (ru_rate (ro_rules r)) \<Longrightarrow> room_from_json (canonicalize (room_to_json r)) = Some r"
  unfolding room_to_json_def
  by (simp add: room_from_json_def struct_fields_canonicalize de_required_def de_default_def
      rules_json_roundtrip de_vec_str del: canonicalize.simps(1))

definition rooms_ok :: "rooms_file \<Rightarrow> bool" where
  "rooms_ok f \<longleftrightarrow>
     rf_schema_version f = ROOMS_VERSION \<and> check_rooms (rf_rooms f) = Inr () \<and>
     (\<forall>r \<in> set (rf_rooms f). wf_rate (ru_rate (ro_rules r)))"

lemma rooms_json_roundtrip:
  assumes "rooms_ok f"
  shows "rooms_from_json (canonicalize (rooms_to_json f)) = Some f"
proof -
  have "de_vec room_from_json (JArr (map canonicalize (map room_to_json (rf_rooms f)))) = Some (rf_rooms f)"
    unfolding map_map using assms by (intro de_vec_map) (auto simp: rooms_ok_def room_json_roundtrip)
  then show ?thesis
    using assms unfolding rooms_to_json_def
    by (simp add: rooms_from_json_def struct_fields_canonicalize de_required_def de_default_def
        rooms_ok_def ROOMS_VERSION_def del: canonicalize.simps(1) de_vec.simps)
qed

lemma room_printable:
  assumes "wf_rate (ru_rate (ro_rules r))"
  shows "ints_ok (room_to_json r)" "distinct_members (room_to_json r)" "float_free_depth 125 (room_to_json r)"
  using assms by (simp_all add: room_to_json_def rules_to_json_def rate_to_json_def wf_rate_def i64_bounds)

lemma ROOMS_VERSION_small: "ROOMS_VERSION < 2 ^ 32"
  by (simp add: ROOMS_VERSION_def)

interpretation rooms_file: versioned_format ROOMS_VERSION ROOMS_VERSION rooms_from_value
  rooms_to_json rooms_ok
proof
  fix f assume ok: "rooms_ok f"
  then have "wf_rate (ru_rate (ro_rules r))" if "r \<in> set (rf_rooms f)" for r
    using that by (simp add: rooms_ok_def)
  then show "struct_printable (rooms_to_json f)"
    using ok
    by (auto simp: struct_printable_def rooms_to_json_def room_printable rooms_ok_def
        ROOMS_VERSION_def i64_bounds)
  show "schema_version (canonicalize (rooms_to_json f)) = Inr ROOMS_VERSION"
    using ok ROOMS_VERSION_small
    by (simp add: rooms_to_json_def rooms_ok_def schema_version_struct del: canonicalize.simps(1))
  show "rooms_from_value (canonicalize (rooms_to_json f)) ROOMS_VERSION = Inr f"
    using ok by (simp add: rooms_from_value_def rooms_json_roundtrip rooms_ok_def)
qed simp

section \<open>Loadable room sets\<close>

lemma check_rooms_from_Inr:
  "check_rooms_from names rs = Inr () \<longleftrightarrow>
   (\<forall>r \<in> set rs. validate_room r = Inr ()) \<and> distinct (map ro_name rs) \<and>
   ro_name ` set rs \<inter> set names = {}"
  by (induction rs arbitrary: names) (auto simp: bind_result_Inr_iff)

lemma check_rooms_Inr:
  "check_rooms rs = Inr () \<longleftrightarrow>
   (\<forall>r \<in> set rs. validate_room r = Inr ()) \<and> distinct (map ro_name rs)"
  by (simp add: check_rooms_def check_rooms_from_Inr)

lemma validate_room_Inr:
  "validate_room r = Inr () \<longleftrightarrow>
   trim (ro_name r) \<noteq> [] \<and> (\<forall>m \<in> set (ro_members r). trim m \<noteq> []) \<and>
   ru_require_signature (ro_rules r) \<and> 0 < rr_messages (ru_rate (ro_rules r)) \<and>
   0 < rr_window_seconds (ru_rate (ro_rules r))"
  by (auto simp: validate_room_def list_ex_iff)

lemma merge_rooms_from_eq:
  "merge_rooms_from loc rs (merged, report) =
     (merged\<lparr>rf_rooms := rf_rooms merged @ filter (\<lambda>r. find_room loc (ro_name r) = None) rs\<rparr>,
      report\<lparr>rm_added := rm_added report + length (filter (\<lambda>r. find_room loc (ro_name r) = None) rs),
        rm_unchanged := rm_unchanged report + length (filter (\<lambda>r. find_room loc (ro_name r) = Some r) rs),
        rm_conflicts := rm_conflicts report @
          map (\<lambda>r. \<lparr>rc_name = ro_name r, rc_local = the (find_room loc (ro_name r)), rc_from_published = r\<rparr>)
            (filter (\<lambda>r. find_room loc (ro_name r) \<noteq> None \<and> find_room loc (ro_name r) \<noteq> Some r) rs)\<rparr>)"
  by (induction rs arbitrary: merged report) (auto split: option.split)

lemmas merge_rooms_eq = merge_rooms_def merge_rooms_from_eq

definition rooms_of :: "room list \<Rightarrow> rooms_file" where
  "rooms_of rs = \<lparr>rf_schema_version = ROOMS_VERSION, rf_rooms = rs\<rparr>"

interpretation rooms: source_merge ro_name "(=)"
  "\<lambda>l t. rf_rooms (fst (merge_rooms (rooms_of l) (rooms_of t)))"
  "\<lambda>l t. rm_added (snd (merge_rooms (rooms_of l) (rooms_of t)))"
  "\<lambda>l t. rm_unchanged (snd (merge_rooms (rooms_of l) (rooms_of t)))"
  "\<lambda>l t. map rc_name (rm_conflicts (snd (merge_rooms (rooms_of l) (rooms_of t))))"
proof
  fix l t
  have conflict: "(\<exists>k. find_room (rooms_of l) n = Some k \<and> k \<noteq> r) \<longleftrightarrow>
    (find_room (rooms_of l) n \<noteq> None \<and> find_room (rooms_of l) n \<noteq> Some r)" for n r
    by auto
  show "map rc_name (rm_conflicts (snd (merge_rooms (rooms_of l) (rooms_of t)))) =
    map ro_name (filter (\<lambda>e. \<exists>k. find (\<lambda>k. ro_name k = ro_name e) l = Some k \<and> k \<noteq> e) t)"
    using conflict
    by (simp add: merge_rooms_eq rooms_of_def empty_room_report_def find_room_def comp_def)
qed (simp_all add: merge_rooms_eq rooms_of_def empty_room_report_def find_room_def)

lemma merge_rooms_of:
  "rf_schema_version l = ROOMS_VERSION \<Longrightarrow> rf_schema_version t = ROOMS_VERSION \<Longrightarrow>
   merge_rooms l t = merge_rooms (rooms_of (rf_rooms l)) (rooms_of (rf_rooms t))"
  by (cases l; cases t) (simp add: merge_rooms_def rooms_of_def)

lemma merged_rooms_loadable:
  assumes "check_rooms l = Inr ()" "check_rooms t = Inr ()"
  shows "check_rooms (rf_rooms (fst (merge_rooms (rooms_of l) (rooms_of t)))) = Inr ()"
  using assms rooms.keeps_local(2) [of l t] rooms.view_distinct [of l t]
  by (auto simp: check_rooms_Inr)

section \<open>How much a member gets through\<close>

text \<open>
  A sequence of messages, each with its room, its member and the clock, against one rule per
  room; the calls that were admitted.
\<close>

type_synonym rate_call = "string \<times> string \<times> int"

fun admit_step :: "(string \<Rightarrow> rate_rule) \<Rightarrow> rate_call \<Rightarrow> rate_counters \<Rightarrow> bool \<times> rate_counters" where
  "admit_step rules (room, member, now) c =
     (case admit room member (rules room) now c of (r, c) \<Rightarrow> (\<not> isl r, c))"

fun call_time :: "rate_call \<Rightarrow> int" where "call_time (room, member, now) = now"
fun call_key :: "rate_call \<Rightarrow> string \<times> string" where "call_key (room, member, now) = (room, member)"

definition count_in :: "int \<Rightarrow> int \<Rightarrow> int list \<Rightarrow> nat" where
  "count_in a b ts = length (filter (\<lambda>t. a \<le> t \<and> t < b) ts)"

lemma count_in_split: "a \<le> b \<Longrightarrow> b \<le> c \<Longrightarrow> count_in a c ts = count_in a b ts + count_in b c ts"
  unfolding count_in_def by (induction ts) auto

lemma count_in_mono: "a' \<le> a \<Longrightarrow> b \<le> b' \<Longrightarrow> count_in a b ts \<le> count_in a' b' ts"
  unfolding count_in_def by (induction ts) auto

lemma count_in_empty: "(\<And>t. t \<in> set ts \<Longrightarrow> t < a \<or> b \<le> t) \<Longrightarrow> count_in a b ts = 0"
  unfolding count_in_def by (induction ts) force+

lemma count_in_snoc:
  "count_in a b (ts @ [t]) = count_in a b ts + (if a \<le> t \<and> t < b then 1 else 0)"
  by (simp add: count_in_def)

text \<open>
  One member's budget against the times of what was admitted so far: the current window holds
  what the budget says, and the window before it, cut anywhere, at most a full budget.
\<close>

definition budget_inv :: "nat \<Rightarrow> int \<Rightarrow> int \<Rightarrow> int list \<Rightarrow> budget \<Rightarrow> bool" where
  "budget_inv m w now ts b \<longleftrightarrow>
     bu_used b \<le> m \<and> bu_window_start_ms b \<le> now \<and> sane_clock (bu_window_start_ms b) \<and>
     (\<forall>t \<in> set ts. t \<le> now \<and> t < bu_window_start_ms b + w) \<and>
     count_in (bu_window_start_ms b) (bu_window_start_ms b + w) ts = bu_used b \<and>
     (\<forall>a > bu_window_start_ms b - w. count_in a (bu_window_start_ms b) ts \<le> m) \<and>
     (\<forall>a. count_in a (a + w) ts \<le> 2 * m)"

lemma budget_inv_later: "budget_inv m w now ts b \<Longrightarrow> now \<le> now' \<Longrightarrow> budget_inv m w now' ts b"
  by (fastforce simp: budget_inv_def)

lemma budget_inv_start: "sane_clock now \<Longrightarrow> budget_inv m w now [] \<lparr>bu_used = 0, bu_window_start_ms = now\<rparr>"
  by (simp add: budget_inv_def count_in_def)

lemma budget_inv_reset:
  assumes "budget_inv m w now ts b" "bu_window_start_ms b + w \<le> now" "sane_clock now" "0 \<le> w"
  shows "budget_inv m w now ts \<lparr>bu_used = 0, bu_window_start_ms = now\<rparr>"
proof -
  let ?s = "bu_window_start_ms b"
  have before: "t < ?s + w" if "t \<in> set ts" for t
    using assms(1) that by (simp add: budget_inv_def)
  have "count_in a now ts \<le> m" if "now - w < a" for a
  proof -
    have "count_in a now ts \<le> count_in ?s (?s + w) ts"
    proof (cases "a \<le> ?s + w")
      case True
      have "count_in (?s + w) now ts = 0" using before by (intro count_in_empty) auto
      then have "count_in a now ts = count_in a (?s + w) ts"
        using True assms(2) count_in_split [of a "?s + w" now ts] by simp
      then show ?thesis using that assms(2) count_in_mono [of ?s a "?s + w" "?s + w" ts] by simp
    next
      case False
      then have "count_in a now ts = 0" using before by (intro count_in_empty) force
      then show ?thesis by simp
    qed
    then show ?thesis using assms(1) by (simp add: budget_inv_def)
  qed
  moreover have "count_in now (now + w) ts = 0"
    using before assms(2) by (intro count_in_empty) force
  ultimately show ?thesis
    using assms before unfolding budget_inv_def by force
qed

lemma budget_inv_admit:
  assumes "budget_inv m w now ts b" "now < bu_window_start_ms b + w" "bu_used b < m" "0 \<le> w"
  shows "budget_inv m w now (ts @ [now]) (b\<lparr>bu_used := bu_used b + 1\<rparr>)"
proof -
  let ?s = "bu_window_start_ms b"
  have inv: "count_in ?s (?s + w) ts = bu_used b" "?s \<le> now"
    "\<And>a. ?s - w < a \<Longrightarrow> count_in a ?s ts \<le> m" "\<And>a. count_in a (a + w) ts \<le> 2 * m"
    using assms(1) by (auto simp: budget_inv_def)
  have two: "count_in a (a + w) (ts @ [now]) \<le> 2 * m" for a
  proof (cases "a \<le> now \<and> now < a + w")
    case False
    then show ?thesis using inv(4) by (auto simp: count_in_snoc)
  next
    case hit: True
    have "count_in a (a + w) ts \<le> m + bu_used b"
    proof (cases "a \<le> ?s")
      case True
      then have "count_in a (a + w) ts = count_in a ?s ts + count_in ?s (a + w) ts"
        using hit inv(2) by (intro count_in_split) auto
      moreover have "count_in ?s (a + w) ts \<le> bu_used b"
        using inv(1) True count_in_mono [of ?s ?s "a + w" "?s + w" ts] by simp
      moreover have "count_in a ?s ts \<le> m" using inv hit by (intro inv(3)) simp
      ultimately show ?thesis by simp
    next
      case False
      have "count_in (?s + w) (a + w) ts = 0"
        using assms(1) by (intro count_in_empty) (auto simp: budget_inv_def)
      then have "count_in a (a + w) ts = count_in a (?s + w) ts"
        using False hit assms(2) count_in_split [of a "?s + w" "a + w" ts] by simp
      then show ?thesis using False inv(1) count_in_mono [of ?s a "?s + w" "?s + w" ts] by simp
    qed
    then show ?thesis using assms(3) hit by (simp add: count_in_snoc)
  qed
  show ?thesis
    using assms two inv unfolding budget_inv_def by (auto simp: count_in_snoc)
qed

definition member_inv :: "rate_rule \<Rightarrow> int \<Rightarrow> int list \<Rightarrow> budget option \<Rightarrow> bool" where
  "member_inv rule now ts ob =
     (case ob of None \<Rightarrow> ts = [] | Some b \<Rightarrow> budget_inv (rr_messages rule) (window_ms rule) now ts b)"

definition counters_inv ::
  "(string \<Rightarrow> rate_rule) \<Rightarrow> int \<Rightarrow> (string \<times> string \<Rightarrow> int list) \<Rightarrow> rate_counters \<Rightarrow> bool" where
  "counters_inv rules now ts c \<longleftrightarrow> (\<forall>k. member_inv (rules (fst k)) now (ts k) (map_of c k))"

lemma counters_inv_start: "counters_inv rules now (\<lambda>_. []) []"
  by (simp add: counters_inv_def member_inv_def)

lemma counters_inv_later:
  assumes "counters_inv rules now ts c" "now \<le> now'"
  shows "counters_inv rules now' ts c"
  using assms budget_inv_later unfolding counters_inv_def member_inv_def
  by (fastforce split: option.splits simp del: split_paired_All)

lemma counters_inv_put:
  assumes "counters_inv rules now ts c" "member_inv (rules (fst k)) now ts' (Some b)"
  shows "counters_inv rules now (ts(k := ts')) (put k b c)"
  using assms by (simp add: counters_inv_def del: split_paired_All)

lemma admit_keeps_inv:
  assumes inv: "counters_inv rules now ts c" and "sane_clock now" "0 < rr_window_seconds (rules room)"
  shows "case admit room member (rules room) now c of
     (Inl e, c') \<Rightarrow> counters_inv rules now ts c'
   | (Inr _, c') \<Rightarrow> counters_inv rules now (ts((room, member) := ts (room, member) @ [now])) c'"
proof -
  let ?k = "(room, member)" and ?m = "rr_messages (rules room)" and ?w = "window_ms (rules room)"
  define b0 where "b0 = (case map_of c ?k of None \<Rightarrow> \<lparr>bu_used = 0, bu_window_start_ms = now\<rparr> | Some b \<Rightarrow> b)"
  define b where "b = (if ?w \<le> i64_sub now (bu_window_start_ms b0)
    then \<lparr>bu_used = 0, bu_window_start_ms = now\<rparr> else b0)"
  have pos: "0 < ?w" using assms(3) by (simp add: window_ms_def)
  have "member_inv (rules (fst ?k)) now (ts ?k) (map_of c ?k)"
    using inv unfolding counters_inv_def by blast
  then have "budget_inv ?m ?w now (ts ?k) b0"
    using budget_inv_start [OF assms(2)] by (auto simp: b0_def member_inv_def split: option.splits)
  moreover from this have "i64_sub now (bu_window_start_ms b0) = now - bu_window_start_ms b0"
    using assms(2) by (simp add: budget_inv_def sane_sub)
  ultimately have b: "budget_inv ?m ?w now (ts ?k) b" and open_now: "now < bu_window_start_ms b + ?w"
    using budget_inv_reset [of ?m ?w now "ts ?k" b0] assms(2) pos by (auto simp: b_def)
  have eq: "admit room member (rules room) now c =
    (if \<not> rate_allows (rules room) (bu_used b) then
       (Inl \<lparr>re_room = room, re_member = member, re_messages = ?m,
             re_window_seconds = rr_window_seconds (rules room)\<rparr>, put ?k b c)
     else (Inr (), put ?k (b\<lparr>bu_used := bu_used b + 1\<rparr>) c))"
    by (simp add: admit_def Let_def b_def b0_def)
  show ?thesis
  proof (cases "rate_allows (rules room) (bu_used b)")
    case True
    then have "budget_inv ?m ?w now (ts ?k @ [now]) (b\<lparr>bu_used := bu_used b + 1\<rparr>)"
      using b open_now pos by (intro budget_inv_admit) (simp_all add: rate_allows_def)
    with counters_inv_put [OF inv, of ?k] True show ?thesis by (simp add: eq member_inv_def)
  next
    case False
    with counters_inv_put [OF inv, of ?k "ts ?k" b] b show ?thesis by (simp add: eq member_inv_def)
  qed
qed

definition admitted_times :: "(string \<Rightarrow> rate_rule) \<Rightarrow> string \<times> string \<Rightarrow> rate_call list \<Rightarrow> rate_counters \<Rightarrow> int list" where
  "admitted_times rules k calls c =
     map call_time (filter (\<lambda>call. call_key call = k) (accepted_by (admit_step rules) calls c))"

lemma budget_respected:
  assumes "counters_inv rules now ts c" "sorted (now # map call_time calls)"
    "\<forall>call \<in> set calls. sane_clock (call_time call) \<and> 0 < rr_window_seconds (rules (fst (call_key call)))"
  shows "count_in a (a + window_ms (rules (fst k))) (ts k @ admitted_times rules k calls c)
    \<le> 2 * rr_messages (rules (fst k))"
  using assms
proof (induction calls arbitrary: now ts c)
  case Nil
  then have "member_inv (rules (fst k)) now (ts k) (map_of c k)"
    unfolding counters_inv_def by blast
  then show ?case
    by (auto simp: admitted_times_def member_inv_def budget_inv_def count_in_def split: option.splits)
next
  case (Cons call calls)
  obtain room member now' where call: "call = (room, member, now')" by (cases call) auto
  have step: "case admit room member (rules room) now' c of
     (Inl e, c') \<Rightarrow> counters_inv rules now' ts c'
   | (Inr _, c') \<Rightarrow> counters_inv rules now' (ts((room, member) := ts (room, member) @ [now'])) c'"
    using Cons.prems call by (intro admit_keeps_inv counters_inv_later [of rules now ts c now']) auto
  obtain r c' where admit: "admit room member (rules room) now' c = (r, c')" by force
  have later: "sorted (now' # map call_time calls)" using Cons.prems(2) call by simp
  show ?case
  proof (cases r)
    case (Inl e)
    then show ?thesis
      using Cons.IH [OF _ later, of ts c'] Cons.prems(3) step admit call
      by (simp add: admitted_times_def)
  next
    case (Inr u)
    let ?ts = "ts((room, member) := ts (room, member) @ [now'])"
    have eq: "ts k @ admitted_times rules k (call # calls) c = ?ts k @ admitted_times rules k calls c'"
      using Inr admit call by (auto simp: admitted_times_def)
    have "counters_inv rules now' ?ts c'" using Inr step admit by simp
    from Cons.IH [OF this later] Cons.prems(3) show ?thesis unfolding eq by simp
  qed
qed

end
