(* ===== verification/Net_Discovery.thy ===== *)
theory Net_Discovery
  imports Net_Rooms
begin

text \<open>
  \<open>net/src/discovery.rs\<close> (the room filter, the handed-down table and its merge, announcements) and
  \<open>net/src/registry.rs\<close> (the published registry). A conflict report keeps the two entries; the
  sources keep the two one-line summaries printed from them. The sockets are not modelled.
\<close>

section \<open>The room filter\<close>

text \<open>The \<open>BTreeSet\<close> of names as a list in ascending order.\<close>

type_synonym room_filter = "string list"

definition filter_none :: room_filter where "filter_none = []"

definition filter_of :: "string list \<Rightarrow> room_filter" where
  "filter_of rooms = sorted_list_of_set (set rooms)"

definition filter_from_rooms :: "rooms_file \<Rightarrow> string \<Rightarrow> room_filter" where
  "filter_from_rooms f this_node_id = room_names_for f this_node_id"

definition filter_contains :: "room_filter \<Rightarrow> string \<Rightarrow> bool" where
  "filter_contains flt room = List.member flt room"

definition admits :: "room_filter \<Rightarrow> string list \<Rightarrow> bool" where
  "admits flt announced =
     (if flt = [] then False else list_ex (\<lambda>room. filter_contains flt room) announced)"

section \<open>The handed-down table\<close>

record node_table =
  nt_generation :: int
  nt_entries :: "peer_entry list"

datatype discovery_shape =
    NoGeneration
  | NoPeers
  | MalformedEntries
  | BadTableEntry entry_shape
  | NoRooms
  | MalformedRoomNames
  | NoEntry
  | MalformedEntry
  | BadAnnouncedEntry entry_shape

datatype discovery_error = D_Peers peers_error | D_Shape discovery_shape | D_Message message_error

definition is_newer_than :: "node_table \<Rightarrow> int \<Rightarrow> bool" where
  "is_newer_than t seen \<longleftrightarrow> seen < nt_generation t"

definition table_entry :: "node_table \<Rightarrow> string \<Rightarrow> peer_entry option" where
  "table_entry t node_id = find (\<lambda>e. pe_node_id e = node_id) (nt_entries t)"

text \<open>The \<open>json!\<close> macro serialises an interpolated struct into a \<open>Value\<close>, i.e. in key order.\<close>

definition table_to_body :: "node_table \<Rightarrow> json" where
  "table_to_body t =
     json_obj [(''generation'', JInt (nt_generation t)),
               (''peers'', JArr (map (\<lambda>e. canonicalize (entry_to_json e)) (nt_entries t)))]"

fun check_keys :: "externs \<Rightarrow> peer_entry list \<Rightarrow> discovery_error + unit" where
  "check_keys X [] = Inr ()"
| "check_keys X (e # es) =
     (case entry_verifying_key X e of
        Inl why \<Rightarrow> Inl (D_Shape (BadTableEntry why))
      | Inr _ \<Rightarrow> check_keys X es)"

definition table_from_body :: "externs \<Rightarrow> json \<Rightarrow> discovery_error + node_table" where
  "table_from_body X body =
     (case Option.bind (json_get ''generation'' body) as_i64 of
        None \<Rightarrow> Inl (D_Shape NoGeneration)
      | Some generation \<Rightarrow>
          (case json_get ''peers'' body of
             None \<Rightarrow> Inl (D_Shape NoPeers)
           | Some peers \<Rightarrow>
               (case de_vec entry_from_json peers of
                  None \<Rightarrow> Inl (D_Shape MalformedEntries)
                | Some entries \<Rightarrow>
                    bind_result (check_keys X entries) (\<lambda>_.
                      Inr \<lparr>nt_generation = generation, nt_entries = entries\<rparr>))))"

definition table_sign ::
  "externs \<Rightarrow> node_table \<Rightarrow> node_key \<Rightarrow> string \<Rightarrow> string \<Rightarrow> int \<Rightarrow> discovery_error + signed_message" where
  "table_sign X t key from_id to_id ts =
     (case sign_message X key from_id to_id ts (table_to_body t) of
        Inl e \<Rightarrow> Inl (D_Message e) | Inr m \<Rightarrow> Inr m)"

definition table_from_verified :: "externs \<Rightarrow> verified_message \<Rightarrow> discovery_error + node_table" where
  "table_from_verified X m = table_from_body X (vm_body m)"

record peer_conflict =
  pc_node_id :: string
  pc_local :: peer_entry
  pc_from_table :: peer_entry

record merge_report =
  mr_added :: nat
  mr_unchanged :: nat
  mr_conflicts :: "peer_conflict list"

definition empty_merge_report :: merge_report where
  "empty_merge_report = \<lparr>mr_added = 0, mr_unchanged = 0, mr_conflicts = []\<rparr>"

fun merge_table_from ::
  "peers_file \<Rightarrow> peer_entry list \<Rightarrow> peers_file \<times> merge_report \<Rightarrow> peers_file \<times> merge_report" where
  "merge_table_from local_file [] acc = acc"
| "merge_table_from local_file (e # es) (merged, report) =
     merge_table_from local_file es
       (case peers_entry local_file (pe_node_id e) of
          Some known \<Rightarrow>
            if same_as known e then (merged, report\<lparr>mr_unchanged := mr_unchanged report + 1\<rparr>)
            else (merged, report\<lparr>mr_conflicts := mr_conflicts report @
                    [\<lparr>pc_node_id = pe_node_id e, pc_local = known, pc_from_table = e\<rparr>]\<rparr>)
        | None \<Rightarrow> (merged\<lparr>pf_peers := pf_peers merged @ [e]\<rparr>, report\<lparr>mr_added := mr_added report + 1\<rparr>))"

definition merge_table :: "peers_file \<Rightarrow> node_table \<Rightarrow> peers_file \<times> merge_report" where
  "merge_table local_file t =
     merge_table_from local_file (nt_entries t)
       (local_file\<lparr>pf_schema_version := PEERS_VERSION\<rparr>, empty_merge_report)"

definition report_has_conflicts :: "merge_report \<Rightarrow> bool" where
  "report_has_conflicts r \<longleftrightarrow> mr_conflicts r \<noteq> []"

section \<open>Announcements\<close>

definition announcement_body :: "peer_entry \<Rightarrow> string list \<Rightarrow> json" where
  "announcement_body e rooms =
     json_obj [(''entry'', canonicalize (entry_to_json e)), (''rooms'', str_list rooms)]"

definition sign_announcement ::
  "externs \<Rightarrow> node_key \<Rightarrow> string \<Rightarrow> int \<Rightarrow> peer_entry \<Rightarrow> string list \<Rightarrow> discovery_error + signed_message" where
  "sign_announcement X key from_id ts e rooms =
     (case sign_message X key from_id from_id ts (announcement_body e rooms) of
        Inl e \<Rightarrow> Inl (D_Message e) | Inr m \<Rightarrow> Inr m)"

definition announced_rooms :: "json \<Rightarrow> discovery_error + string list" where
  "announced_rooms body =
     (case json_get ''rooms'' body of
        None \<Rightarrow> Inl (D_Shape NoRooms)
      | Some v \<Rightarrow>
          (case de_vec as_str v of
             None \<Rightarrow> Inl (D_Shape MalformedRoomNames)
           | Some rooms \<Rightarrow> Inr rooms))"

definition announced_entry :: "externs \<Rightarrow> json \<Rightarrow> discovery_error + peer_entry" where
  "announced_entry X body =
     (case json_get ''entry'' body of
        None \<Rightarrow> Inl (D_Shape NoEntry)
      | Some v \<Rightarrow>
          (case entry_from_json v of
             None \<Rightarrow> Inl (D_Shape MalformedEntry)
           | Some e \<Rightarrow>
               (case entry_verifying_key X e of
                  Inl why \<Rightarrow> Inl (D_Shape (BadAnnouncedEntry why))
                | Inr _ \<Rightarrow> Inr e)))"

datatype adoption =
    RefreshedAddresses string "string list"
  | ReportedUnknown string "string list" "string list"
  | IgnoredOutOfRoom "string list"

definition ignored :: "adoption \<Rightarrow> bool" where
  "ignored a = (case a of IgnoredOutOfRoom _ \<Rightarrow> True | _ \<Rightarrow> False)"

definition introduced_a_key :: "adoption \<Rightarrow> bool" where
  "introduced_a_key a = False"

definition refreshed :: "adoption \<Rightarrow> (string \<times> string list) option" where
  "refreshed a = (case a of RefreshedAddresses n addrs \<Rightarrow> Some (n, addrs) | _ \<Rightarrow> None)"

definition consider_announcement ::
  "externs \<Rightarrow> json \<Rightarrow> peers_file \<Rightarrow> room_filter \<Rightarrow> discovery_error + adoption" where
  "consider_announcement X body local_file flt =
     bind_result (announced_rooms body) (\<lambda>rooms.
       if \<not> admits flt rooms then Inr (IgnoredOutOfRoom rooms)
       else bind_result (announced_entry X body) (\<lambda>e.
         case peers_entry local_file (pe_node_id e) of
           Some _ \<Rightarrow> Inr (RefreshedAddresses (pe_node_id e) (pe_addresses e))
         | None \<Rightarrow> Inr (ReportedUnknown (pe_node_id e) (pe_addresses e) rooms)))"

fun discovery_category :: "discovery_error \<Rightarrow> category" where
  "discovery_category (D_Peers e) = peers_category e"
| "discovery_category _ = Invalid"

section \<open>The published registry\<close>

definition registry_request_body :: json where
  "registry_request_body = json_obj [(''registry'', JInt (int PROTOCOL_VERSION))]"

definition is_registry_request :: "json \<Rightarrow> bool" where
  "is_registry_request body \<longleftrightarrow> Option.bind (json_get ''registry'' body) as_u64 = Some PROTOCOL_VERSION"

record registry =
  rg_table :: node_table
  rg_rooms :: rooms_file

datatype registry_error =
    G_Table discovery_error
  | G_Rooms rooms_error
  | G_Shape
  | G_Message message_error

definition registry_to_body :: "registry \<Rightarrow> json" where
  "registry_to_body g =
     (case table_to_body (rg_table g) of
        JObj object \<Rightarrow>
          JObj (put ''rooms'' (JArr (map (\<lambda>r. canonicalize (room_to_json r)) (rf_rooms (rg_rooms g)))) object)
      | body \<Rightarrow> body)"

definition registry_from_body :: "externs \<Rightarrow> json \<Rightarrow> registry_error + registry" where
  "registry_from_body X body =
     (case table_from_body X body of
        Inl e \<Rightarrow> Inl (G_Table e)
      | Inr t \<Rightarrow>
          bind_result
            (case json_get ''rooms'' body of
               None \<Rightarrow> Inr empty_rooms
             | Some v \<Rightarrow>
                 (case de_vec room_from_json v of
                    None \<Rightarrow> Inl G_Shape
                  | Some rooms \<Rightarrow>
                      let f = \<lparr>rf_schema_version = ROOMS_VERSION, rf_rooms = rooms\<rparr>
                      in case rooms_check f of Inl e \<Rightarrow> Inl (G_Rooms e) | Inr _ \<Rightarrow> Inr f))
            (\<lambda>rooms. Inr \<lparr>rg_table = t, rg_rooms = rooms\<rparr>))"

definition registry_from_verified :: "externs \<Rightarrow> verified_message \<Rightarrow> registry_error + registry" where
  "registry_from_verified X m = registry_from_body X (vm_body m)"

definition registry_sign ::
  "externs \<Rightarrow> registry \<Rightarrow> node_key \<Rightarrow> string \<Rightarrow> string \<Rightarrow> int \<Rightarrow> registry_error + signed_message" where
  "registry_sign X g key from_id to_id ts =
     (case sign_message X key from_id to_id ts (registry_to_body g) of
        Inl e \<Rightarrow> Inl (G_Message e) | Inr m \<Rightarrow> Inr m)"

record merged =
  mg_peers :: peers_file
  mg_peers_report :: merge_report
  mg_rooms :: rooms_file
  mg_rooms_report :: room_merge_report

definition registry_merge :: "registry \<Rightarrow> peers_file \<Rightarrow> rooms_file \<Rightarrow> merged" where
  "registry_merge g local_peers local_rooms =
     (let (peers, peers_report) = merge_table local_peers (rg_table g);
          (rooms, rooms_report) = merge_rooms local_rooms (rg_rooms g)
      in \<lparr>mg_peers = peers, mg_peers_report = peers_report,
          mg_rooms = rooms, mg_rooms_report = rooms_report\<rparr>)"

definition merged_has_conflicts :: "merged \<Rightarrow> bool" where
  "merged_has_conflicts m \<longleftrightarrow>
     report_has_conflicts (mg_peers_report m) \<or> rm_conflicts (mg_rooms_report m) \<noteq> []"

fun registry_category :: "registry_error \<Rightarrow> category" where
  "registry_category (G_Table e) = discovery_category e"
| "registry_category (G_Rooms e) = rooms_category e"
| "registry_category _ = Invalid"

section \<open>The table as a source\<close>

lemma merge_table_from_eq:
  "merge_table_from loc es (merged, report) =
     (merged\<lparr>pf_peers := pf_peers merged @ filter (\<lambda>e. peers_entry loc (pe_node_id e) = None) es\<rparr>,
      report\<lparr>mr_added := mr_added report + length (filter (\<lambda>e. peers_entry loc (pe_node_id e) = None) es),
        mr_unchanged := mr_unchanged report +
          length (filter (\<lambda>e. \<exists>k. peers_entry loc (pe_node_id e) = Some k \<and> same_as k e) es),
        mr_conflicts := mr_conflicts report @
          map (\<lambda>e. \<lparr>pc_node_id = pe_node_id e, pc_local = the (peers_entry loc (pe_node_id e)), pc_from_table = e\<rparr>)
            (filter (\<lambda>e. \<exists>k. peers_entry loc (pe_node_id e) = Some k \<and> \<not> same_as k e) es)\<rparr>)"
  by (induction es arbitrary: merged report) (auto split: option.split)

lemmas merge_table_eq = merge_table_def merge_table_from_eq

definition peers_of :: "peer_entry list \<Rightarrow> peers_file" where
  "peers_of es = \<lparr>pf_schema_version = PEERS_VERSION, pf_peers = es\<rparr>"

definition table_of :: "peer_entry list \<Rightarrow> node_table" where
  "table_of es = \<lparr>nt_generation = 0, nt_entries = es\<rparr>"

interpretation table: source_merge pe_node_id same_as
  "\<lambda>l t. pf_peers (fst (merge_table (peers_of l) (table_of t)))"
  "\<lambda>l t. mr_added (snd (merge_table (peers_of l) (table_of t)))"
  "\<lambda>l t. mr_unchanged (snd (merge_table (peers_of l) (table_of t)))"
  "\<lambda>l t. map pc_node_id (mr_conflicts (snd (merge_table (peers_of l) (table_of t))))"
  by unfold_locales
    (simp_all add: merge_table_eq peers_of_def table_of_def empty_merge_report_def peers_entry_def comp_def)

lemma merge_table_of:
  "pf_schema_version l = PEERS_VERSION \<Longrightarrow>
   merge_table l t = merge_table (peers_of (pf_peers l)) (table_of (nt_entries t))"
  by (cases l) (simp add: merge_table_def peers_of_def table_of_def)

section \<open>Reading bodies back\<close>

lemma check_keys_Inr:
  "check_keys X es = Inr () \<longleftrightarrow> (\<forall>e \<in> set es. \<exists>k. entry_verifying_key X e = Inr k)"
  by (induction es) (auto split: sum.split)

lemma table_body_reads:
  assumes "is_i64 (nt_generation t)"
    and "\<And>e. e \<in> set (nt_entries t) \<Longrightarrow> wf_json (pe_public_key e) \<and> (\<exists>k. entry_verifying_key X e = Inr k)"
    and "json_get ''generation'' body = Some (JInt (nt_generation t))"
    and "json_get ''peers'' body = Some (JArr (map (\<lambda>e. canonicalize (entry_to_json e)) (nt_entries t)))"
  shows "table_from_body X body = Inr t"
proof -
  have "de_vec entry_from_json (JArr (map (\<lambda>e. canonicalize (entry_to_json e)) (nt_entries t))) =
    Some (nt_entries t)"
    using assms(2) by (intro de_vec_map) (simp add: entry_json_roundtrip)
  moreover have "check_keys X (nt_entries t) = Inr ()"
    using assms(2) by (simp add: check_keys_Inr)
  ultimately show ?thesis
    using assms by (simp add: table_from_body_def del: de_vec.simps)
qed

lemma table_roundtrip:
  assumes "is_i64 (nt_generation t)"
    and "\<And>e. e \<in> set (nt_entries t) \<Longrightarrow> wf_json (pe_public_key e) \<and> (\<exists>k. entry_verifying_key X e = Inr k)"
  shows "table_from_body X (table_to_body t) = Inr t"
  using assms by (intro table_body_reads) (simp_all add: table_to_body_def json_get_obj)

lemma json_get_put [codec_simps]: "json_get k (JObj (put k' v m)) = (if k = k' then Some v else json_get k (JObj m))"
  by (simp add: json_get_def)

lemma registry_body_get:
  "json_get k (registry_to_body g) =
     (if k = ''rooms'' then Some (JArr (map (\<lambda>r. canonicalize (room_to_json r)) (rf_rooms (rg_rooms g))))
      else json_get k (table_to_body (rg_table g)))"
  unfolding registry_to_body_def table_to_body_def json_obj_def by (simp add: json_get_put)

definition wf_registry :: "externs \<Rightarrow> registry \<Rightarrow> bool" where
  "wf_registry X g \<longleftrightarrow>
     is_i64 (nt_generation (rg_table g)) \<and> rooms_ok (rg_rooms g) \<and>
     (\<forall>e \<in> set (nt_entries (rg_table g)). wf_entry X e)"

lemma registry_roundtrip:
  assumes "wf_registry X g"
  shows "registry_from_body X (registry_to_body g) = Inr g"
proof -
  have "table_from_body X (registry_to_body g) = Inr (rg_table g)"
    using assms
    by (intro table_body_reads)
      (simp_all add: registry_body_get table_to_body_def json_get_obj wf_registry_def wf_entry_def)
  moreover have "de_vec room_from_json (JArr (map (\<lambda>r. canonicalize (room_to_json r)) (rf_rooms (rg_rooms g)))) =
    Some (rf_rooms (rg_rooms g))"
    using assms by (intro de_vec_map) (auto simp: wf_registry_def rooms_ok_def room_json_roundtrip)
  moreover have "check_rooms (rf_rooms (rg_rooms g)) = Inr ()"
    "rg_rooms g = \<lparr>rf_schema_version = ROOMS_VERSION, rf_rooms = rf_rooms (rg_rooms g)\<rparr>"
    using assms by (simp_all add: wf_registry_def rooms_ok_def)
  ultimately show ?thesis
    by (cases g) (simp add: registry_from_body_def registry_body_get rooms_check_def
        del: de_vec.simps)
qed

lemma registry_from_body_rooms:
  assumes "registry_from_body X body = Inr g"
  shows "check_rooms (rf_rooms (rg_rooms g)) = Inr ()" "rf_schema_version (rg_rooms g) = ROOMS_VERSION"
    and "\<forall>e \<in> set (nt_entries (rg_table g)). \<exists>k. entry_verifying_key X e = Inr k"
  using assms
  by (auto simp: registry_from_body_def bind_result_Inr_iff empty_rooms_def check_rooms_def rooms_check_def
      table_from_body_def check_keys_Inr split: sum.splits option.splits)

section \<open>Announcements never widen trust\<close>

lemma consider_refreshed:
  assumes "consider_announcement X body f flt = Inr (RefreshedAddresses n addrs)"
  shows "peers_entry f n \<noteq> None"
    "\<exists>rooms room. announced_rooms body = Inr rooms \<and> room \<in> set rooms \<and> room \<in> set flt"
  using assms
  by (auto simp: consider_announcement_def bind_result_Inr_iff admits_def filter_contains_def
      list_ex_iff split: if_splits option.splits)

section \<open>The registry as a frame body\<close>

lemma float_free_canonicalize: "float_free_depth d v \<Longrightarrow> float_free_depth d (canonicalize v)"
proof (induction v arbitrary: d rule: canonicalize.induct)
  case (1 m)
  let ?kvs = "sort_key fst (map (\<lambda>e. (fst e, canonicalize (snd e))) m)"
  have "\<forall>e \<in> set ?kvs. float_free_depth (d - 1) (snd e)" using 1 by auto
  then have "\<forall>e \<in> set (obj_insert_all ?kvs). float_free_depth (d - 1) (snd e)"
    using set_obj_insert_all [of ?kvs] by blast
  then show ?case using 1(2) by (simp add: json_obj_def)
qed auto

lemma registry_body_shape:
  assumes "wf_registry X g"
  shows "wf_json (registry_to_body g)" "float_free_depth 126 (registry_to_body g)"
proof -
  let ?t = "rg_table g"
  let ?peers = "JArr (map (\<lambda>e. canonicalize (entry_to_json e)) (nt_entries ?t))"
  let ?rooms = "JArr (map (\<lambda>r. canonicalize (room_to_json r)) (rf_rooms (rg_rooms g)))"
  let ?kvs = "[(''generation'', JInt (nt_generation ?t)), (''peers'', ?peers)]"
  have entry: "wf_json (canonicalize (entry_to_json e)) \<and> float_free_depth 124 (canonicalize (entry_to_json e))"
    if "e \<in> set (nt_entries ?t)" for e
    using that assms entry_printable [of e] float_free_mono [of 123 "canonicalize (entry_to_json e)" 124]
    by (auto simp: wf_registry_def wf_entry_def intro: canonicalize_wf float_free_canonicalize)
  have room: "wf_json (canonicalize (room_to_json r)) \<and> float_free_depth 124 (canonicalize (room_to_json r))"
    if "r \<in> set (rf_rooms (rg_rooms g))" for r
  proof -
    have "wf_rate (ru_rate (ro_rules r))" using that assms by (simp add: wf_registry_def rooms_ok_def)
    then show ?thesis
      using room_printable [of r] unfolding room_to_json_def rules_to_json_def rate_to_json_def
      by (auto intro!: canonicalize_wf float_free_canonicalize simp del: canonicalize.simps)
  qed
  have parts: "wf_json ?peers" "float_free_depth 125 ?peers" "wf_json ?rooms" "float_free_depth 125 ?rooms"
    using entry room by auto
  have body: "registry_to_body g = JObj (put ''rooms'' ?rooms (obj_insert_all ?kvs))"
    by (simp add: registry_to_body_def table_to_body_def json_obj_def)
  have members: "e \<in> set ?kvs \<or> e = (''rooms'', ?rooms)"
    if "e \<in> set (put ''rooms'' ?rooms (obj_insert_all ?kvs))" for e
    using that set_put_subset [of "''rooms''" ?rooms "obj_insert_all ?kvs"] set_obj_insert_all [of ?kvs] by blast
  have gen: "wf_json (JInt (nt_generation ?t))"
    using assms by (simp add: wf_registry_def i64_bounds)
  have "ordered (put ''rooms'' ?rooms (obj_insert_all ?kvs))"
    by (intro ordered_put ordered_obj_insert_all)
  moreover have "\<forall>e \<in> set (put ''rooms'' ?rooms (obj_insert_all ?kvs)). wf_json (snd e)"
    using members parts gen by fastforce
  ultimately show "wf_json (registry_to_body g)" unfolding body wf_json.simps by blast
  have "\<forall>e \<in> set (put ''rooms'' ?rooms (obj_insert_all ?kvs)). float_free_depth 125 (snd e)"
    using members parts by fastforce
  then show "float_free_depth 126 (registry_to_body g)" unfolding body by simp
qed

lemma registry_merge_of:
  assumes "pf_schema_version lp = PEERS_VERSION" "rf_schema_version lr = ROOMS_VERSION"
    "rf_schema_version (rg_rooms g) = ROOMS_VERSION"
  shows "mg_peers (registry_merge g lp lr) =
      fst (merge_table (peers_of (pf_peers lp)) (table_of (nt_entries (rg_table g))))"
    "mg_peers_report (registry_merge g lp lr) =
      snd (merge_table (peers_of (pf_peers lp)) (table_of (nt_entries (rg_table g))))"
    "mg_rooms (registry_merge g lp lr) =
      fst (merge_rooms (rooms_of (rf_rooms lr)) (rooms_of (rf_rooms (rg_rooms g))))"
    "mg_rooms_report (registry_merge g lp lr) =
      snd (merge_rooms (rooms_of (rf_rooms lr)) (rooms_of (rf_rooms (rg_rooms g))))"
  using merge_table_of [OF assms(1), of "rg_table g"] merge_rooms_of [OF assms(2,3)]
  by (simp_all add: registry_merge_def split: prod.split)

lemma merged_versions:
  "pf_schema_version (fst (merge_table l t)) = PEERS_VERSION"
  "rf_schema_version (fst (merge_rooms lr tr)) = ROOMS_VERSION"
  by (simp_all add: merge_table_eq merge_rooms_eq)

end
