(* ===== verification/Net_Liveness.thy ===== *)
theory Net_Liveness
  imports Net_Message
begin

text \<open>
  \<open>net/src/liveness.rs\<close>: the probe and report bodies, a prober's own view of its peers, and the
  server's witness table with its rule of judgement.
\<close>

section \<open>Bodies\<close>

definition PROBE_MISSES :: nat where "PROBE_MISSES = 3"
definition REPORT_WINDOW_MS :: int where "REPORT_WINDOW_MS = 3 * 15000"

text \<open>A body is of a kind when its member of that name is the protocol version.\<close>

definition versioned_body :: "string \<Rightarrow> json \<Rightarrow> bool" where
  "versioned_body k body \<longleftrightarrow> Option.bind (json_get k body) as_u64 = Some PROTOCOL_VERSION"

definition probe_body :: json where
  "probe_body = json_obj [(''probe'', JInt (int PROTOCOL_VERSION))]"

definition is_probe :: "json \<Rightarrow> bool" where "is_probe body = versioned_body ''probe'' body"

definition alive_body :: json where
  "alive_body = json_obj [(''alive'', JInt (int PROTOCOL_VERSION))]"

definition is_alive :: "json \<Rightarrow> bool" where "is_alive body = versioned_body ''alive'' body"

definition unreachable_body :: "string \<Rightarrow> json" where
  "unreachable_body node_id = json_obj [(''unreachable'', JStr node_id)]"

definition reachable_body :: "string \<Rightarrow> json" where
  "reachable_body node_id = json_obj [(''reachable'', JStr node_id)]"

datatype report = Unreachable string | Reachable string

fun report_node_id :: "report \<Rightarrow> string" where
  "report_node_id (Unreachable n) = n"
| "report_node_id (Reachable n) = n"

definition report_reachable :: "report \<Rightarrow> bool" where
  "report_reachable r = (case r of Reachable _ \<Rightarrow> True | _ \<Rightarrow> False)"

fun report_to_body :: "report \<Rightarrow> json" where
  "report_to_body (Unreachable n) = unreachable_body n"
| "report_to_body (Reachable n) = reachable_body n"

definition report_of :: "json \<Rightarrow> report option" where
  "report_of body =
     (case Option.bind (json_get ''unreachable'' body) as_str of
        Some n \<Rightarrow> Some (Unreachable n)
      | None \<Rightarrow>
          (case Option.bind (json_get ''reachable'' body) as_str of
             Some n \<Rightarrow> Some (Reachable n)
           | None \<Rightarrow> None))"

section \<open>The prober\<close>

record peer_view =
  pv_last_answer_ms :: "int option"
  pv_consecutive_misses :: nat
  pv_reachable :: bool

type_synonym prober = "(string \<times> peer_view) list"

definition fresh_view :: peer_view where
  "fresh_view = \<lparr>pv_last_answer_ms = None, pv_consecutive_misses = 0, pv_reachable = True\<rparr>"

definition prober_new :: "string list \<Rightarrow> prober" where
  "prober_new peers = foldl (\<lambda>views p. put p fresh_view views) [] peers"

definition prober_peers :: "prober \<Rightarrow> string list" where
  "prober_peers views = map fst views"

definition prober_view :: "prober \<Rightarrow> string \<Rightarrow> peer_view option" where
  "prober_view views p = map_of views p"

definition u32_sat_add :: "nat \<Rightarrow> nat \<Rightarrow> nat" where
  "u32_sat_add a b = min (a + b) (2 ^ 32 - 1)"

definition record_answer :: "string \<Rightarrow> int \<Rightarrow> prober \<Rightarrow> report option \<times> prober" where
  "record_answer p now views =
     (case map_of views p of
        None \<Rightarrow> (None, views)
      | Some v \<Rightarrow>
          let v' = v\<lparr>pv_last_answer_ms := Some now, pv_consecutive_misses := 0\<rparr>
          in if pv_reachable v then (None, put p v' views)
             else (Some (Reachable p), put p (v'\<lparr>pv_reachable := True\<rparr>) views))"

definition record_miss :: "string \<Rightarrow> prober \<Rightarrow> report option \<times> prober" where
  "record_miss p views =
     (case map_of views p of
        None \<Rightarrow> (None, views)
      | Some v \<Rightarrow>
          let v = v\<lparr>pv_consecutive_misses := u32_sat_add (pv_consecutive_misses v) 1\<rparr>
          in if \<not> pv_reachable v \<or> pv_consecutive_misses v < PROBE_MISSES then (None, put p v views)
             else (Some (Unreachable p), put p (v\<lparr>pv_reachable := False\<rparr>) views))"

definition pulse :: "prober \<Rightarrow> report list" where
  "pulse views = map (\<lambda>(p, v). if pv_reachable v then Reachable p else Unreachable p) views"

section \<open>The judgement\<close>

record judgement =
  ju_peer :: string
  ju_witnesses :: "string list"
  ju_reports :: nat

datatype recover_method = Heartbeat | Probe

datatype transition = Judged judgement | Recovered string recover_method

record witness_report =
  wr_reachable :: bool
  wr_at_ms :: int

text \<open>Subject, then witness, then the latest report.\<close>

type_synonym witness_table = "(string \<times> (string \<times> witness_report) list) list"

definition record_report :: "string \<Rightarrow> string \<Rightarrow> bool \<Rightarrow> int \<Rightarrow> witness_table \<Rightarrow> witness_table" where
  "record_report witness subject reachable now t =
     put subject
       (put witness \<lparr>wr_reachable = reachable, wr_at_ms = now\<rparr>
         (case map_of t subject of None \<Rightarrow> [] | Some reports \<Rightarrow> reports)) t"

fun judge_loop ::
  "string \<Rightarrow> int \<Rightarrow> (string \<Rightarrow> bool) \<Rightarrow> (string \<times> witness_report) list \<Rightarrow> string list \<times> bool \<Rightarrow>
   string list \<times> bool" where
  "judge_loop subject now witness_online [] acc = acc"
| "judge_loop subject now witness_online ((witness, r) # rs) (witnesses, veto) =
     judge_loop subject now witness_online rs
       (if witness = subject then (witnesses, veto)
        else if REPORT_WINDOW_MS < i64_sub now (wr_at_ms r) then (witnesses, veto)
        else if \<not> witness_online witness then (witnesses, veto)
        else (insort_insert witness witnesses, veto \<or> wr_reachable r))"

definition judge ::
  "witness_table \<Rightarrow> string \<Rightarrow> int \<Rightarrow> (string \<Rightarrow> bool) \<Rightarrow> judgement option" where
  "judge t subject now witness_online =
     (case map_of t subject of
        None \<Rightarrow> None
      | Some reports \<Rightarrow>
          (case judge_loop subject now witness_online reports ([], False) of
             (witnesses, veto) \<Rightarrow>
               if veto \<or> witnesses = [] then None
               else Some \<lparr>ju_peer = subject, ju_witnesses = witnesses, ju_reports = length witnesses\<rparr>))"

section \<open>What the rule means\<close>

text \<open>A witness of \<open>subject\<close> that counts, and what it said.\<close>

definition witnesses_of ::
  "witness_table \<Rightarrow> string \<Rightarrow> int \<Rightarrow> (string \<Rightarrow> bool) \<Rightarrow> (string \<times> witness_report) set" where
  "witnesses_of t subject now online =
     {(w, r). \<exists>reports. map_of t subject = Some reports \<and> (w, r) \<in> set reports \<and> w \<noteq> subject \<and>
        i64_sub now (wr_at_ms r) \<le> REPORT_WINDOW_MS \<and> online w}"

lemma judge_loop_eq:
  "judge_loop subject now online rs (witnesses, veto) =
     (let counted = filter (\<lambda>(w, r). w \<noteq> subject \<and> i64_sub now (wr_at_ms r) \<le> REPORT_WINDOW_MS \<and> online w) rs
      in (foldl (\<lambda>ws w. insort_insert w ws) witnesses (map fst counted),
          veto \<or> (\<exists>e \<in> set counted. wr_reachable (snd e))))"
proof (induction rs arbitrary: witnesses veto)
  case (Cons e rs)
  obtain w r where e: "e = (w, r)" by force
  show ?case
    by (cases "REPORT_WINDOW_MS < i64_sub now (wr_at_ms r)")
      (simp_all add: e Let_def Cons.IH not_le not_less disj_assoc)
qed (simp add: Let_def)

lemma insort_insert_fold:
  "sorted ws \<Longrightarrow> distinct ws \<Longrightarrow>
   set (foldl (\<lambda>ws w. insort_insert w ws) ws xs) = set ws \<union> set xs \<and>
   sorted (foldl (\<lambda>ws w. insort_insert w ws) ws xs) \<and>
   distinct (foldl (\<lambda>ws w. insort_insert w ws) ws xs)"
  by (induction xs arbitrary: ws)
    (auto simp: set_insort_insert sorted_insort_insert distinct_insort_insert)

lemma judge_Some:
  "judge t subject now online = Some j \<longleftrightarrow>
     witnesses_of t subject now online \<noteq> {} \<and>
     (\<forall>(w, r) \<in> witnesses_of t subject now online. \<not> wr_reachable r) \<and>
     j = \<lparr>ju_peer = subject,
          ju_witnesses = sorted_list_of_set (fst ` witnesses_of t subject now online),
          ju_reports = card (fst ` witnesses_of t subject now online)\<rparr>"
proof (cases "map_of t subject")
  case None
  then show ?thesis by (simp add: judge_def witnesses_of_def)
next
  case (Some reports)
  define counted where "counted =
    filter (\<lambda>(w, r). w \<noteq> subject \<and> i64_sub now (wr_at_ms r) \<le> REPORT_WINDOW_MS \<and> online w) reports"
  define ws where "ws = foldl (\<lambda>ws w. insort_insert w ws) [] (map fst counted)"
  have set: "witnesses_of t subject now online = set counted"
    by (auto simp: witnesses_of_def counted_def Some)
  have ws: "set ws = fst ` set counted" "sorted ws" "distinct ws"
    using insort_insert_fold [of "[]" "map fst counted"] by (simp_all add: ws_def)
  then have eq: "sorted_list_of_set (fst ` set counted) = ws"
    by (metis sorted_list_of_set.idem_if_sorted_distinct)
  have empty: "ws = [] \<longleftrightarrow> set counted = {}" using ws(1) by (metis image_is_empty set_empty)
  have "judge t subject now online =
    (if (\<exists>e \<in> set counted. wr_reachable (snd e)) \<or> ws = [] then None
     else Some \<lparr>ju_peer = subject, ju_witnesses = ws, ju_reports = length ws\<rparr>)"
    by (simp add: judge_def Some judge_loop_eq Let_def flip: counted_def ws_def)
  moreover have "card (fst ` set counted) = length ws"
    using distinct_card [OF ws(3)] ws(1) by simp
  ultimately show ?thesis unfolding set eq using empty by auto
qed

lemma report_body_roundtrip: "report_of (report_to_body r) = Some r"
  by (cases r) (simp_all add: report_of_def unreachable_body_def reachable_body_def json_get_obj)

section \<open>A prober's view is its history\<close>

datatype probe_op = ProbeAnswered string int | ProbeMissed string

fun probe_step :: "probe_op \<Rightarrow> prober \<Rightarrow> prober" where
  "probe_step (ProbeAnswered p now) views = snd (record_answer p now views)"
| "probe_step (ProbeMissed p) views = snd (record_miss p views)"

text \<open>The misses of a peer since its last answer, and when that was, latest operation first.\<close>

fun misses_since :: "string \<Rightarrow> probe_op list \<Rightarrow> nat" where
  "misses_since p [] = 0"
| "misses_since p (ProbeAnswered q now # ops) = (if p = q then 0 else misses_since p ops)"
| "misses_since p (ProbeMissed q # ops) = (if p = q then 1 else 0) + misses_since p ops"

fun last_answer :: "string \<Rightarrow> probe_op list \<Rightarrow> int option" where
  "last_answer p [] = None"
| "last_answer p (ProbeAnswered q now # ops) = (if p = q then Some now else last_answer p ops)"
| "last_answer p (ProbeMissed q # ops) = last_answer p ops"

definition view_of_history :: "string \<Rightarrow> probe_op list \<Rightarrow> peer_view" where
  "view_of_history p ops =
     \<lparr>pv_last_answer_ms = last_answer p ops,
      pv_consecutive_misses = min (misses_since p ops) (2 ^ 32 - 1),
      pv_reachable = (misses_since p ops < PROBE_MISSES)\<rparr>"

lemma prober_new_view: "map_of (prober_new peers) p = (if p \<in> set peers then Some fresh_view else None)"
proof -
  have "map_of (foldl (\<lambda>views p. put p fresh_view views) views peers) p =
    (if p \<in> set peers then Some fresh_view else map_of views p)" for views
    by (induction peers arbitrary: views) auto
  then show ?thesis by (simp add: prober_new_def)
qed

lemma probe_step_history:
  assumes "\<And>p. map_of views p = (if p \<in> P then Some (view_of_history p ops) else None)"
  shows "map_of (probe_step op views) p = (if p \<in> P then Some (view_of_history p (op # ops)) else None)"
  using assms
  by (cases op)
    (auto simp: record_answer_def record_miss_def Let_def view_of_history_def u32_sat_add_def
      PROBE_MISSES_def)

lemma prober_history:
  "map_of (foldl (\<lambda>v op. probe_step op v) (prober_new peers) ops) p =
     (if p \<in> set peers then Some (view_of_history p (rev ops)) else None)"
proof (induction ops arbitrary: p rule: rev_induct)
  case Nil
  then show ?case by (simp add: prober_new_view view_of_history_def fresh_view_def PROBE_MISSES_def)
next
  case (snoc op ops)
  then show ?case by (simp add: probe_step_history)
qed

end
