(* ===== verification/Net_Transport.thy ===== *)
theory Net_Transport
  imports Net_Message
begin

text \<open>
  \<open>net/src/transport.rs\<close>: one frame per line. A connection's reading half is the bytes that will still
  arrive and how they end; dialling and writing are arguments. Durations are kept as their texts.
\<close>

section \<open>Frames\<close>

definition FRAME_TERMINATOR :: char where "FRAME_TERMINATOR = char_of (10 :: nat)"

definition frame_bytes :: "string \<Rightarrow> string" where
  "frame_bytes frame =
     (if frame \<noteq> [] \<and> last frame = FRAME_TERMINATOR then frame else frame @ [FRAME_TERMINATOR])"

definition DEFAULT_MAX_FRAME_BYTES :: nat where "DEFAULT_MAX_FRAME_BYTES = 1024 * 1024"

record transport_config =
  tc_connect_timeout :: string
  tc_read_timeout :: string
  tc_write_timeout :: string
  tc_max_frame_bytes :: nat

definition default_config :: transport_config where
  "default_config = \<lparr>tc_connect_timeout = ''5s'', tc_read_timeout = ''10s'', tc_write_timeout = ''10s'',
     tc_max_frame_bytes = DEFAULT_MAX_FRAME_BYTES\<rparr>"

datatype op = OpConnect | OpWrite | OpRead | OpAccept

fun op_as_str :: "op \<Rightarrow> string" where
  "op_as_str OpConnect = ''connect''"
| "op_as_str OpWrite = ''write''"
| "op_as_str OpRead = ''read''"
| "op_as_str OpAccept = ''accept''"

datatype transport_error =
    T_Timeout op string
  | T_Io op string
  | T_Closed op
  | T_TooLong nat
  | T_Malformed string
  | T_RelayUnavailable string

fun transport_category :: "transport_error \<Rightarrow> category" where
  "transport_category (T_Malformed _) = Invalid"
| "transport_category _ = Network"

fun transport_error_text :: "transport_error \<Rightarrow> string" where
  "transport_error_text (T_Timeout x after) = ''the '' @ op_as_str x @ '' timed out after '' @ after"
| "transport_error_text (T_Io x why) = ''the '' @ op_as_str x @ '' failed: '' @ why"
| "transport_error_text (T_Closed x) =
     ''the connection ended before a complete frame arrived ('' @ op_as_str x @ '')''"
| "transport_error_text (T_TooLong limit) = ''the frame is longer than the '' @ show_nat limit @ ''-byte limit''"
| "transport_error_text (T_Malformed why) = ''the frame does not parse: '' @ why"
| "transport_error_text (T_RelayUnavailable after) =
     ''the direct path failed ('' @ after @ '') and no relay is wired to carry the frame''"

text \<open>The kinds of I/O error the transport tells apart.\<close>

datatype io_error = WouldBlock | TimedOut | OtherIo string

definition read_error :: "transport_config \<Rightarrow> io_error \<Rightarrow> transport_error" where
  "read_error c e = (case e of OtherIo why \<Rightarrow> T_Io OpRead why | _ \<Rightarrow> T_Timeout OpRead (tc_read_timeout c))"

definition write_error :: "transport_config \<Rightarrow> io_error \<Rightarrow> transport_error" where
  "write_error c e = (case e of OtherIo why \<Rightarrow> T_Io OpWrite why | _ \<Rightarrow> T_Timeout OpWrite (tc_write_timeout c))"

section \<open>UTF-8 validity\<close>

definition byte_in :: "char \<Rightarrow> nat \<Rightarrow> nat \<Rightarrow> bool" where
  "byte_in c lo hi \<longleftrightarrow> lo \<le> of_char c \<and> of_char c \<le> hi"

definition continuation :: "char \<Rightarrow> bool" where "continuation c = byte_in c 128 191"

fun valid_utf8 :: "string \<Rightarrow> bool" where
  "valid_utf8 [] = True"
| "valid_utf8 (a # s) =
     (if byte_in a 0 127 then valid_utf8 s
      else case s of
        [] \<Rightarrow> False
      | b # s \<Rightarrow>
          if byte_in a 194 223 then continuation b \<and> valid_utf8 s
          else (case s of
            [] \<Rightarrow> False
          | c # s \<Rightarrow>
              if byte_in a 224 239 then
                continuation b \<and> continuation c \<and> (byte_in a 224 224 \<longrightarrow> byte_in b 160 191) \<and>
                (byte_in a 237 237 \<longrightarrow> byte_in b 128 159) \<and> valid_utf8 s
              else (case s of
                [] \<Rightarrow> False
              | d # s \<Rightarrow>
                  byte_in a 240 244 \<and> continuation b \<and> continuation c \<and> continuation d \<and>
                  (byte_in a 240 240 \<longrightarrow> byte_in b 144 191) \<and>
                  (byte_in a 244 244 \<longrightarrow> byte_in b 128 143) \<and> valid_utf8 s)))"

section \<open>Reading a frame\<close>

datatype stream_end = Eof | ReadFails io_error

record incoming =
  in_bytes :: string
  in_end :: stream_end

definition utf8_error :: string where "utf8_error = ''invalid utf-8''"

text \<open>\<open>take(limit + 1).read_until\<close>: up to the terminator, at most one byte past the limit.\<close>

definition receive_frame ::
  "transport_config \<Rightarrow> incoming \<Rightarrow> (transport_error + string) \<times> incoming" where
  "receive_frame c r =
     (let limit = tc_max_frame_bytes c;
          window = take (limit + 1) (in_bytes r);
          line = takeWhile (\<lambda>b. b \<noteq> FRAME_TERMINATOR) window;
          found = length line < length window;
          buffer = (if found then line @ [FRAME_TERMINATOR] else window);
          r' = r\<lparr>in_bytes := drop (length buffer) (in_bytes r)\<rparr>
      in if found then
           (if valid_utf8 buffer then (Inr buffer, r') else (Inl (T_Malformed utf8_error), r'))
         else if length window = limit + 1 then (Inl (T_TooLong limit), r')
         else case in_end r of
           Eof \<Rightarrow> (Inl (T_Closed OpRead), r')
         | ReadFails e \<Rightarrow> (Inl (read_error c e), r'))"

definition receive ::
  "externs \<Rightarrow> (message_error \<Rightarrow> string) \<Rightarrow> transport_config \<Rightarrow> incoming \<Rightarrow>
   (transport_error + signed_message) \<times> incoming" where
  "receive X message_text c r =
     and_then (receive_frame c r) (\<lambda>frame r.
       (case parse_line X frame of Inl e \<Rightarrow> Inl (T_Malformed (message_text e)) | Inr m \<Rightarrow> Inr m, r))"

lemma receive_frame_shrinks:
  "receive_frame c r = (Inr frame, r') \<Longrightarrow> length (in_bytes r') < length (in_bytes r)"
  by (cases "in_bytes r")
    (auto simp: receive_frame_def Let_def split: if_splits stream_end.splits)

text \<open>The frames of a connection until the first error: the loop of \<open>serve_connection\<close>.\<close>

function receive_all :: "transport_config \<Rightarrow> incoming \<Rightarrow> string list \<times> transport_error" where
  "receive_all c r =
     (case receive_frame c r of
        (Inl e, r') \<Rightarrow> ([], e)
      | (Inr frame, r') \<Rightarrow> (let (frames, e) = receive_all c r' in (frame # frames, e)))"
  by pat_completeness auto

termination receive_all
  by (relation "measure (\<lambda>(c, r). length (in_bytes r))") (auto dest!: receive_frame_shrinks [OF sym])

section \<open>Delivering\<close>

datatype path = Direct | Relayed string

text \<open>\<open>direct\<close> dials the peer and writes a frame; \<open>relay\<close> is the seam, when one is wired.\<close>

definition no_relay :: "string \<Rightarrow> transport_error + unit" where
  "no_relay frame = Inl (T_RelayUnavailable ''no relay is configured'')"

definition deliver ::
  "externs \<Rightarrow> (string \<Rightarrow> transport_error + unit) \<Rightarrow> (string \<Rightarrow> transport_error + unit) option \<Rightarrow>
   signed_message \<Rightarrow> transport_error + path" where
  "deliver X direct relay m =
     (let frame = to_line X m
      in case direct frame of
           Inr _ \<Rightarrow> Inr Direct
         | Inl e \<Rightarrow>
             let after = transport_error_text e
             in case relay of
                  Some forward \<Rightarrow> (case forward frame of Inl e \<Rightarrow> Inl e | Inr _ \<Rightarrow> Inr (Relayed after))
                | None \<Rightarrow> Inl (T_RelayUnavailable after))"

section \<open>Frames arrive as they were sent\<close>

definition one_line :: "transport_config \<Rightarrow> string \<Rightarrow> bool" where
  "one_line c frame \<longleftrightarrow>
     valid_utf8 frame \<and> (\<exists>line. frame = line @ [FRAME_TERMINATOR] \<and> FRAME_TERMINATOR \<notin> set line \<and>
       length line \<le> tc_max_frame_bytes c)"

lemma receive_one_line:
  assumes "one_line c frame"
  shows "receive_frame c \<lparr>in_bytes = frame @ rest, in_end = e\<rparr> = (Inr frame, \<lparr>in_bytes = rest, in_end = e\<rparr>)"
proof -
  obtain line where frame: "frame = line @ [FRAME_TERMINATOR]" "FRAME_TERMINATOR \<notin> set line"
    and len: "length line \<le> tc_max_frame_bytes c"
    using assms by (auto simp: one_line_def)
  have "take (tc_max_frame_bytes c + 1) (frame @ rest) =
    line @ FRAME_TERMINATOR # take (tc_max_frame_bytes c - length line) rest"
    using frame(1) len by (simp add: Suc_diff_le)
  moreover have "takeWhile (\<lambda>b. b \<noteq> FRAME_TERMINATOR) (line @ FRAME_TERMINATOR # xs) = line" for xs
    using frame(2) by (subst takeWhile_append2) auto
  ultimately show ?thesis
    using assms frame(1) by (simp add: receive_frame_def Let_def one_line_def)
qed

declare receive_all.simps [simp del]

lemma receive_all_frames:
  "(\<And>f. f \<in> set frames \<Longrightarrow> one_line c f) \<Longrightarrow>
   receive_all c \<lparr>in_bytes = concat frames @ rest, in_end = e\<rparr> =
     (case receive_all c \<lparr>in_bytes = rest, in_end = e\<rparr> of (later, err) \<Rightarrow> (frames @ later, err))"
proof (induction frames)
  case (Cons f frames)
  have "receive_frame c \<lparr>in_bytes = f @ (concat frames @ rest), in_end = e\<rparr> =
    (Inr f, \<lparr>in_bytes = concat frames @ rest, in_end = e\<rparr>)"
    using Cons.prems by (intro receive_one_line) simp
  then show ?case
    using Cons by (subst receive_all.simps) (simp split: prod.split)
qed simp

end
