(* ===== verification/Net_Relay.thy ===== *)
theory Net_Relay
  imports Net_Discovery Net_Liveness Net_Transport
begin

text \<open>
  \<open>net/src/relay.rs\<close>, first half: the bodies nodes send their server, the online-status table, what a
  local frame is, the session table, and the routing rule. A socket is a handle; the bytes written to
  it and the ones that fail are the \<open>wires\<close>. A \<open>SocketAddr\<close> is its text.
\<close>

section \<open>Bodies\<close>

definition FIRST_GENERATION :: int where "FIRST_GENERATION = 1"
definition ONLINE_WINDOW_MS :: int where "ONLINE_WINDOW_MS = 3 * 15000"
definition KEY_EVENT_LOG :: nat where "KEY_EVENT_LOG = 256"

definition hello_body :: json where
  "hello_body = json_obj [(''hello'', JInt (int PROTOCOL_VERSION))]"

definition is_hello :: "json \<Rightarrow> bool" where "is_hello body = versioned_body ''hello'' body"

definition address_query_body :: "string \<Rightarrow> json" where
  "address_query_body node_id = json_obj [(''query'', JStr node_id)]"

definition address_query :: "json \<Rightarrow> string option" where
  "address_query body = Option.bind (json_get ''query'' body) as_str"

definition address_answer_body :: "string list \<Rightarrow> json" where
  "address_answer_body addresses = json_obj [(''addresses'', str_list addresses)]"

definition answered_addresses :: "json \<Rightarrow> string list option" where
  "answered_addresses body = Option.bind (json_get ''addresses'' body) (de_vec as_str)"

definition register_body :: "string list \<Rightarrow> string list \<Rightarrow> string list \<Rightarrow> json" where
  "register_body addresses capabilities rooms =
     json_obj [(''register'', JInt (int PROTOCOL_VERSION)), (''addresses'', str_list addresses),
               (''capabilities'', str_list capabilities), (''rooms'', str_list rooms)]"

definition is_register :: "json \<Rightarrow> bool" where "is_register body = versioned_body ''register'' body"

definition heartbeat_body :: json where
  "heartbeat_body = json_obj [(''heartbeat'', JInt (int PROTOCOL_VERSION))]"

definition is_heartbeat :: "json \<Rightarrow> bool" where "is_heartbeat body = versioned_body ''heartbeat'' body"

definition registered_body :: json where
  "registered_body = json_obj [(''registered'', JInt (int PROTOCOL_VERSION))]"

definition is_registered :: "json \<Rightarrow> bool" where "is_registered body = versioned_body ''registered'' body"

record chain_digest =
  cd_chain :: "string option"
  cd_length :: nat

definition digest_body :: "string option \<Rightarrow> nat \<Rightarrow> json" where
  "digest_body chain n =
     json_obj [(''digest'', JInt (int PROTOCOL_VERSION)), (''chain'', opt_str chain), (''length'', JInt (int n))]"

definition is_digest :: "json \<Rightarrow> bool" where "is_digest body = versioned_body ''digest'' body"

definition digest_to_body :: "chain_digest \<Rightarrow> json" where
  "digest_to_body d = digest_body (cd_chain d) (cd_length d)"

definition digest_of_body :: "json \<Rightarrow> chain_digest option" where
  "digest_of_body body =
     (if \<not> is_digest body then None
      else Option.bind (Option.bind (json_get ''length'' body) as_u64) (\<lambda>n.
           Some \<lparr>cd_chain = Option.bind (json_get ''chain'' body) as_str, cd_length = n\<rparr>))"

record key_event =
  ke_at_ms :: int
  ke_action :: string
  ke_detail :: json

definition key_event_body :: "int \<Rightarrow> string \<Rightarrow> json \<Rightarrow> json" where
  "key_event_body at_ms act detail =
     json_obj [(''key_event'', JInt (int PROTOCOL_VERSION)), (''at_ms'', JInt at_ms),
               (''action'', JStr act), (''detail'', detail)]"

definition is_key_event :: "json \<Rightarrow> bool" where "is_key_event body = versioned_body ''key_event'' body"

definition key_event_to_body :: "key_event \<Rightarrow> json" where
  "key_event_to_body e = key_event_body (ke_at_ms e) (ke_action e) (ke_detail e)"

definition key_event_of_body :: "json \<Rightarrow> key_event option" where
  "key_event_of_body body =
     (if \<not> is_key_event body then None
      else Option.bind (Option.bind (json_get ''at_ms'' body) as_i64) (\<lambda>at_ms.
           Option.bind (Option.bind (json_get ''action'' body) as_str) (\<lambda>act.
           Option.bind (json_get ''detail'' body) (\<lambda>detail.
           Some \<lparr>ke_at_ms = at_ms, ke_action = act, ke_detail = detail\<rparr>))))"

record registration =
  rn_addresses :: "string list"
  rn_capabilities :: "string list"
  rn_rooms :: "string list"

definition claimed :: "json \<Rightarrow> string \<Rightarrow> string list" where
  "claimed body k =
     (case Option.bind (json_get k body) (de_vec as_str) of None \<Rightarrow> [] | Some xs \<Rightarrow> xs)"

definition registration_of :: "json \<Rightarrow> registration option" where
  "registration_of body =
     (if \<not> is_register body then None
      else Some \<lparr>rn_addresses = claimed body ''addresses'', rn_capabilities = claimed body ''capabilities'',
                 rn_rooms = claimed body ''rooms''\<rparr>)"

section \<open>The online-status table\<close>

datatype online = Online | Offline

fun online_as_str :: "online \<Rightarrow> string" where
  "online_as_str Online = ''online''"
| "online_as_str Offline = ''offline''"

record online_entry =
  oe_node_id :: string
  oe_addresses :: "string list"
  oe_capabilities :: "string list"
  oe_rooms :: "string list"
  oe_last_heartbeat_ms :: int
  oe_judged_at_ms :: "int option"
  oe_state :: online

record online_row =
  or_addresses :: "string list"
  or_capabilities :: "string list"
  or_rooms :: "string list"
  or_last_heartbeat_ms :: int
  or_judged_at_ms :: "int option"

type_synonym online_table = "(string \<times> online_row) list"

definition register_row :: "string \<Rightarrow> registration \<Rightarrow> int \<Rightarrow> online_table \<Rightarrow> bool \<times> online_table" where
  "register_row node_id claims now t =
     (case map_of t node_id of
        Some row \<Rightarrow>
          (False, put node_id (row\<lparr>or_addresses := rn_addresses claims,
             or_capabilities := rn_capabilities claims, or_rooms := rn_rooms claims,
             or_last_heartbeat_ms := now\<rparr>) t)
      | None \<Rightarrow>
          (True, put node_id \<lparr>or_addresses = rn_addresses claims, or_capabilities = rn_capabilities claims,
             or_rooms = rn_rooms claims, or_last_heartbeat_ms = now, or_judged_at_ms = None\<rparr> t))"

definition beat :: "string \<Rightarrow> int \<Rightarrow> online_table \<Rightarrow> bool \<times> online_table" where
  "beat node_id now t =
     (case map_of t node_id of
        Some row \<Rightarrow> (True, put node_id (row\<lparr>or_last_heartbeat_ms := now\<rparr>) t)
      | None \<Rightarrow> (False, t))"

definition state_of :: "int \<Rightarrow> int \<Rightarrow> online" where
  "state_of last_heartbeat_ms now =
     (if i64_sub now last_heartbeat_ms \<le> ONLINE_WINDOW_MS then Online else Offline)"

definition online_rows :: "int \<Rightarrow> online_table \<Rightarrow> online_entry list" where
  "online_rows now t =
     map (\<lambda>(node_id, row).
       \<lparr>oe_node_id = node_id, oe_addresses = or_addresses row, oe_capabilities = or_capabilities row,
        oe_rooms = or_rooms row, oe_last_heartbeat_ms = or_last_heartbeat_ms row,
        oe_judged_at_ms = or_judged_at_ms row, oe_state = state_of (or_last_heartbeat_ms row) now\<rparr>) t"

definition online_row_at :: "string \<Rightarrow> int \<Rightarrow> online_table \<Rightarrow> online_entry option" where
  "online_row_at node_id now t = find (\<lambda>e. oe_node_id e = node_id) (online_rows now t)"

definition online_at :: "int \<Rightarrow> online_table \<Rightarrow> nat" where
  "online_at now t = length (filter (\<lambda>e. oe_state e = Online) (online_rows now t))"

definition is_online :: "online_table \<Rightarrow> int \<Rightarrow> string \<Rightarrow> bool" where
  "is_online t now node_id =
     (case online_row_at node_id now t of None \<Rightarrow> False | Some e \<Rightarrow> oe_state e = Online)"

definition mark_judged :: "string \<Rightarrow> int \<Rightarrow> online_table \<Rightarrow> bool \<times> online_table" where
  "mark_judged node_id now t =
     (case map_of t node_id of
        Some row \<Rightarrow>
          if or_judged_at_ms row = None then (True, put node_id (row\<lparr>or_judged_at_ms := Some now\<rparr>) t)
          else (False, t)
      | None \<Rightarrow> (False, t))"

definition clear_judged :: "string \<Rightarrow> online_table \<Rightarrow> int option \<times> online_table" where
  "clear_judged node_id t =
     (case map_of t node_id of
        Some row \<Rightarrow> (or_judged_at_ms row, put node_id (row\<lparr>or_judged_at_ms := None\<rparr>) t)
      | None \<Rightarrow> (None, t))"

definition heard_from :: "string \<Rightarrow> int \<Rightarrow> online_table \<Rightarrow> bool \<times> online_table" where
  "heard_from node_id now t =
     (case map_of t node_id of
        Some row \<Rightarrow> (True, put node_id (row\<lparr>or_last_heartbeat_ms := now\<rparr>) t)
      | None \<Rightarrow> (False, t))"

section \<open>What a local frame is\<close>

datatype local_action =
    L_Hello
  | L_Register registration
  | L_Heartbeat
  | L_Digest "string option" nat
  | L_KeyEvent int string json
  | L_UnreachableReport string
  | L_ReachableReport string
  | L_Addresses string
  | L_Registry
  | L_Unrecognised json

definition local_of :: "json \<Rightarrow> local_action" where
  "local_of body =
     (if is_hello body then L_Hello
      else case registration_of body of
        Some claims \<Rightarrow> L_Register claims
      | None \<Rightarrow>
          if is_heartbeat body then L_Heartbeat
          else case digest_of_body body of
            Some d \<Rightarrow> L_Digest (cd_chain d) (cd_length d)
          | None \<Rightarrow>
              (case key_event_of_body body of
                 Some e \<Rightarrow> L_KeyEvent (ke_at_ms e) (ke_action e) (ke_detail e)
               | None \<Rightarrow>
                   (case report_of body of
                      Some (Unreachable n) \<Rightarrow> L_UnreachableReport n
                    | Some (Reachable n) \<Rightarrow> L_ReachableReport n
                    | None \<Rightarrow>
                        if is_registry_request body then L_Registry
                        else case address_query body of
                          Some n \<Rightarrow> L_Addresses n
                        | None \<Rightarrow> L_Unrecognised body)))"

datatype local_reply =
    Silent
  | Registered string bool
  | Beat string
  | DigestTaken string nat
  | KeyEventTaken string string
  | Unplaced string
  | UnreachableReported string
  | ReachableReported string
  | AddressesSent "string list"
  | RegistrySent int
  | NotRecognised

section \<open>Routing\<close>

datatype routed = R_Local string string local_action | R_Forwarded string string

fun routed_from :: "routed \<Rightarrow> string" where
  "routed_from (R_Local f t a) = f"
| "routed_from (R_Forwarded f t) = f"

datatype relay_error =
    E_Malformed message_error
  | E_Refused verify_error
  | E_UnknownDestination string
  | E_NoSession string
  | E_Transport transport_error

fun relay_category :: "relay_error \<Rightarrow> category" where
  "relay_category (E_Malformed _) = Invalid"
| "relay_category (E_Refused e) = verify_category e"
| "relay_category (E_UnknownDestination _) = Refused"
| "relay_category (E_NoSession _) = Refused"
| "relay_category (E_Transport e) = transport_category e"

text \<open>
  The sockets: what was written to each handle, oldest first, and for a handle whose writes fail,
  how many bytes still go out and the error.
\<close>

record wires =
  wi_written :: "(nat \<times> string) list"
  wi_fails :: "nat \<Rightarrow> (nat \<times> string) option"

definition write_all :: "nat \<Rightarrow> string \<Rightarrow> wires \<Rightarrow> (string + unit) \<times> wires" where
  "write_all h bytes w =
     (case wi_fails w h of
        None \<Rightarrow> (Inr (), w\<lparr>wi_written := wi_written w @ [(h, bytes)]\<rparr>)
      | Some (n, why) \<Rightarrow> (Inl why, w\<lparr>wi_written := wi_written w @ [(h, take n bytes)]\<rparr>))"

record live =
  lv_id :: nat
  lv_addr :: string
  lv_writer :: nat

record session_table =
  ss_sessions :: "(string \<times> live) list"
  ss_next_id :: nat

definition new_sessions :: session_table where
  "new_sessions = \<lparr>ss_sessions = [], ss_next_id = 0\<rparr>"

definition bind_session :: "string \<Rightarrow> nat \<Rightarrow> string \<Rightarrow> session_table \<Rightarrow> nat \<times> session_table" where
  "bind_session node_id writer addr t =
     (ss_next_id t,
      t\<lparr>ss_sessions := put node_id \<lparr>lv_id = ss_next_id t, lv_addr = addr, lv_writer = writer\<rparr> (ss_sessions t),
        ss_next_id := (ss_next_id t + 1) mod 2 ^ 64\<rparr>)"

definition unbind_session :: "string \<Rightarrow> nat \<Rightarrow> session_table \<Rightarrow> bool \<times> session_table" where
  "unbind_session node_id i t =
     (case map_of (ss_sessions t) node_id of
        Some l \<Rightarrow> if lv_id l = i then (True, t\<lparr>ss_sessions := del node_id (ss_sessions t)\<rparr>) else (False, t)
      | None \<Rightarrow> (False, t))"

definition session_present :: "session_table \<Rightarrow> string \<Rightarrow> bool" where
  "session_present t node_id \<longleftrightarrow> map_of (ss_sessions t) node_id \<noteq> None"

definition address_of :: "session_table \<Rightarrow> string \<Rightarrow> string option" where
  "address_of t node_id = map_option lv_addr (map_of (ss_sessions t) node_id)"

definition forward_to :: "session_table \<Rightarrow> string \<Rightarrow> string \<Rightarrow> wires \<Rightarrow> (relay_error + unit) \<times> wires" where
  "forward_to t node_id frame w =
     (case map_of (ss_sessions t) node_id of
        None \<Rightarrow> (Inl (E_NoSession node_id), w)
      | Some l \<Rightarrow>
          (case write_all (lv_writer l) (frame_bytes frame) w of
             (Inl why, w) \<Rightarrow> (Inl (E_Transport (T_Io OpWrite why)), w)
           | (Inr _, w) \<Rightarrow> (Inr (), w)))"

text \<open>\<open>forwarder\<close> is the seam of the rule: anything that hands a frame on, over a state of its own.\<close>

definition route ::
  "externs \<Rightarrow> string \<Rightarrow> string \<Rightarrow> peers_file \<Rightarrow> peer_keys \<Rightarrow>
   (string \<Rightarrow> string \<Rightarrow> 'w \<Rightarrow> (relay_error + unit) \<times> 'w) \<Rightarrow> int \<Rightarrow>
   replay_guard \<Rightarrow> 'w \<Rightarrow> (relay_error + routed) \<times> replay_guard \<times> 'w" where
  "route X frame server_node_id peers keys forwarder now guard w =
     (case parse_line X frame of
        Inl e \<Rightarrow> (Inl (E_Malformed e), guard, w)
      | Inr m \<Rightarrow>
          if msg_to m = server_node_id then
            (case check_identity X m keys of
               Inl e \<Rightarrow> (Inl (E_Refused e), guard, w)
             | Inr _ \<Rightarrow>
                 let act = local_of (msg_body m)
                 in if act \<noteq> L_Hello then
                      (case guard_accept (msg_from m) (msg_ts m) (body_hash X (msg_body m)) now guard of
                         (Inl e, guard) \<Rightarrow> (Inl (E_Refused (verify_error_of e)), guard, w)
                       | (Inr _, guard) \<Rightarrow> (Inr (R_Local (msg_from m) (msg_to m) act), guard, w))
                    else (Inr (R_Local (msg_from m) (msg_to m) act), guard, w))
          else
            (case authenticate_forwarded X m keys now guard of
               (Inl e, guard) \<Rightarrow> (Inl (E_Refused e), guard, w)
             | (Inr _, guard) \<Rightarrow>
                 if peers_entry peers (msg_to m) = None then (Inl (E_UnknownDestination (msg_to m)), guard, w)
                 else (case forwarder (msg_to m) frame w of
                   (Inl e, w) \<Rightarrow> (Inl e, guard, w)
                 | (Inr _, w) \<Rightarrow> (Inr (R_Forwarded (msg_from m) (msg_to m)), guard, w))))"

section \<open>What routing does\<close>

lemma route_cases:
  assumes "route X frame us peers keys fw now g w = (r, g', w')"
  obtains (malformed) e where "parse_line X frame = Inl e" "r = Inl (E_Malformed e)" "g' = g" "w' = w"
  | (refused) m e where "parse_line X frame = Inr m" "r = Inl (E_Refused e)" "w' = w"
      "g' = g \<or> g' = snd (guard_accept (msg_from m) (msg_ts m) (body_hash X (msg_body m)) now g)"
  | (hello) m where "parse_line X frame = Inr m" "msg_to m = us" "check_identity X m keys = Inr ()"
      "local_of (msg_body m) = L_Hello" "r = Inr (R_Local (msg_from m) us L_Hello)" "g' = g" "w' = w"
  | (answered) m where "parse_line X frame = Inr m" "msg_to m = us" "check_identity X m keys = Inr ()"
      "local_of (msg_body m) \<noteq> L_Hello" "r = Inr (R_Local (msg_from m) us (local_of (msg_body m)))"
      "guard_accept (msg_from m) (msg_ts m) (body_hash X (msg_body m)) now g = (Inr (), g')" "w' = w"
  | (carried) m where "parse_line X frame = Inr m" "msg_to m \<noteq> us"
      "authenticate_forwarded X m keys now g = (Inr (), g')"
      "if peers_entry peers (msg_to m) = None then r = Inl (E_UnknownDestination (msg_to m)) \<and> w' = w
       else r = map_sum id (\<lambda>_. R_Forwarded (msg_from m) (msg_to m)) (fst (fw (msg_to m) frame w)) \<and>
         w' = snd (fw (msg_to m) frame w)"
proof (cases "parse_line X frame")
  case (Inl e)
  then show thesis using assms malformed by (simp add: route_def)
next
  case (Inr m)
  show thesis
  proof (cases "msg_to m = us")
    case True
    show thesis
    proof (cases "check_identity X m keys")
      case (Inl e)
      then show thesis using assms Inr True refused [of m e] by (simp add: route_def)
    next
      case ok: (Inr u)
      obtain a g1 where acc: "guard_accept (msg_from m) (msg_ts m) (body_hash X (msg_body m)) now g = (a, g1)"
        by force
      show thesis
        using assms Inr True ok acc hello [of m] answered [of m] refused [of m]
        by (cases a) (auto simp: route_def Let_def split: if_splits)
    qed
  next
    case False
    obtain a g1 where acc: "authenticate_forwarded X m keys now g = (a, g1)" by force
    have g1: "g1 = g \<or> g1 = snd (guard_accept (msg_from m) (msg_ts m) (body_hash X (msg_body m)) now g)"
      using acc by (auto simp: authenticate_forwarded_def and_then_def accept_message_simps split: sum.splits)
    show thesis
    proof (cases a)
      case (Inl e)
      then show thesis using assms Inr False acc g1 refused [of m e] by (simp add: route_def)
    next
      case ok: (Inr u)
      obtain b w1 where fw: "fw (msg_to m) frame w = (b, w1)" by force
      show thesis
        using assms Inr False acc ok fw by (cases b) (auto simp: route_def intro!: carried split: if_splits)
    qed
  qed
qed

lemma authenticate_forwarded_accepts:
  "authenticate_forwarded X m keys now g = (Inr (), g') \<Longrightarrow>
   check_identity X m keys = Inr () \<and>
   guard_accept (msg_from m) (msg_ts m) (body_hash X (msg_body m)) now g = (Inr (), g')"
  by (cases "guard_accept (msg_from m) (msg_ts m) (body_hash X (msg_body m)) now g")
    (auto simp: authenticate_forwarded_def and_then_def accept_message_def split: sum.splits)

lemma route_guard_keeps:
  assumes "remembered g k"
  shows "remembered (fst (snd (route X frame us peers keys fw now g w))) k"
proof -
  obtain r g' w' where r: "route X frame us peers keys fw now g w = (r, g', w')" by (metis prod_cases3)
  have keep: "remembered (snd (guard_accept f ts h now g)) k" for f ts h
    using assms by (rule guard_accept_keeps)
  have accepted: "remembered g' k" if "guard_accept f ts h now g = (Inr (), g')" for f ts h
    using keep [of f ts h] that by simp
  from r have "remembered g' k"
    by (cases rule: route_cases)
      (use assms keep accepted in \<open>auto dest!: authenticate_forwarded_accepts\<close>)
  then show ?thesis by (simp add: r)
qed

text \<open>A frame the server took, unless it was a hello.\<close>

definition frame_key :: "externs \<Rightarrow> string \<Rightarrow> (string \<times> int \<times> string) option" where
  "frame_key X frame = (case parse_line X frame of Inl _ \<Rightarrow> None | Inr m \<Rightarrow> Some (message_key X m))"

definition seen :: "replay_guard \<Rightarrow> (string \<times> int \<times> string) option \<Rightarrow> bool" where
  "seen g k \<longleftrightarrow> (case k of None \<Rightarrow> False | Some k \<Rightarrow> remembered g k)"

definition taken :: "(relay_error + routed) \<Rightarrow> bool" where
  "taken r \<longleftrightarrow> (case r of
     Inl _ \<Rightarrow> False
   | Inr (R_Local _ _ act) \<Rightarrow> act \<noteq> L_Hello
   | Inr (R_Forwarded _ _) \<Rightarrow> True)"

lemma route_taken_marks:
  assumes "route X frame us peers keys fw now g w = (r, g', w')" "taken r"
  shows "seen g' (frame_key X frame) \<and> \<not> seen g (frame_key X frame)"
proof -
  have mark: "remembered g' (f, ts, h) \<and> \<not> remembered g (f, ts, h)"
    if "guard_accept f ts h now g = (Inr (), g')" for f ts h
    using guard_accept_marks [OF that] guard_accept_refuses [of g f ts h now] that by auto
  from assms(1) show ?thesis
    by (cases rule: route_cases)
      (use assms(2) mark in \<open>auto simp: taken_def seen_def frame_key_def message_key_def
        dest!: authenticate_forwarded_accepts split: if_splits\<close>)
qed

section \<open>Local frames read as what they were sent as\<close>

lemma de_vec_opt [simp]: "Option.bind (Some (str_list xs)) (de_vec as_str) = Some xs"
  by (simp add: de_vec_str)

lemmas local_body_simps = local_of_def is_hello_def registration_of_def is_register_def is_heartbeat_def
  digest_of_body_def is_digest_def key_event_of_body_def is_key_event_def report_of_def
  is_registry_request_def address_query_def versioned_body_def json_get_obj claimed_def as_str_opt_str
  de_vec_str

lemma PROTOCOL_VERSION_le [simp]: "PROTOCOL_VERSION < 18446744073709551616"
  by (simp add: PROTOCOL_VERSION_def)

lemma local_of_bodies:
  "local_of hello_body = L_Hello"
  "local_of (register_body as cs rs) =
     L_Register \<lparr>rn_addresses = as, rn_capabilities = cs, rn_rooms = rs\<rparr>"
  "local_of heartbeat_body = L_Heartbeat"
  "n < 2 ^ 64 \<Longrightarrow> local_of (digest_body chain n) = L_Digest chain n"
  "is_i64 at_ms \<Longrightarrow> local_of (key_event_body at_ms act detail) = L_KeyEvent at_ms act detail"
  "local_of (unreachable_body p) = L_UnreachableReport p"
  "local_of (reachable_body p) = L_ReachableReport p"
  "local_of registry_request_body = L_Registry"
  "local_of (address_query_body p) = L_Addresses p"
  by (simp_all add: local_body_simps hello_body_def register_body_def heartbeat_body_def digest_body_def
      key_event_body_def unreachable_body_def reachable_body_def registry_request_body_def
      address_query_body_def)

end
