(* ===== verification/Net_Server.thy ===== *)
theory Net_Server
  imports Net_Relay
begin

text \<open>
  \<open>net/src/relay.rs\<close>, second half: the server's state, its answers to local frames, and the connections
  it serves. The clock a handler is called with and the clock it signs with are arguments. What the two
  sinks were handed is kept in the order it was handed; a sink that is not wired is handed nothing.
\<close>

section \<open>State\<close>

record server =
  sv_node_id :: string
  sv_key :: node_key
  sv_peers :: peers_file
  sv_keys :: peer_keys
  sv_rooms :: rooms_file
  sv_generation :: int
  sv_guard :: replay_guard
  sv_sessions :: session_table
  sv_online :: online_table
  sv_witnesses :: witness_table
  sv_digests :: "(string \<times> chain_digest) list"
  sv_key_events :: "(string \<times> key_event list) list"
  sv_transition_sink :: bool
  sv_transitions :: "transition list"
  sv_digest_sink :: bool
  sv_digest_facts :: "(string \<times> chain_digest) list"
  sv_wires :: wires

datatype relay_server_error = S_Peers entry_shape | S_Rooms rooms_error

definition server_new ::
  "externs \<Rightarrow> string \<Rightarrow> node_key \<Rightarrow> peers_file \<Rightarrow> rooms_file \<Rightarrow> wires \<Rightarrow> relay_server_error + server" where
  "server_new X node_id key peers rooms w =
     (case peers_keys X peers of
        Inl e \<Rightarrow> Inl (S_Peers e)
      | Inr keys \<Rightarrow>
          (case rooms_check rooms of
             Inl e \<Rightarrow> Inl (S_Rooms e)
           | Inr _ \<Rightarrow>
               Inr \<lparr>sv_node_id = node_id, sv_key = key, sv_peers = peers, sv_keys = keys, sv_rooms = rooms,
                    sv_generation = FIRST_GENERATION, sv_guard = new_guard, sv_sessions = new_sessions,
                    sv_online = [], sv_witnesses = [], sv_digests = [], sv_key_events = [],
                    sv_transition_sink = False, sv_transitions = [], sv_digest_sink = False,
                    sv_digest_facts = [], sv_wires = w\<rparr>))"

definition digest_of :: "server \<Rightarrow> string \<Rightarrow> chain_digest option" where
  "digest_of s node_id = map_of (sv_digests s) node_id"

definition key_events_of :: "server \<Rightarrow> string \<Rightarrow> key_event list" where
  "key_events_of s node_id = (case map_of (sv_key_events s) node_id of None \<Rightarrow> [] | Some l \<Rightarrow> l)"

definition set_transition_sink :: "server \<Rightarrow> server" where
  "set_transition_sink s = s\<lparr>sv_transition_sink := True\<rparr>"

definition set_digest_sink :: "server \<Rightarrow> server" where
  "set_digest_sink s = s\<lparr>sv_digest_sink := True\<rparr>"

definition fire_digest :: "string \<Rightarrow> chain_digest \<Rightarrow> server \<Rightarrow> server" where
  "fire_digest node_id d s =
     (if sv_digest_sink s then s\<lparr>sv_digest_facts := sv_digest_facts s @ [(node_id, d)]\<rparr> else s)"

definition fire :: "transition \<Rightarrow> server \<Rightarrow> server" where
  "fire t s = (if sv_transition_sink s then s\<lparr>sv_transitions := sv_transitions s @ [t]\<rparr> else s)"

definition server_judge :: "string \<Rightarrow> int \<Rightarrow> server \<Rightarrow> server" where
  "server_judge subject now s =
     (case judge (sv_witnesses s) subject now (is_online (sv_online s) now) of
        None \<Rightarrow> s
      | Some j \<Rightarrow>
          (case mark_judged (ju_peer j) now (sv_online s) of
             (newly, t) \<Rightarrow>
               let s = s\<lparr>sv_online := t\<rparr>
               in if newly then fire (Judged j) s else s))"

definition server_registry :: "server \<Rightarrow> registry" where
  "server_registry s =
     \<lparr>rg_table = \<lparr>nt_generation = sv_generation s, nt_entries = pf_peers (sv_peers s)\<rparr>,
      rg_rooms = sv_rooms s\<rparr>"

definition set_peers :: "externs \<Rightarrow> peers_file \<Rightarrow> server \<Rightarrow> (entry_shape + unit) \<times> server" where
  "set_peers X peers s =
     (case peers_keys X peers of
        Inl e \<Rightarrow> (Inl e, s)
      | Inr keys \<Rightarrow>
          (Inr (), s\<lparr>sv_peers := peers, sv_keys := keys, sv_generation := i64_add (sv_generation s) 1\<rparr>))"

definition set_rooms :: "rooms_file \<Rightarrow> server \<Rightarrow> (rooms_error + unit) \<times> server" where
  "set_rooms rooms s =
     (case rooms_check rooms of
        Inl e \<Rightarrow> (Inl e, s)
      | Inr _ \<Rightarrow> (Inr (), s\<lparr>sv_rooms := rooms, sv_generation := i64_add (sv_generation s) 1\<rparr>))"

section \<open>Routing and answering\<close>

definition server_route :: "externs \<Rightarrow> string \<Rightarrow> int \<Rightarrow> server \<Rightarrow> (relay_error + routed) \<times> server" where
  "server_route X frame now s =
     (case route X frame (sv_node_id s) (sv_peers s) (sv_keys s) (forward_to (sv_sessions s)) now
             (sv_guard s) (sv_wires s) of
        (r, guard, w) \<Rightarrow> (r, s\<lparr>sv_guard := guard, sv_wires := w\<rparr>))"

definition addresses_for :: "string \<Rightarrow> server \<Rightarrow> string list" where
  "addresses_for node_id s =
     (let live = (case address_of (sv_sessions s) node_id of None \<Rightarrow> [] | Some a \<Rightarrow> [a])
      in case peers_entry (sv_peers s) node_id of
           None \<Rightarrow> live
         | Some e \<Rightarrow>
             foldl (\<lambda>addresses a. if List.member addresses a then addresses else addresses @ [a])
               live (pe_addresses e))"

definition send_to ::
  "externs \<Rightarrow> string \<Rightarrow> json \<Rightarrow> int \<Rightarrow> server \<Rightarrow> (relay_error + unit) \<times> server" where
  "send_to X node_id body clock s =
     (case sign_message X (sv_key s) (sv_node_id s) node_id clock body of
        Inl e \<Rightarrow> (Inl (E_Malformed e), s)
      | Inr m \<Rightarrow>
          (case forward_to (sv_sessions s) node_id (to_line X m) (sv_wires s) of
             (r, w) \<Rightarrow> (r, s\<lparr>sv_wires := w\<rparr>)))"

text \<open>One key event into a node's log: once per action and moment, the newest 256.\<close>

definition log_key_event :: "key_event \<Rightarrow> key_event list \<Rightarrow> key_event list" where
  "log_key_event e l =
     (if list_ex (\<lambda>held. ke_action held = ke_action e \<and> ke_at_ms held = ke_at_ms e) l then l
      else let l = l @ [e] in drop (length l - KEY_EVENT_LOG) l)"

fun answer_local ::
  "externs \<Rightarrow> string \<Rightarrow> local_action \<Rightarrow> int \<Rightarrow> int \<Rightarrow> server \<Rightarrow> (relay_error + local_reply) \<times> server" where
  "answer_local X sender L_Hello now clock s = (Inr Silent, s)"
| "answer_local X sender (L_Unrecognised body) now clock s = (Inr NotRecognised, s)"
| "answer_local X sender (L_Register claims) now clock s =
     (case register_row sender claims now (sv_online s) of
        (fresh, t) \<Rightarrow>
          and_then (send_to X sender registered_body clock (s\<lparr>sv_online := t\<rparr>)) (\<lambda>_ s.
            (Inr (Registered sender fresh), s)))"
| "answer_local X sender L_Heartbeat now clock s =
     (case beat sender now (sv_online s) of
        (True, t) \<Rightarrow>
          (case clear_judged sender t of
             (held, t) \<Rightarrow>
               let s = s\<lparr>sv_online := t\<rparr>;
                   s = (if held \<noteq> None then fire (Recovered sender Heartbeat) s else s)
               in (Inr (Beat sender), s))
      | (False, t) \<Rightarrow> (Inr (Unplaced sender), s\<lparr>sv_online := t\<rparr>))"
| "answer_local X sender (L_Digest chain n) now clock s =
     (let d = \<lparr>cd_chain = chain, cd_length = n\<rparr>;
          s = fire_digest sender d (s\<lparr>sv_digests := put sender d (sv_digests s)\<rparr>)
      in (Inr (DigestTaken sender n), s))"
| "answer_local X sender (L_KeyEvent at_ms act detail) now clock s =
     (let e = \<lparr>ke_at_ms = at_ms, ke_action = act, ke_detail = detail\<rparr>
      in (Inr (KeyEventTaken sender act),
          s\<lparr>sv_key_events := put sender (log_key_event e (key_events_of s sender)) (sv_key_events s)\<rparr>))"
| "answer_local X sender (L_UnreachableReport node_id) now clock s =
     (let s = s\<lparr>sv_witnesses := record_report sender node_id False now (sv_witnesses s)\<rparr>
      in (Inr (UnreachableReported node_id), server_judge node_id now s))"
| "answer_local X sender (L_ReachableReport node_id) now clock s =
     (let s = s\<lparr>sv_witnesses := record_report sender node_id True now (sv_witnesses s)\<rparr>
      in case clear_judged node_id (sv_online s) of
           (held, t) \<Rightarrow>
             let s = s\<lparr>sv_online := t\<rparr>;
                 s = (if held \<noteq> None then
                        fire (Recovered node_id Probe)
                          (s\<lparr>sv_online := snd (heard_from node_id now (sv_online s))\<rparr>)
                      else s)
             in (Inr (ReachableReported node_id), s))"
| "answer_local X sender (L_Addresses node_id) now clock s =
     (let addresses = addresses_for node_id s
      in and_then (send_to X sender (address_answer_body addresses) clock s) (\<lambda>_ s.
           (Inr (AddressesSent addresses), s)))"
| "answer_local X sender L_Registry now clock s =
     (let g = server_registry s
      in and_then (send_to X sender (registry_to_body g) clock s) (\<lambda>_ s.
           (Inr (RegistrySent (nt_generation (rg_table g))), s)))"

section \<open>Serving a connection\<close>

text \<open>
  A connection: the socket handle, where it dialled in from, and what it is bound to. One read of the
  loop of \<open>serve_connection\<close>, and what its end does. \<open>clone\<close> says whether the socket could be cloned.
\<close>

record connection =
  cn_socket :: nat
  cn_addr :: string
  cn_bound :: "(string \<times> nat) option"

definition new_connection :: "nat \<Rightarrow> string \<Rightarrow> connection" where
  "new_connection socket addr = \<lparr>cn_socket = socket, cn_addr = addr, cn_bound = None\<rparr>"

definition serve_frame ::
  "externs \<Rightarrow> string \<Rightarrow> int \<Rightarrow> int \<Rightarrow> bool \<Rightarrow> connection \<Rightarrow> server \<Rightarrow> connection \<times> server" where
  "serve_frame X frame now clock clone c s =
     (case server_route X frame now s of
        (Inl e, s) \<Rightarrow> (c, s)
      | (Inr routed, s) \<Rightarrow>
          (let (c, s) =
             (if cn_bound c = None \<and> clone then
                (case bind_session (routed_from routed) (cn_socket c) (cn_addr c) (sv_sessions s) of
                   (i, t) \<Rightarrow> (c\<lparr>cn_bound := Some (routed_from routed, i)\<rparr>, s\<lparr>sv_sessions := t\<rparr>))
              else (c, s))
           in case routed of
                R_Local sender dest act \<Rightarrow> (c, snd (answer_local X sender act now clock s))
              | R_Forwarded sender dest \<Rightarrow> (c, s)))"

definition serve_end :: "connection \<Rightarrow> server \<Rightarrow> server" where
  "serve_end c s =
     (case cn_bound c of
        None \<Rightarrow> s
      | Some (node_id, i) \<Rightarrow> s\<lparr>sv_sessions := snd (unbind_session node_id i (sv_sessions s))\<rparr>)"

section \<open>What an answer touches\<close>

lemma send_to_wires: "snd (send_to X n body clock s) = s\<lparr>sv_wires := sv_wires (snd (send_to X n body clock s))\<rparr>"
  by (auto simp: send_to_def split: sum.split prod.split)

lemma send_to_fields [simp]:
  "sv_sessions (snd (send_to X n body clock s)) = sv_sessions s"
  "sv_guard (snd (send_to X n body clock s)) = sv_guard s"
  "sv_online (snd (send_to X n body clock s)) = sv_online s"
  "sv_transitions (snd (send_to X n body clock s)) = sv_transitions s"
  "sv_transition_sink (snd (send_to X n body clock s)) = sv_transition_sink s"
  "sv_key_events (snd (send_to X n body clock s)) = sv_key_events s"
  "sv_keys (snd (send_to X n body clock s)) = sv_keys s"
  "sv_node_id (snd (send_to X n body clock s)) = sv_node_id s"
  by (subst send_to_wires; simp)+

lemma fire_fields [simp]:
  "sv_sessions (fire t s) = sv_sessions s" "sv_guard (fire t s) = sv_guard s"
  "sv_online (fire t s) = sv_online s" "sv_key_events (fire t s) = sv_key_events s"
  "sv_transition_sink (fire t s) = sv_transition_sink s" "sv_wires (fire t s) = sv_wires s"
  "sv_keys (fire t s) = sv_keys s" "sv_node_id (fire t s) = sv_node_id s"
  "sv_sessions (fire_digest n d s) = sv_sessions s" "sv_guard (fire_digest n d s) = sv_guard s"
  "sv_online (fire_digest n d s) = sv_online s" "sv_key_events (fire_digest n d s) = sv_key_events s"
  "sv_transition_sink (fire_digest n d s) = sv_transition_sink s"
  "sv_transitions (fire_digest n d s) = sv_transitions s" "sv_keys (fire_digest n d s) = sv_keys s"
  "sv_node_id (fire_digest n d s) = sv_node_id s"
  by (simp_all add: fire_def fire_digest_def)

lemma server_judge_fields [simp]:
  "sv_sessions (server_judge p now s) = sv_sessions s" "sv_guard (server_judge p now s) = sv_guard s"
  "sv_key_events (server_judge p now s) = sv_key_events s" "sv_keys (server_judge p now s) = sv_keys s"
  "sv_transition_sink (server_judge p now s) = sv_transition_sink s"
  "sv_node_id (server_judge p now s) = sv_node_id s"
  by (auto simp: server_judge_def Let_def split: option.split prod.split)

lemma snd_and_then_reply: "snd (and_then r (\<lambda>_ s. (Inr (f s), s))) = snd r"
  by (cases r) (auto simp: and_then_def split: sum.split)

lemma answer_local_fields [simp]:
  "sv_sessions (snd (answer_local X f a now clock s)) = sv_sessions s"
  "sv_guard (snd (answer_local X f a now clock s)) = sv_guard s"
  "sv_keys (snd (answer_local X f a now clock s)) = sv_keys s"
  "sv_node_id (snd (answer_local X f a now clock s)) = sv_node_id s"
  "sv_transition_sink (snd (answer_local X f a now clock s)) = sv_transition_sink s"
  by (cases a; force simp: snd_and_then_reply Let_def split: prod.split bool.split)+

section \<open>Judgements alternate\<close>

fun transition_peer :: "transition \<Rightarrow> string" where
  "transition_peer (Judged j) = ju_peer j"
| "transition_peer (Recovered p m) = p"

definition is_judged :: "transition \<Rightarrow> bool" where
  "is_judged t \<longleftrightarrow> (case t of Judged _ \<Rightarrow> True | _ \<Rightarrow> False)"

definition marks_of :: "string \<Rightarrow> transition list \<Rightarrow> bool list" where
  "marks_of p ts = map is_judged (filter (\<lambda>t. transition_peer t = p) ts)"

text \<open>Judged first, then recovered, then judged: one after the other.\<close>

fun alternating :: "bool \<Rightarrow> bool list \<Rightarrow> bool" where
  "alternating b [] \<longleftrightarrow> True"
| "alternating b (x # xs) \<longleftrightarrow> x = b \<and> alternating (\<not> b) xs"

lemma alternating_snoc: "alternating b (xs @ [x]) \<longleftrightarrow> alternating b xs \<and> x = (b = even (length xs))"
  by (induction xs arbitrary: b) auto

definition judged_now :: "online_table \<Rightarrow> string \<Rightarrow> bool" where
  "judged_now t p \<longleftrightarrow> (\<exists>row. map_of t p = Some row \<and> or_judged_at_ms row \<noteq> None)"

definition judgement_inv :: "server \<Rightarrow> bool" where
  "judgement_inv s \<longleftrightarrow> sv_transition_sink s \<longrightarrow>
     (\<forall>p. alternating True (marks_of p (sv_transitions s)) \<and>
        (judged_now (sv_online s) p \<longleftrightarrow> odd (length (marks_of p (sv_transitions s)))))"

lemma marks_of_snoc:
  "marks_of p (ts @ [t]) = marks_of p ts @ (if transition_peer t = p then [is_judged t] else [])"
  by (simp add: marks_of_def)

lemma judgement_inv_fire:
  assumes "judgement_inv s" "judged_now (sv_online s) (transition_peer t) \<noteq> is_judged t"
    "\<And>p. judged_now tab p \<longleftrightarrow> (if p = transition_peer t then is_judged t else judged_now (sv_online s) p)"
  shows "judgement_inv (fire t (s\<lparr>sv_online := tab\<rparr>))"
  using assms by (auto simp: judgement_inv_def fire_def marks_of_snoc alternating_snoc)

lemma judgement_inv_same:
  assumes "judgement_inv s" "\<And>p. judged_now (sv_online s') p \<longleftrightarrow> judged_now (sv_online s) p"
    "sv_transitions s' = sv_transitions s" "sv_transition_sink s' = sv_transition_sink s"
  shows "judgement_inv s'"
  using assms by (simp add: judgement_inv_def)

lemma judged_now_table:
  "judged_now (snd (register_row n claims now t)) p \<longleftrightarrow> judged_now t p"
  "judged_now (snd (beat n now t)) p \<longleftrightarrow> judged_now t p"
  "judged_now (snd (heard_from n now t)) p \<longleftrightarrow> judged_now t p"
  "judged_now (snd (clear_judged n t)) p \<longleftrightarrow> p \<noteq> n \<and> judged_now t p"
  "fst (clear_judged n t) \<noteq> None \<longleftrightarrow> judged_now t n"
  "judged_now (snd (mark_judged n now t)) p \<longleftrightarrow>
     judged_now t p \<or> (p = n \<and> map_of t n \<noteq> None)"
  "fst (mark_judged n now t) \<longleftrightarrow> map_of t n \<noteq> None \<and> \<not> judged_now t n"
  by (auto simp: judged_now_def register_row_def beat_def heard_from_def clear_judged_def mark_judged_def
      split: option.split)

lemma judge_peer: "judge t subject now f = Some j \<Longrightarrow> ju_peer j = subject"
  by (simp add: judge_Some)

lemma judgement_inv_judge: "judgement_inv s \<Longrightarrow> judgement_inv (server_judge p now s)"
proof (cases "judge (sv_witnesses s) p now (is_online (sv_online s) now)")
  case (Some j)
  assume inv: "judgement_inv s"
  obtain newly t where mark: "mark_judged (ju_peer j) now (sv_online s) = (newly, t)" by force
  have table: "judged_now t q \<longleftrightarrow> judged_now (sv_online s) q \<or> (q = ju_peer j \<and> map_of (sv_online s) q \<noteq> None)"
    "newly \<longleftrightarrow> map_of (sv_online s) (ju_peer j) \<noteq> None \<and> \<not> judged_now (sv_online s) (ju_peer j)" for q
    using judged_now_table(6,7) [of "ju_peer j" now "sv_online s"] mark by auto
  show ?thesis
  proof (cases newly)
    case True
    have "judgement_inv (fire (Judged j) (s\<lparr>sv_online := t\<rparr>))"
      by (rule judgement_inv_fire [OF inv]) (use table True in \<open>auto simp: is_judged_def\<close>)
    then show ?thesis using Some mark True by (simp add: server_judge_def)
  next
    case False
    have "judgement_inv (s\<lparr>sv_online := t\<rparr>)"
      by (rule judgement_inv_same [OF inv]) (use table False in auto)
    then show ?thesis using Some mark False by (simp add: server_judge_def)
  qed
qed (simp add: server_judge_def)

lemma judgement_inv_clear:
  assumes inv: "judgement_inv s" and cleared: "clear_judged n (sv_online s) = (held, t)"
  shows "held \<noteq> None \<Longrightarrow> judgement_inv (fire (Recovered n m) (s\<lparr>sv_online := t\<rparr>))"
    and "held = None \<Longrightarrow> judgement_inv (s\<lparr>sv_online := t\<rparr>)"
proof -
  have table: "judged_now t q \<longleftrightarrow> q \<noteq> n \<and> judged_now (sv_online s) q"
    "held \<noteq> None \<longleftrightarrow> judged_now (sv_online s) n" for q
    using judged_now_table(4,5) [of n "sv_online s"] cleared by simp_all
  show "judgement_inv (fire (Recovered n m) (s\<lparr>sv_online := t\<rparr>))" if "held \<noteq> None"
    by (rule judgement_inv_fire [OF inv]) (use table that in \<open>auto simp: is_judged_def\<close>)
  show "judgement_inv (s\<lparr>sv_online := t\<rparr>)" if "held = None"
    by (rule judgement_inv_same [OF inv]) (use table that in auto)
qed

lemma judgement_inv_answer: "judgement_inv s \<Longrightarrow> judgement_inv (snd (answer_local X f a now clock s))"
proof (cases a)
  case (L_Register claims)
  assume "judgement_inv s"
  then show ?thesis
    using judged_now_table(1) [of f claims now "sv_online s"]
    by (auto simp: L_Register snd_and_then_reply split: prod.split intro: judgement_inv_same)
next
  case L_Heartbeat
  assume inv: "judgement_inv s"
  obtain ok t where beat: "beat f now (sv_online s) = (ok, t)" by force
  then have t: "judgement_inv (s\<lparr>sv_online := t\<rparr>)"
    using judged_now_table(2) [of f now "sv_online s"] by (auto intro: judgement_inv_same [OF inv])
  obtain held t' where cleared: "clear_judged f t = (held, t')" by force
  with judgement_inv_clear [OF t, of f held t'] show ?thesis
    using beat t by (cases ok) (auto simp: L_Heartbeat Let_def)
next
  case (L_ReachableReport n)
  assume inv: "judgement_inv s"
  define s1 where "s1 = s\<lparr>sv_witnesses := record_report f n True now (sv_witnesses s)\<rparr>"
  have s1: "judgement_inv s1" by (rule judgement_inv_same [OF inv]) (simp_all add: s1_def)
  obtain held t where cleared: "clear_judged n (sv_online s1) = (held, t)" by force
  have heard: "judgement_inv (fire (Recovered n Probe) (s1\<lparr>sv_online := snd (heard_from n now t)\<rparr>))"
    if "held \<noteq> None"
    by (rule judgement_inv_same [OF judgement_inv_clear(1) [OF s1 cleared that, of Probe]])
      (simp_all add: judged_now_table(3) fire_def)
  show ?thesis
    using heard judgement_inv_clear(2) [OF s1 cleared] cleared
    by (auto simp: L_ReachableReport Let_def simp flip: s1_def)
next
  case (L_UnreachableReport n)
  assume inv: "judgement_inv s"
  have "judgement_inv (s\<lparr>sv_witnesses := record_report f n False now (sv_witnesses s)\<rparr>)"
    by (rule judgement_inv_same [OF inv]) simp_all
  then show ?thesis by (simp add: L_UnreachableReport judgement_inv_judge Let_def)
qed (auto simp: snd_and_then_reply Let_def intro: judgement_inv_same)

end
