(* ===== verification/Net_System.thy ===== *)
theory Net_System
  imports Net_Server
begin

text \<open>
  The server and its open connections as one machine: \<open>RelayServer::serve\<close> with any interleaving of
  the connections it serves. A handler runs to its end before the next one starts; the sources hold
  one lock per table, so two handlers can interleave between tables, which is not modelled.
\<close>

section \<open>The machine\<close>

record relay_system =
  sy_server :: server
  sy_connections :: "connection list"
  sy_next_socket :: nat

datatype sys_op =
    Dial string
  | Arrive nat string int int bool
  | HangUp nat
  | SetPeers peers_file
  | SetRooms rooms_file

definition find_connection :: "nat \<Rightarrow> connection list \<Rightarrow> connection option" where
  "find_connection h cs = find (\<lambda>c. cn_socket c = h) cs"

fun sys_step :: "externs \<Rightarrow> sys_op \<Rightarrow> relay_system \<Rightarrow> relay_system" where
  "sys_step X (Dial addr) y =
     y\<lparr>sy_connections := sy_connections y @ [new_connection (sy_next_socket y) addr],
       sy_next_socket := sy_next_socket y + 1\<rparr>"
| "sys_step X (Arrive h frame now clock clone) y =
     (case find_connection h (sy_connections y) of
        None \<Rightarrow> y
      | Some c \<Rightarrow>
          (case serve_frame X frame now clock clone c (sy_server y) of
             (c', s) \<Rightarrow>
               y\<lparr>sy_server := s,
                 sy_connections := map (\<lambda>d. if cn_socket d = h then c' else d) (sy_connections y)\<rparr>))"
| "sys_step X (HangUp h) y =
     (case find_connection h (sy_connections y) of
        None \<Rightarrow> y
      | Some c \<Rightarrow>
          y\<lparr>sy_server := serve_end c (sy_server y),
            sy_connections := filter (\<lambda>d. cn_socket d \<noteq> h) (sy_connections y)\<rparr>)"
| "sys_step X (SetPeers peers) y = y\<lparr>sy_server := snd (set_peers X peers (sy_server y))\<rparr>"
| "sys_step X (SetRooms rooms) y = y\<lparr>sy_server := snd (set_rooms rooms (sy_server y))\<rparr>"

lemma find_connection_Some: "find_connection h cs = Some c \<Longrightarrow> c \<in> set cs \<and> cn_socket c = h"
  by (auto simp: find_connection_def find_Some_iff)

lemma find_connection_None: "find_connection h cs = None \<longleftrightarrow> h \<notin> cn_socket ` set cs"
  by (auto simp: find_connection_def find_None_iff)

section \<open>Sessions are open connections\<close>

definition sessions_live :: "relay_system \<Rightarrow> bool" where
  "sessions_live y \<longleftrightarrow>
     distinct (map cn_socket (sy_connections y)) \<and>
     (\<forall>c \<in> set (sy_connections y). cn_socket c < sy_next_socket y) \<and>
     (\<forall>n l. map_of (ss_sessions (sv_sessions (sy_server y))) n = Some l \<longrightarrow>
        (\<exists>c \<in> set (sy_connections y). cn_socket c = lv_writer l \<and> cn_bound c = Some (n, lv_id l)))"

lemma server_route_fields [simp]:
  "sv_sessions (snd (server_route X frame now s)) = sv_sessions s"
  "sv_online (snd (server_route X frame now s)) = sv_online s"
  "sv_transitions (snd (server_route X frame now s)) = sv_transitions s"
  "sv_transition_sink (snd (server_route X frame now s)) = sv_transition_sink s"
  "sv_key_events (snd (server_route X frame now s)) = sv_key_events s"
  "sv_keys (snd (server_route X frame now s)) = sv_keys s"
  "sv_node_id (snd (server_route X frame now s)) = sv_node_id s"
  by (auto simp: server_route_def split: prod.split)

lemma serve_frame_cases:
  obtains (refused) e where "fst (server_route X frame now s) = Inl e"
    "serve_frame X frame now clock clone c s = (c, snd (server_route X frame now s))"
  | (routed) r c' s1 where "fst (server_route X frame now s) = Inr r"
    "cn_socket c' = cn_socket c"
    "(c' = c \<and> s1 = snd (server_route X frame now s)) \<or>
     (cn_bound c = None \<and> cn_bound c' = Some (routed_from r, ss_next_id (sv_sessions s)) \<and>
      s1 = (snd (server_route X frame now s))
        \<lparr>sv_sessions := snd (bind_session (routed_from r) (cn_socket c) (cn_addr c) (sv_sessions s))\<rparr>)"
    "serve_frame X frame now clock clone c s =
      (c', case r of R_Local f t a \<Rightarrow> snd (answer_local X f a now clock s1) | R_Forwarded f t \<Rightarrow> s1)"
proof (cases "server_route X frame now s")
  case (Pair r s')
  then have s': "s' = snd (server_route X frame now s)" by simp
  show thesis
  proof (cases r)
    case (Inl e)
    then show thesis using Pair that(1) by (simp add: serve_frame_def)
  next
    case (Inr rt)
    define bnd where "bnd = bind_session (routed_from rt) (cn_socket c) (cn_addr c) (sv_sessions s')"
    have id: "fst bnd = ss_next_id (sv_sessions s)" "sv_sessions s' = sv_sessions s"
      by (simp_all add: bnd_def s' bind_session_def)
    show thesis
    proof (cases "cn_bound c = None \<and> clone")
      case True
      then show thesis
        using Pair Inr id
        by (intro that(2) [of rt "c\<lparr>cn_bound := Some (routed_from rt, fst bnd)\<rparr>"
              "s'\<lparr>sv_sessions := snd bnd\<rparr>"])
          (auto simp: serve_frame_def bnd_def bind_session_def split: routed.split)
    next
      case False
      then show thesis
        using Pair Inr
        by (intro that(2) [of rt c s']) (auto simp: serve_frame_def split: routed.split)
    qed
  qed
qed

lemma serve_frame_sessions:
  "cn_socket (fst (serve_frame X frame now clock clone c s)) = cn_socket c \<and>
   ((cn_bound (fst (serve_frame X frame now clock clone c s)) = cn_bound c \<and>
     sv_sessions (snd (serve_frame X frame now clock clone c s)) = sv_sessions s) \<or>
    (\<exists>n. cn_bound c = None \<and>
       cn_bound (fst (serve_frame X frame now clock clone c s)) = Some (n, ss_next_id (sv_sessions s)) \<and>
       sv_sessions (snd (serve_frame X frame now clock clone c s)) =
         snd (bind_session n (cn_socket c) (cn_addr c) (sv_sessions s))))"
  by (rule serve_frame_cases [of X frame now s clock clone c]) (auto split: routed.split)

lemma sessions_live_step: "sessions_live y \<Longrightarrow> sessions_live (sys_step X op y)"
proof (cases op)
  case (Dial addr)
  then show "sessions_live y \<Longrightarrow> ?thesis"
    by (fastforce simp: sessions_live_def new_connection_def)
next
  case (Arrive h frame now clock clone)
  assume live: "sessions_live y"
  show ?thesis
  proof (cases "find_connection h (sy_connections y)")
    case None
    then show ?thesis using live Arrive by simp
  next
    case (Some c)
    then have c: "c \<in> set (sy_connections y)" "cn_socket c = h" by (simp_all add: find_connection_Some)
    obtain c' s' where step: "serve_frame X frame now clock clone c (sy_server y) = (c', s')" by force
    let ?cs = "map (\<lambda>d. if cn_socket d = h then c' else d) (sy_connections y)"
    have frame: "cn_socket c' = h" and new: "(cn_bound c' = cn_bound c \<and> sv_sessions s' = sv_sessions (sy_server y)) \<or>
       (\<exists>n. cn_bound c = None \<and> cn_bound c' = Some (n, ss_next_id (sv_sessions (sy_server y))) \<and>
         sv_sessions s' = snd (bind_session n h (cn_addr c) (sv_sessions (sy_server y))))"
      using serve_frame_sessions [of X frame now clock clone c "sy_server y"] step c by auto
    have sockets: "map cn_socket ?cs = map cn_socket (sy_connections y)"
      using frame by (simp add: comp_def)
    have only: "d = c" if "d \<in> set (sy_connections y)" "cn_socket d = h" for d
      using that c live by (auto simp: sessions_live_def distinct_map dest: inj_onD)
    have keep: "\<exists>d \<in> set ?cs. cn_socket d = lv_writer l \<and> cn_bound d = Some (n, lv_id l)"
      if "map_of (ss_sessions (sv_sessions (sy_server y))) n = Some l" "cn_bound c' = cn_bound c \<or> cn_bound c = None" for n l
    proof -
      note entry = that(1)
      obtain d where d: "d \<in> set (sy_connections y)" "cn_socket d = lv_writer l" "cn_bound d = Some (n, lv_id l)"
        using live entry unfolding sessions_live_def by blast
      show ?thesis
      proof (cases "cn_socket d = h")
        case True
        then have "d = c" using only d by blast
        then have "c' \<in> set ?cs" "cn_bound c' = Some (n, lv_id l)" using that(2) d c by force+
        then show ?thesis using d(2) True frame by auto
      next
        case False
        then have "d \<in> set ?cs" using d by force
        then show ?thesis using d by blast
      qed
    qed
    have c'_in: "c' \<in> set ?cs" using c by force
    have "\<exists>d \<in> set ?cs. cn_socket d = lv_writer l \<and> cn_bound d = Some (n, lv_id l)"
      if "map_of (ss_sessions (sv_sessions s')) n = Some l" for n l
      using new
    proof
      assume "cn_bound c' = cn_bound c \<and> sv_sessions s' = sv_sessions (sy_server y)"
      then show ?thesis using that keep by auto
    next
      assume "\<exists>n. cn_bound c = None \<and> cn_bound c' = Some (n, ss_next_id (sv_sessions (sy_server y))) \<and>
         sv_sessions s' = snd (bind_session n h (cn_addr c) (sv_sessions (sy_server y)))"
      then obtain m where m: "cn_bound c = None" "cn_bound c' = Some (m, ss_next_id (sv_sessions (sy_server y)))"
        "sv_sessions s' = snd (bind_session m h (cn_addr c) (sv_sessions (sy_server y)))" by blast
      show ?thesis
      proof (cases "n = m")
        case True
        then show ?thesis using that m c'_in frame by (auto simp: bind_session_def)
      next
        case False
        then show ?thesis using that m keep by (auto simp: bind_session_def)
      qed
    qed
    moreover have "\<forall>d \<in> set ?cs. cn_socket d < sy_next_socket y"
      using live c frame by (auto simp: sessions_live_def)
    moreover have "distinct (map cn_socket ?cs)" using live sockets by (simp only: sessions_live_def)
    ultimately show ?thesis using Some Arrive step by (simp add: sessions_live_def)
  qed
next
  case (HangUp h)
  assume live: "sessions_live y"
  show ?thesis
  proof (cases "find_connection h (sy_connections y)")
    case None
    then show ?thesis using live HangUp by simp
  next
    case (Some c)
    then have c: "c \<in> set (sy_connections y)" "cn_socket c = h" by (simp_all add: find_connection_Some)
    have only: "d = c" if "d \<in> set (sy_connections y)" "cn_socket d = h" for d
      using that c live by (auto simp: sessions_live_def distinct_map dest: inj_onD)
    have gone: "cn_bound c \<noteq> Some (n, lv_id l) \<and> map_of (ss_sessions (sv_sessions (sy_server y))) n = Some l"
      if "map_of (ss_sessions (sv_sessions (serve_end c (sy_server y)))) n = Some l" for n l
      using that
      by (auto simp: serve_end_def unbind_session_def split: option.splits prod.splits if_splits)
    have "\<exists>d \<in> set (filter (\<lambda>d. cn_socket d \<noteq> h) (sy_connections y)).
        cn_socket d = lv_writer l \<and> cn_bound d = Some (n, lv_id l)"
      if "map_of (ss_sessions (sv_sessions (serve_end c (sy_server y)))) n = Some l" for n l
    proof -
      note kept = gone [OF that]
      obtain d where d: "d \<in> set (sy_connections y)" "cn_socket d = lv_writer l" "cn_bound d = Some (n, lv_id l)"
        using live kept unfolding sessions_live_def by blast
      moreover have "cn_socket d \<noteq> h" using only [OF d(1)] kept d(3) by auto
      ultimately show ?thesis by auto
    qed
    moreover have "distinct (map cn_socket (filter (\<lambda>d. cn_socket d \<noteq> h) (sy_connections y)))"
      using live by (simp add: sessions_live_def distinct_map inj_on_def)
    ultimately show ?thesis using live Some HangUp by (simp add: sessions_live_def)
  qed
qed (auto simp: sessions_live_def set_peers_def set_rooms_def split: sum.split)

section \<open>Nothing a frame was answered with is forgotten\<close>

definition guard_of :: "relay_system \<Rightarrow> replay_guard" where
  "guard_of y = sv_guard (sy_server y)"

definition online_of :: "relay_system \<Rightarrow> online_table" where
  "online_of y = sv_online (sy_server y)"

lemma server_route_guard:
  "remembered (sv_guard s) k \<Longrightarrow> remembered (sv_guard (snd (server_route X frame now s))) k"
  using route_guard_keeps [of "sv_guard s" k X frame "sv_node_id s" "sv_peers s" "sv_keys s"
      "forward_to (sv_sessions s)" now "sv_wires s"]
  by (auto simp: server_route_def split: prod.splits)

lemma serve_frame_guard [simp]:
  "sv_guard (snd (serve_frame X frame now clock clone c s)) = sv_guard (snd (server_route X frame now s))"
  by (rule serve_frame_cases [of X frame now s clock clone c]) (auto split: routed.split)

lemma serve_frame_sink [simp]:
  "sv_transition_sink (snd (serve_frame X frame now clock clone c s)) = sv_transition_sink s"
  by (rule serve_frame_cases [of X frame now s clock clone c]) (auto split: routed.split)

lemma serve_end_fields [simp]:
  "sv_guard (serve_end c s) = sv_guard s" "sv_online (serve_end c s) = sv_online s"
  "sv_transitions (serve_end c s) = sv_transitions s" "sv_key_events (serve_end c s) = sv_key_events s"
  "sv_transition_sink (serve_end c s) = sv_transition_sink s"
  by (auto simp: serve_end_def split: option.split)

lemma online_dom_table:
  "dom (map_of t) \<subseteq> dom (map_of (snd (register_row n claims now t)))"
  "dom (map_of (snd (beat n now t))) = dom (map_of t)"
  "dom (map_of (snd (heard_from n now t))) = dom (map_of t)"
  "dom (map_of (snd (clear_judged n t))) = dom (map_of t)"
  "dom (map_of (snd (mark_judged n now t))) = dom (map_of t)"
  by (auto simp: register_row_def beat_def heard_from_def clear_judged_def mark_judged_def split: option.split)

lemma online_dom_judge: "dom (map_of (sv_online (server_judge p now s))) = dom (map_of (sv_online s))"
proof (cases "judge (sv_witnesses s) p now (is_online (sv_online s) now)")
  case (Some j)
  obtain newly t where "mark_judged (ju_peer j) now (sv_online s) = (newly, t)" by force
  then show ?thesis
    using Some online_dom_table(5) [of "ju_peer j" now "sv_online s"] by (simp add: server_judge_def Let_def)
qed (simp add: server_judge_def)

lemma online_dom_answer: "dom (map_of (sv_online s)) \<subseteq> dom (map_of (sv_online (snd (answer_local X f a now clock s))))"
proof (cases a)
  case (L_Register claims)
  then show ?thesis
    using online_dom_table(1) [of "sv_online s" f claims now]
    by (auto simp: snd_and_then_reply split: prod.split)
next
  case L_Heartbeat
  obtain ok t where b: "beat f now (sv_online s) = (ok, t)" by force
  obtain held t' where c: "clear_judged f t = (held, t')" by force
  show ?thesis
    using online_dom_table(2) [of f now "sv_online s"] online_dom_table(4) [of f t] b c
    by (cases ok) (auto simp: L_Heartbeat Let_def)
next
  case (L_ReachableReport n)
  obtain held t where c: "clear_judged n (sv_online s) = (held, t)" by force
  show ?thesis
    using online_dom_table(3) [of n now t] online_dom_table(4) [of n "sv_online s"] c
    by (auto simp: L_ReachableReport Let_def)
qed (auto simp: snd_and_then_reply Let_def online_dom_judge)

lemma serve_frame_online:
  "dom (map_of (sv_online s)) \<subseteq> dom (map_of (sv_online (snd (serve_frame X frame now clock clone c s))))"
proof (rule serve_frame_cases [of X frame now s clock clone c], goal_cases)
  case (2 r c' s1)
  then have "sv_online s1 = sv_online s" by auto
  with 2 online_dom_answer [of s1 X _ _ now clock] show ?case by (auto split: routed.split)
qed simp

definition advances :: "relay_system \<Rightarrow> relay_system \<Rightarrow> bool" where
  "advances y z \<longleftrightarrow>
     (\<forall>k. remembered (guard_of y) k \<longrightarrow> remembered (guard_of z) k) \<and>
     dom (map_of (online_of y)) \<subseteq> dom (map_of (online_of z))"

lemma advances_server:
  assumes "\<And>k. remembered (sv_guard (sy_server y)) k \<Longrightarrow> remembered (sv_guard (sy_server z)) k"
    "dom (map_of (sv_online (sy_server y))) \<subseteq> dom (map_of (sv_online (sy_server z)))"
  shows "advances y z"
  using assms unfolding advances_def guard_of_def online_of_def by blast

lemma advances_refl: "advances y y"
  by (rule advances_server) auto

lemma advances_trans: "advances x y \<Longrightarrow> advances y z \<Longrightarrow> advances x z"
  unfolding advances_def by blast

lemma advances_step: "advances y (sys_step X op y)"
proof (cases op)
  case (Arrive h frame now clock clone)
  show ?thesis
  proof (cases "find_connection h (sy_connections y)")
    case None
    then show ?thesis by (simp add: Arrive advances_refl)
  next
    case (Some c)
    obtain c' s where f: "serve_frame X frame now clock clone c (sy_server y) = (c', s)" by force
    show ?thesis
      using server_route_guard [of "sy_server y" _ X frame now]
        serve_frame_online [of "sy_server y" X frame now clock clone c]
        serve_frame_guard [of X frame now clock clone c "sy_server y"]
      by (intro advances_server) (simp_all add: Arrive Some f)
  qed
next
  case (HangUp h)
  show ?thesis by (rule advances_server) (auto simp: HangUp split: option.split)
qed (rule advances_server; auto simp: set_peers_def set_rooms_def split: sum.split)+

lemma sys_step_sink: "sv_transition_sink (sy_server (sys_step X op y)) = sv_transition_sink (sy_server y)"
proof (cases op)
  case (Arrive h frame now clock clone)
  show ?thesis
  proof (cases "find_connection h (sy_connections y)")
    case (Some c)
    obtain c' s where "serve_frame X frame now clock clone c (sy_server y) = (c', s)" by force
    then show ?thesis
      using serve_frame_sink [of X frame now clock clone c "sy_server y"] by (simp add: Arrive Some)
  qed (simp add: Arrive)
qed (auto simp: set_peers_def set_rooms_def split: option.split sum.split)

section \<open>Key-event logs\<close>

definition log_ok :: "key_event list \<Rightarrow> bool" where
  "log_ok l \<longleftrightarrow> length l \<le> KEY_EVENT_LOG \<and> distinct (map (\<lambda>e. (ke_action e, ke_at_ms e)) l)"

definition logs_ok :: "server \<Rightarrow> bool" where
  "logs_ok s \<longleftrightarrow> (\<forall>n. log_ok (key_events_of s n))"

lemma log_key_event_ok:
  assumes "log_ok l"
  shows "log_ok (log_key_event e l)"
proof (cases "list_ex (\<lambda>held. ke_action held = ke_action e \<and> ke_at_ms held = ke_at_ms e) l")
  case True
  then show ?thesis using assms by (simp add: log_key_event_def)
next
  case False
  let ?f = "\<lambda>e. (ke_action e, ke_at_ms e)"
  have "distinct (map ?f (l @ [e]))" using assms False by (auto simp: log_ok_def list_ex_iff)
  then have "distinct (map ?f (drop n (l @ [e])))" for n
    by (simp only: drop_map [symmetric] distinct_drop)
  with False show ?thesis by (simp only: log_key_event_def log_ok_def Let_def if_False) simp
qed

lemma logs_ok_answer: "logs_ok s \<Longrightarrow> logs_ok (snd (answer_local X f a now clock s))"
proof (cases a)
  case (L_KeyEvent at_ms act detail)
  assume ok: "logs_ok s"
  show ?thesis
    using ok log_key_event_ok by (auto simp: L_KeyEvent logs_ok_def key_events_of_def Let_def)
next
  case L_Heartbeat
  assume ok: "logs_ok s"
  show ?thesis
    using ok by (auto simp: L_Heartbeat logs_ok_def key_events_of_def Let_def split: prod.split bool.split)
qed (auto simp: logs_ok_def key_events_of_def snd_and_then_reply Let_def split: prod.split)

section \<open>The server is a machine\<close>

definition server_ok :: "server \<Rightarrow> bool" where
  "server_ok s \<longleftrightarrow> judgement_inv s \<and> logs_ok s"

lemma server_ok_cong:
  assumes "server_ok s" "sv_online s' = sv_online s" "sv_transitions s' = sv_transitions s"
    "sv_transition_sink s' = sv_transition_sink s" "sv_key_events s' = sv_key_events s"
  shows "server_ok s'"
  using assms by (auto simp: server_ok_def logs_ok_def key_events_of_def intro: judgement_inv_same)

lemma server_ok_frame: "server_ok s \<Longrightarrow> server_ok (snd (serve_frame X frame now clock clone c s))"
proof (rule serve_frame_cases [of X frame now s clock clone c], goal_cases)
  case (1 e)
  then show ?case by (auto intro: server_ok_cong)
next
  case (2 r c' s1)
  then have "server_ok s1" by (auto intro: server_ok_cong)
  then have "server_ok (snd (answer_local X f a now clock s1))" for f a
    by (simp add: server_ok_def judgement_inv_answer logs_ok_answer)
  with 2 \<open>server_ok s1\<close> show ?case by (simp split: routed.split)
qed

definition system_ok :: "relay_system \<Rightarrow> bool" where
  "system_ok y \<longleftrightarrow> sessions_live y \<and> server_ok (sy_server y)"

lemma system_ok_step: "system_ok y \<Longrightarrow> system_ok (sys_step X op y)"
proof -
  assume ok: "system_ok y"
  then have server: "server_ok (sy_server y)" by (simp add: system_ok_def)
  have frame: "server_ok s" if "serve_frame X frame now clock clone c (sy_server y) = (c', s)"
    for frame now clock clone c c' s
    using server_ok_frame [OF server, of X frame now clock clone c] that by simp
  have "server_ok (sy_server (sys_step X op y))"
    by (cases op)
      (use server frame in \<open>auto simp: set_peers_def set_rooms_def split: option.split prod.split sum.split
        intro: server_ok_cong\<close>)
  with ok show ?thesis by (simp add: system_ok_def sessions_live_step)
qed

interpretation relay: machine "sys_step X" system_ok advances for X
  by unfold_locales (auto simp: system_ok_step advances_step advances_refl intro: advances_trans)

text \<open>Which arrivals the server took.\<close>

fun sys_take :: "externs \<Rightarrow> sys_op \<Rightarrow> relay_system \<Rightarrow> bool \<times> relay_system" where
  "sys_take X (Arrive h frame now clock clone) y =
     (find_connection h (sy_connections y) \<noteq> None \<and>
        taken (fst (server_route X frame now (sy_server y))),
      sys_step X (Arrive h frame now clock clone) y)"
| "sys_take X op y = (False, sys_step X op y)"

fun op_key :: "externs \<Rightarrow> sys_op \<Rightarrow> (string \<times> int \<times> string) option" where
  "op_key X (Arrive h frame now clock clone) = frame_key X frame"
| "op_key X _ = None"

lemma server_route_taken:
  assumes "taken (fst (server_route X frame now s))"
  shows "seen (sv_guard (snd (server_route X frame now s))) (frame_key X frame)"
    and "\<not> seen (sv_guard s) (frame_key X frame)"
proof -
  obtain r g' w' where r: "route X frame (sv_node_id s) (sv_peers s) (sv_keys s)
    (forward_to (sv_sessions s)) now (sv_guard s) (sv_wires s) = (r, g', w')" by (metis prod_cases3)
  from route_taken_marks [OF this] assms r
  show "seen (sv_guard (snd (server_route X frame now s))) (frame_key X frame)"
    and "\<not> seen (sv_guard s) (frame_key X frame)"
    by (simp_all add: server_route_def)
qed

lemma seen_grows: "advances y z \<Longrightarrow> seen (guard_of y) k \<Longrightarrow> seen (guard_of z) k"
  by (cases k) (auto simp: advances_def seen_def)

interpretation taken_once: at_most_once "sys_take X" "op_key X" "\<lambda>y. seen (guard_of y)" for X
proof
  fix op y y' assume "sys_take X op y = (True, y')"
  then show "seen (guard_of y') (op_key X op)"
    by (cases op)
      (auto simp: guard_of_def dest!: server_route_taken(1) split: option.splits prod.splits,
        metis serve_frame_guard snd_conv)
next
  fix y k op assume "seen (guard_of y) k"
  moreover have "snd (sys_take X op y) = sys_step X op y" by (cases op) simp_all
  ultimately show "seen (guard_of (snd (sys_take X op y))) k" using seen_grows advances_step by metis
next
  fix y op assume "seen (guard_of y) (op_key X op)"
  then show "\<not> fst (sys_take X op y)"
    by (cases op) (auto simp: guard_of_def dest: server_route_taken(2))
qed

end
