(* ===== verification/Net_Suppression.thy ===== *)
theory Net_Suppression
  imports Net_Liveness Audit_Chain
begin

unbundle bit_operations_syntax

text \<open>
  \<open>net/src/suppression.rs\<close>: the three layers before a takeover (the phase machine, the backoff, who
  is first in line), the takeover and decision bodies, and a closed segment's way to the centre with
  the two checks the receiver makes of it.
\<close>

section \<open>The phase machine\<close>

definition SUPPRESSION_WAIT_MS :: int where "SUPPRESSION_WAIT_MS = 60 * 1000"
definition SUPPRESSION_BACKOFF_MAX_MS :: nat where "SUPPRESSION_BACKOFF_MAX_MS = 30 * 1000"

datatype suppression_phase = Candidate | Waiting | Confirming | BackingOff | StandingIn

fun phase_as_str :: "suppression_phase \<Rightarrow> string" where
  "phase_as_str Candidate = ''candidate''"
| "phase_as_str Waiting = ''waiting''"
| "phase_as_str Confirming = ''confirming''"
| "phase_as_str BackingOff = ''backing-off''"
| "phase_as_str StandingIn = ''standing-in''"

record suppression =
  su_node_id :: string
  su_phase :: suppression_phase
  su_since_ms :: int
  su_deadline_ms :: "int option"

definition suppression_new :: "string \<Rightarrow> int \<Rightarrow> suppression" where
  "suppression_new node_id now =
     \<lparr>su_node_id = node_id, su_phase = Candidate, su_since_ms = now, su_deadline_ms = None\<rparr>"

definition sup_observe :: "bool \<Rightarrow> int \<Rightarrow> suppression \<Rightarrow> suppression_phase \<times> suppression" where
  "sup_observe centre_reachable now s =
     (let s = (if centre_reachable then
                 s\<lparr>su_phase := Candidate, su_since_ms := now, su_deadline_ms := None\<rparr>
               else case su_phase s of
                 Candidate \<Rightarrow> s\<lparr>su_phase := Waiting, su_since_ms := now\<rparr>
               | Waiting \<Rightarrow>
                   if SUPPRESSION_WAIT_MS \<le> i64_sat_sub now (su_since_ms s) then
                     s\<lparr>su_phase := Confirming, su_since_ms := now\<rparr>
                   else s
               | _ \<Rightarrow> s)
      in (su_phase s, s))"

text \<open>FNV-1a over the name and the moment's eight bytes, least significant first.\<close>

definition to_le_bytes :: "int \<Rightarrow> 64 word list" where
  "to_le_bytes now = map (\<lambda>i. drop_bit (8 * i) (word_of_int now :: 64 word) AND 255) [0 ..< 8]"

fun fnv1a :: "64 word \<Rightarrow> 64 word list \<Rightarrow> 64 word" where
  "fnv1a h [] = h"
| "fnv1a h (b # bs) = fnv1a ((h XOR b) * 0x100000001b3) bs"

definition backoff_delay_ms :: "string \<Rightarrow> int \<Rightarrow> int" where
  "backoff_delay_ms node_id now =
     (let h = fnv1a 0xcbf29ce484222325 (map (\<lambda>c. of_nat (of_char c)) node_id @ to_le_bytes now);
          window = of_nat SUPPRESSION_BACKOFF_MAX_MS :: 64 word
      in uint (h mod (window + 1)))"

definition sup_confirm ::
  "witness_table \<Rightarrow> string \<Rightarrow> int \<Rightarrow> (string \<Rightarrow> bool) \<Rightarrow> suppression \<Rightarrow> judgement option \<times> suppression" where
  "sup_confirm t centre now witness_online s =
     (if su_phase s \<noteq> Confirming then (None, s)
      else case judge t centre now witness_online of
        None \<Rightarrow> (None, s)
      | Some j \<Rightarrow>
          (Some j, s\<lparr>su_phase := BackingOff, su_since_ms := now,
             su_deadline_ms := Some (i64_sat_add now (backoff_delay_ms (su_node_id s) now))\<rparr>))"

definition sup_stand_down :: "int \<Rightarrow> suppression \<Rightarrow> suppression" where
  "sup_stand_down now s = s\<lparr>su_phase := Candidate, su_since_ms := now, su_deadline_ms := None\<rparr>"

definition backoff_elapsed :: "suppression \<Rightarrow> int \<Rightarrow> bool" where
  "backoff_elapsed s now =
     (case (su_phase s, su_deadline_ms s) of
        (BackingOff, Some deadline) \<Rightarrow> deadline \<le> now
      | _ \<Rightarrow> False)"

definition maybe_stand_in :: "int \<Rightarrow> suppression \<Rightarrow> bool \<times> suppression" where
  "maybe_stand_in now s =
     (if su_phase s \<noteq> BackingOff \<or> \<not> backoff_elapsed s now then (False, s)
      else (True, s\<lparr>su_phase := StandingIn, su_since_ms := now, su_deadline_ms := None\<rparr>))"

definition first_in_line :: "string list \<Rightarrow> string option" where
  "first_in_line nodes = (if nodes = [] then None else Some (Min (set nodes)))"

definition is_first_in_line :: "string \<Rightarrow> string list \<Rightarrow> bool" where
  "is_first_in_line node_id others \<longleftrightarrow> \<not> list_ex (\<lambda>other. other < node_id) others"

section \<open>Takeover and decision bodies\<close>

definition centre_report_from :: "json \<Rightarrow> string \<Rightarrow> report option" where
  "centre_report_from body centre =
     (case report_of body of
        Some r \<Rightarrow> if report_node_id r = centre then Some r else None
      | None \<Rightarrow> None)"

record takeover =
  tk_centre :: string
  tk_by :: string
  tk_at_ms :: int

definition takeover_body :: "string \<Rightarrow> string \<Rightarrow> int \<Rightarrow> json" where
  "takeover_body centre by_id at_ms =
     json_obj [(''takeover'', JInt (int PROTOCOL_VERSION)), (''centre'', JStr centre),
               (''by'', JStr by_id), (''at_ms'', JInt at_ms)]"

definition is_takeover :: "json \<Rightarrow> takeover option" where
  "is_takeover body =
     (if \<not> versioned_body ''takeover'' body then None
      else Option.bind (Option.bind (json_get ''centre'' body) as_str) (\<lambda>centre.
           Option.bind (Option.bind (json_get ''by'' body) as_str) (\<lambda>by_id.
           Option.bind (Option.bind (json_get ''at_ms'' body) as_i64) (\<lambda>at_ms.
           Some \<lparr>tk_centre = centre, tk_by = by_id, tk_at_ms = at_ms\<rparr>))))"

record request_decision =
  rd_request_id :: string
  rd_decision :: string
  rd_decided_by :: string
  rd_at_ms :: int

definition request_decision_body :: "string \<Rightarrow> string \<Rightarrow> string \<Rightarrow> int \<Rightarrow> json" where
  "request_decision_body request_id decision decided_by at_ms =
     json_obj [(''request_decision'', JInt (int PROTOCOL_VERSION)), (''request_id'', JStr request_id),
               (''decision'', JStr decision), (''decided_by'', JStr decided_by), (''at_ms'', JInt at_ms)]"

definition is_request_decision :: "json \<Rightarrow> request_decision option" where
  "is_request_decision body =
     (if \<not> versioned_body ''request_decision'' body then None
      else Option.bind (Option.bind (json_get ''request_id'' body) as_str) (\<lambda>request_id.
           Option.bind (Option.bind (json_get ''decision'' body) as_str) (\<lambda>decision.
           Option.bind (Option.bind (json_get ''decided_by'' body) as_str) (\<lambda>decided_by.
           Option.bind (Option.bind (json_get ''at_ms'' body) as_i64) (\<lambda>at_ms.
           Some \<lparr>rd_request_id = request_id, rd_decision = decision, rd_decided_by = decided_by,
                 rd_at_ms = at_ms\<rparr>)))))"

section \<open>A closed segment on its way to the centre\<close>

record segment_event =
  sg_segment_id :: string
  sg_centre :: string
  sg_index :: nat
  sg_total :: nat
  sg_ts :: int
  sg_actor :: string
  sg_action :: string
  sg_agent_id :: "string option"
  sg_detail :: json
  sg_hash :: "string option"
  sg_prev_hash :: "string option"

record segment_done =
  sd_segment_id :: string
  sd_centre :: string
  sd_total :: nat
  sd_head_prev_chain :: "string option"
  sd_anchor_length :: "nat option"
  sd_anchor_hash :: "string option"

definition segment_event_body :: "segment_event \<Rightarrow> json" where
  "segment_event_body e =
     json_obj [(''segment_event'', JInt (int PROTOCOL_VERSION)), (''segment_id'', JStr (sg_segment_id e)),
               (''centre'', JStr (sg_centre e)), (''index'', JInt (int (sg_index e))),
               (''total'', JInt (int (sg_total e))), (''ts'', JInt (sg_ts e)),
               (''actor'', JStr (sg_actor e)), (''action'', JStr (sg_action e)),
               (''agent_id'', opt_str (sg_agent_id e)), (''detail'', sg_detail e),
               (''hash'', opt_str (sg_hash e)), (''prev_hash'', opt_str (sg_prev_hash e))]"

definition is_segment_event :: "json \<Rightarrow> segment_event option" where
  "is_segment_event body =
     (if \<not> versioned_body ''segment_event'' body then None
      else Option.bind (Option.bind (json_get ''segment_id'' body) as_str) (\<lambda>segment_id.
           Option.bind (Option.bind (json_get ''centre'' body) as_str) (\<lambda>centre.
           Option.bind (Option.bind (json_get ''index'' body) as_u64) (\<lambda>index.
           Option.bind (Option.bind (json_get ''total'' body) as_u64) (\<lambda>count.
           Option.bind (Option.bind (json_get ''ts'' body) as_i64) (\<lambda>ts.
           Option.bind (Option.bind (json_get ''actor'' body) as_str) (\<lambda>actor.
           Option.bind (Option.bind (json_get ''action'' body) as_str) (\<lambda>act.
           Option.bind (json_get ''detail'' body) (\<lambda>detail.
           Some \<lparr>sg_segment_id = segment_id, sg_centre = centre, sg_index = index, sg_total = count,
                 sg_ts = ts, sg_actor = actor, sg_action = act,
                 sg_agent_id = Option.bind (json_get ''agent_id'' body) as_str, sg_detail = detail,
                 sg_hash = Option.bind (json_get ''hash'' body) as_str,
                 sg_prev_hash = Option.bind (json_get ''prev_hash'' body) as_str\<rparr>)))))))))"

definition segment_done_body :: "segment_done \<Rightarrow> json" where
  "segment_done_body d =
     json_obj [(''segment_done'', JInt (int PROTOCOL_VERSION)), (''segment_id'', JStr (sd_segment_id d)),
               (''centre'', JStr (sd_centre d)), (''total'', JInt (int (sd_total d))),
               (''head_prev_chain'', opt_str (sd_head_prev_chain d)),
               (''anchor_digest'', opt_str (sd_head_prev_chain d)),
               (''anchor_length'', opt_nat (sd_anchor_length d)),
               (''anchor_hash'', opt_str (sd_anchor_hash d))]"

definition is_segment_done :: "json \<Rightarrow> segment_done option" where
  "is_segment_done body =
     (if \<not> versioned_body ''segment_done'' body then None
      else Option.bind (Option.bind (json_get ''segment_id'' body) as_str) (\<lambda>segment_id.
           Option.bind (Option.bind (json_get ''centre'' body) as_str) (\<lambda>centre.
           Option.bind (Option.bind (json_get ''total'' body) as_u64) (\<lambda>count.
           Some \<lparr>sd_segment_id = segment_id, sd_centre = centre, sd_total = count,
                 sd_head_prev_chain =
                   (case Option.bind (json_get ''anchor_digest'' body) as_str of
                      Some s \<Rightarrow> Some s
                    | None \<Rightarrow> Option.bind (json_get ''head_prev_chain'' body) as_str),
                 sd_anchor_length = Option.bind (json_get ''anchor_length'' body) as_u64,
                 sd_anchor_hash = Option.bind (json_get ''anchor_hash'' body) as_str\<rparr>))))"

datatype delivery_problem =
    NotForThisNode string string
  | DeliveryCount nat nat
  | Positions nat "nat list"

definition verify_delivery :: "string \<Rightarrow> segment_done \<Rightarrow> segment_event list \<Rightarrow> delivery_problem + unit" where
  "verify_delivery this_node d events =
     (if sd_centre d \<noteq> this_node then Inl (NotForThisNode (sd_centre d) this_node)
      else if length events \<noteq> sd_total d then Inl (DeliveryCount (sd_total d) (length events))
      else
        let found = sort (map sg_index events)
        in if found \<noteq> [0 ..< sd_total d] then Inl (Positions (sd_total d) found) else Inr ())"

text \<open>\<open>serde_json::to_string\<close> of a value does not fail, so the source's fourth problem has no case.\<close>

datatype linkage_problem = NoHash | ChainBreak nat string string | HashMismatch nat

definition or_default :: "string option \<Rightarrow> string" where
  "or_default s = (case s of None \<Rightarrow> [] | Some t \<Rightarrow> t)"

definition segment_row_hash :: "externs \<Rightarrow> segment_event \<Rightarrow> string" where
  "segment_row_hash X e =
     compute_hash X (or_default (sg_prev_hash e))
       \<lparr>ev_timestamp_ms = sg_ts e, ev_actor = sg_actor e, ev_action = sg_action e,
        ev_detail = JNull, ev_agent_id = None\<rparr>
       (x_text X (sg_detail e))"

fun linkage_loop :: "externs \<Rightarrow> nat \<Rightarrow> string option \<Rightarrow> segment_event list \<Rightarrow> linkage_problem + unit" where
  "linkage_loop X i before [] = Inr ()"
| "linkage_loop X i before (e # es) =
     (let hash = or_default (sg_hash e); prev_hash = or_default (sg_prev_hash e)
      in case before of
           Some b \<Rightarrow>
             if prev_hash \<noteq> b then Inl (ChainBreak i b prev_hash)
             else if segment_row_hash X e \<noteq> hash then Inl (HashMismatch i)
             else linkage_loop X (i + 1) (Some hash) es
         | None \<Rightarrow>
             if segment_row_hash X e \<noteq> hash then Inl (HashMismatch i)
             else linkage_loop X (i + 1) (Some hash) es)"

definition verify_linkage :: "externs \<Rightarrow> segment_event list \<Rightarrow> linkage_problem + unit" where
  "verify_linkage X events =
     (if events = [] \<or> list_ex (\<lambda>e. sg_hash e = None \<or> sg_prev_hash e = None) events then Inl NoHash
      else linkage_loop X 0 None events)"

section \<open>The layers in order\<close>

fun phase_rank :: "suppression_phase \<Rightarrow> nat" where
  "phase_rank Candidate = 0"
| "phase_rank Waiting = 1"
| "phase_rank Confirming = 2"
| "phase_rank BackingOff = 3"
| "phase_rank StandingIn = 4"

lemma phase_rank_inj: "phase_rank p = phase_rank q \<Longrightarrow> p = q"
  by (cases p; cases q) simp_all

instantiation suppression_phase :: linorder
begin

definition less_eq_suppression_phase :: "suppression_phase \<Rightarrow> suppression_phase \<Rightarrow> bool" where
  "less_eq_suppression_phase p q \<longleftrightarrow> phase_rank p \<le> phase_rank q"

definition less_suppression_phase :: "suppression_phase \<Rightarrow> suppression_phase \<Rightarrow> bool" where
  "less_suppression_phase p q \<longleftrightarrow> phase_rank p < phase_rank q"

instance
  by standard
    (auto simp: less_eq_suppression_phase_def less_suppression_phase_def dest: phase_rank_inj)

end

text \<open>What drives a machine, each with its clock.\<close>

datatype sup_input =
    Observe bool int
  | Confirm witness_table string int "string \<Rightarrow> bool"
  | StandDown int
  | MaybeStandIn int

fun input_time :: "sup_input \<Rightarrow> int" where
  "input_time (Observe _ now) = now"
| "input_time (Confirm _ _ now _) = now"
| "input_time (StandDown now) = now"
| "input_time (MaybeStandIn now) = now"

fun sup_step :: "sup_input \<Rightarrow> suppression \<Rightarrow> suppression" where
  "sup_step (Observe r now) s = snd (sup_observe r now s)"
| "sup_step (Confirm t centre now online) s = snd (sup_confirm t centre now online s)"
| "sup_step (StandDown now) s = sup_stand_down now s"
| "sup_step (MaybeStandIn now) s = snd (maybe_stand_in now s)"

text \<open>A machine's life under a clock that does not run backwards.\<close>

inductive sup_life :: "string \<Rightarrow> int \<Rightarrow> int \<Rightarrow> sup_input list \<Rightarrow> suppression \<Rightarrow> bool" where
  born: "sane_clock now \<Longrightarrow> sup_life node now now [] (suppression_new node now)"
| lives: "sup_life node t0 now inputs s \<Longrightarrow> now \<le> input_time i \<Longrightarrow> sane_clock (input_time i) \<Longrightarrow>
     sup_life node t0 (input_time i) (inputs @ [i]) (sup_step i s)"

inductive_cases sup_life_bornE: "sup_life node t0 now [] s"
inductive_simps sup_life_snoc: "sup_life node t0 now (inputs @ [i]) s"

text \<open>The centre was neither seen nor replaced.\<close>

fun calls_off :: "sup_input \<Rightarrow> bool" where
  "calls_off (Observe r now) = r"
| "calls_off (StandDown now) = True"
| "calls_off _ = False"

definition quiet :: "sup_input list \<Rightarrow> bool" where
  "quiet inputs \<longleftrightarrow> \<not> list_ex calls_off inputs"

lemma quiet_simps [simp]:
  "quiet []" "quiet (i # is) \<longleftrightarrow> \<not> calls_off i \<and> quiet is" "quiet (is @ js) \<longleftrightarrow> quiet is \<and> quiet js"
  by (auto simp: quiet_def)

text \<open>The evidence each phase rests on, as what its inputs end with.\<close>

definition waited :: "sup_input list \<Rightarrow> int \<Rightarrow> bool" where
  "waited inputs t1 \<longleftrightarrow> (\<exists>pre rest. inputs = pre @ Observe False t1 # rest \<and> quiet rest)"

definition asked :: "sup_input list \<Rightarrow> int \<Rightarrow> bool" where
  "asked inputs t2 \<longleftrightarrow>
     (\<exists>pre t1 rest. inputs = pre @ Observe False t2 # rest \<and> quiet rest \<and> waited pre t1 \<and>
        t1 + SUPPRESSION_WAIT_MS \<le> t2)"

definition confirmed :: "sup_input list \<Rightarrow> int \<Rightarrow> bool" where
  "confirmed inputs t3 \<longleftrightarrow>
     (\<exists>pre t2 t centre online rest. inputs = pre @ Confirm t centre t3 online # rest \<and> quiet rest \<and>
        asked pre t2 \<and> t2 \<le> t3 \<and> judge t centre t3 online \<noteq> None)"

definition earned :: "string \<Rightarrow> sup_input list \<Rightarrow> int \<Rightarrow> bool" where
  "earned node inputs t4 \<longleftrightarrow>
     (\<exists>pre t3 rest. inputs = pre @ MaybeStandIn t4 # rest \<and> quiet rest \<and> confirmed pre t3 \<and>
        t3 + backoff_delay_ms node t3 \<le> t4)"

lemma quiet_rest:
  assumes "\<not> calls_off i" "\<exists>pre rest. inputs = pre @ x # rest \<and> quiet rest \<and> P pre"
  shows "\<exists>pre rest. inputs @ [i] = pre @ x # rest \<and> quiet rest \<and> P pre"
proof -
  obtain pre rest where "inputs = pre @ x # rest" "quiet rest" "P pre" using assms(2) by blast
  then have "inputs @ [i] = pre @ x # (rest @ [i])" "quiet (rest @ [i])" using assms(1) by simp_all
  with \<open>P pre\<close> show ?thesis by blast
qed

lemma quiet_snoc:
  assumes "\<not> calls_off i"
  shows "waited inputs t \<Longrightarrow> waited (inputs @ [i]) t" "asked inputs t \<Longrightarrow> asked (inputs @ [i]) t"
    "confirmed inputs t \<Longrightarrow> confirmed (inputs @ [i]) t" "earned node inputs t \<Longrightarrow> earned node (inputs @ [i]) t"
proof -
  show "waited inputs t \<Longrightarrow> waited (inputs @ [i]) t"
    using quiet_rest [OF assms, of inputs "Observe False t" "\<lambda>_. True"] by (simp add: waited_def)
  show "asked inputs t \<Longrightarrow> asked (inputs @ [i]) t"
    using quiet_rest [OF assms, of inputs "Observe False t" "\<lambda>pre. \<exists>t1. waited pre t1 \<and> t1 + SUPPRESSION_WAIT_MS \<le> t"]
    unfolding asked_def by blast
  show "confirmed inputs t \<Longrightarrow> confirmed (inputs @ [i]) t"
  proof -
    assume "confirmed inputs t"
    then obtain tab centre online where "\<exists>pre rest. inputs = pre @ Confirm tab centre t online # rest \<and>
      quiet rest \<and> (\<exists>t2. asked pre t2 \<and> t2 \<le> t \<and> judge tab centre t online \<noteq> None)"
      unfolding confirmed_def by blast
    from quiet_rest [OF assms this] show ?thesis unfolding confirmed_def by blast
  qed
  show "earned node inputs t \<Longrightarrow> earned node (inputs @ [i]) t"
    using quiet_rest [OF assms, of inputs "MaybeStandIn t"
        "\<lambda>pre. \<exists>t3. confirmed pre t3 \<and> t3 + backoff_delay_ms node t3 \<le> t"]
    unfolding earned_def by blast
qed

lemma backoff_bounds: "0 \<le> backoff_delay_ms node now \<and> backoff_delay_ms node now \<le> int SUPPRESSION_BACKOFF_MAX_MS"
proof -
  have "uint (h mod 30001) \<le> 30000" for h :: "64 word"
  proof -
    have "uint (h mod 30001) = uint h mod 30001" by (simp add: uint_mod)
    moreover have "uint h mod 30001 < 30001" by simp
    ultimately show ?thesis by linarith
  qed
  then show ?thesis by (simp add: backoff_delay_ms_def Let_def SUPPRESSION_BACKOFF_MAX_MS_def)
qed

lemma backoff_deadline: "sane_clock now \<Longrightarrow> i64_sat_add now (backoff_delay_ms node now) = now + backoff_delay_ms node now"
  using backoff_bounds [of node now]
  unfolding i64_sat_add_def
  by (intro i64_sat_id) (simp add: sane_clock_def i64_bounds SUPPRESSION_BACKOFF_MAX_MS_def)

lemma wait_elapsed: "sane_clock now \<Longrightarrow> sane_clock since \<Longrightarrow> i64_sat_sub now since = now - since"
  unfolding i64_sat_sub_def by (intro i64_sat_id) (simp add: sane_clock_def i64_bounds)

definition phase_earned :: "sup_input list \<Rightarrow> int \<Rightarrow> suppression \<Rightarrow> bool" where
  "phase_earned inputs now s \<longleftrightarrow>
     sane_clock (su_since_ms s) \<and> su_since_ms s \<le> now \<and>
     (case su_phase s of
        Candidate \<Rightarrow> su_deadline_ms s = None
      | Waiting \<Rightarrow> su_deadline_ms s = None \<and> waited inputs (su_since_ms s)
      | Confirming \<Rightarrow> su_deadline_ms s = None \<and> asked inputs (su_since_ms s)
      | BackingOff \<Rightarrow>
          su_deadline_ms s = Some (su_since_ms s + backoff_delay_ms (su_node_id s) (su_since_ms s)) \<and>
          confirmed inputs (su_since_ms s)
      | StandingIn \<Rightarrow> su_deadline_ms s = None \<and> earned (su_node_id s) inputs (su_since_ms s))"

lemma waited_now: "waited (inputs @ [Observe False t]) t"
  unfolding waited_def by (intro exI [of _ inputs] exI [of _ "[]"]) simp

lemma asked_now: "waited inputs t1 \<Longrightarrow> t1 + SUPPRESSION_WAIT_MS \<le> t2 \<Longrightarrow> asked (inputs @ [Observe False t2]) t2"
  unfolding asked_def by (intro exI [of _ inputs] exI [of _ t1] exI [of _ "[]"]) simp

lemma confirmed_now:
  "asked inputs t2 \<Longrightarrow> t2 \<le> t3 \<Longrightarrow> judge t centre t3 online \<noteq> None \<Longrightarrow>
   confirmed (inputs @ [Confirm t centre t3 online]) t3"
  unfolding confirmed_def
  by (intro exI [of _ inputs] exI [of _ t2] exI [of _ t] exI [of _ centre] exI [of _ online] exI [of _ "[]"]) simp

lemma earned_now:
  "confirmed inputs t3 \<Longrightarrow> t3 + backoff_delay_ms node t3 \<le> t4 \<Longrightarrow> earned node (inputs @ [MaybeStandIn t4]) t4"
  unfolding earned_def by (intro exI [of _ inputs] exI [of _ t3] exI [of _ "[]"]) simp

lemmas evidence_now = waited_now asked_now confirmed_now earned_now

lemma phase_earned_step:
  assumes s: "phase_earned inputs now s" and "now \<le> input_time i" "sane_clock (input_time i)"
  shows "phase_earned (inputs @ [i]) (input_time i) (sup_step i s)"
proof (cases i)
  case (Observe r t)
  then show ?thesis
    using assms quiet_snoc [where i = i and inputs = inputs]
    by (cases "su_phase s"; cases r)
      (auto simp: phase_earned_def sup_observe_def Let_def wait_elapsed intro: evidence_now)
next
  case (Confirm t centre t3 online)
  then show ?thesis
    using assms quiet_snoc [where i = i and inputs = inputs]
    by (cases "su_phase s")
      (auto simp: phase_earned_def sup_confirm_def backoff_deadline intro: evidence_now split: option.split)
next
  case (StandDown t)
  then show ?thesis using assms by (simp add: phase_earned_def sup_stand_down_def)
next
  case (MaybeStandIn t)
  then show ?thesis
    using assms quiet_snoc [where i = i and inputs = inputs]
    by (cases "su_phase s")
      (auto simp: phase_earned_def maybe_stand_in_def backoff_elapsed_def intro: evidence_now)
qed

lemma sup_step_node [simp]: "su_node_id (sup_step i s) = su_node_id s"
  by (cases i) (auto simp: sup_observe_def sup_confirm_def sup_stand_down_def maybe_stand_in_def Let_def
      split: suppression_phase.split option.split)

lemma sup_life_earned: "sup_life node t0 now inputs s \<Longrightarrow> su_node_id s = node \<and> phase_earned inputs now s"
proof (induction rule: sup_life.induct)
  case (born now node)
  then show ?case by (simp add: suppression_new_def phase_earned_def)
next
  case (lives node t0 now inputs s i)
  then show ?case using phase_earned_step by simp blast
qed

text \<open>One layer at a time.\<close>

lemma sup_step_one_layer:
  "su_phase (sup_step i s) = Candidate \<or> su_phase (sup_step i s) = su_phase s \<or>
   phase_rank (su_phase (sup_step i s)) = phase_rank (su_phase s) + 1"
  by (cases i; cases "su_phase s")
    (auto simp: sup_observe_def sup_confirm_def sup_stand_down_def maybe_stand_in_def Let_def
      split: option.split)

section \<open>First in line\<close>

lemma first_in_line_iff:
  assumes "set nodes \<noteq> {}" "n \<in> set nodes"
  shows "is_first_in_line n (filter (\<lambda>m. m \<noteq> n) nodes) \<longleftrightarrow> first_in_line nodes = Some n"
proof -
  have "is_first_in_line n (filter (\<lambda>m. m \<noteq> n) nodes) \<longleftrightarrow> (\<forall>m \<in> set nodes. n \<le> m)"
    by (auto simp: is_first_in_line_def list_ex_iff not_less)
  also have "\<dots> \<longleftrightarrow> Min (set nodes) = n"
    using assms by (auto simp: eq_Min_iff intro: Min_eqI)
  finally show ?thesis using assms by (auto simp: first_in_line_def)
qed

section \<open>Bodies read back\<close>

lemma PROTOCOL_VERSION_small [simp]: "PROTOCOL_VERSION < 18446744073709551616"
  by (simp add: PROTOCOL_VERSION_def)

lemmas body_simps = versioned_body_def json_get_obj as_str_opt_str

definition wf_segment_event :: "segment_event \<Rightarrow> bool" where
  "wf_segment_event e \<longleftrightarrow> sg_index e < 2 ^ 64 \<and> sg_total e < 2 ^ 64 \<and> is_i64 (sg_ts e)"

definition wf_segment_done :: "segment_done \<Rightarrow> bool" where
  "wf_segment_done d \<longleftrightarrow> sd_total d < 2 ^ 64 \<and> (\<forall>n. sd_anchor_length d = Some n \<longrightarrow> n < 2 ^ 64)"

lemma segment_event_roundtrip: "wf_segment_event e \<Longrightarrow> is_segment_event (segment_event_body e) = Some e"
  by (simp add: is_segment_event_def segment_event_body_def body_simps wf_segment_event_def)

lemma segment_done_roundtrip: "wf_segment_done d \<Longrightarrow> is_segment_done (segment_done_body d) = Some d"
  by (simp add: is_segment_done_def segment_done_body_def body_simps wf_segment_done_def as_u64_opt_nat
      split: option.split)

lemma takeover_roundtrip:
  "is_i64 at_ms \<Longrightarrow>
   is_takeover (takeover_body centre by_id at_ms) = Some \<lparr>tk_centre = centre, tk_by = by_id, tk_at_ms = at_ms\<rparr>"
  by (simp add: is_takeover_def takeover_body_def body_simps)

lemma request_decision_roundtrip:
  "is_i64 at_ms \<Longrightarrow>
   is_request_decision (request_decision_body r d b at_ms) =
     Some \<lparr>rd_request_id = r, rd_decision = d, rd_decided_by = b, rd_at_ms = at_ms\<rparr>"
  by (simp add: is_request_decision_def request_decision_body_def body_simps)

section \<open>What the receiver checks\<close>

lemma sort_upt_iff: "sort xs = [0 ..< n] \<longleftrightarrow> mset xs = mset [0 ..< n]"
  by (metis mset_sort properties_for_sort sorted_upt sorted_sort)

lemma verify_delivery_Inr:
  "verify_delivery this_node d events = Inr () \<longleftrightarrow>
     sd_centre d = this_node \<and> mset (map sg_index events) = mset [0 ..< sd_total d]"
proof -
  have "mset (map sg_index events) = mset [0 ..< sd_total d] \<Longrightarrow> length events = sd_total d"
    by (metis length_map length_upt minus_nat.diff_0 size_mset)
  then show ?thesis by (auto simp: verify_delivery_def Let_def sort_upt_iff)
qed

text \<open>An event as the row the sender's chain holds for it.\<close>

definition segment_row :: "externs \<Rightarrow> segment_event \<Rightarrow> raw_row" where
  "segment_row X e =
     \<lparr>row_id = int (sg_index e), row_timestamp_ms = sg_ts e, row_actor = sg_actor e, row_action = sg_action e,
      row_detail_json = x_text X (sg_detail e), row_prev_hash = or_default (sg_prev_hash e),
      row_hash = or_default (sg_hash e), row_agent_id = sg_agent_id e\<rparr>"

lemma recomputed_segment_row: "recomputed X (segment_row X e) = segment_row_hash X e"
  by (simp add: recomputed_def segment_row_def row_event_def segment_row_hash_def)

lemma linkage_loop_Some:
  "linkage_loop X i (Some p) es = Inr () \<longleftrightarrow> chained X p (map (segment_row X) es)"
proof (induction es arbitrary: i p)
  case (Cons e es)
  have "row_prev_hash (segment_row X e) = or_default (sg_prev_hash e)"
    "row_hash (segment_row X e) = or_default (sg_hash e)"
    by (simp_all add: segment_row_def)
  then show ?case using Cons.IH by (auto simp: Let_def recomputed_segment_row)
qed simp

lemma verify_linkage_Inr:
  "verify_linkage X events = Inr () \<longleftrightarrow>
     events \<noteq> [] \<and> (\<forall>e \<in> set events. sg_hash e \<noteq> None \<and> sg_prev_hash e \<noteq> None) \<and>
     chained X (or_default (sg_prev_hash (hd events))) (map (segment_row X) events)"
proof (cases events)
  case (Cons e es)
  have "row_prev_hash (segment_row X e) = or_default (sg_prev_hash e)"
    "row_hash (segment_row X e) = or_default (sg_hash e)"
    by (simp_all add: segment_row_def)
  then show ?thesis
    using linkage_loop_Some [of X 1 "or_default (sg_hash e)" es]
    by (auto simp: Cons verify_linkage_def list_ex_iff Let_def recomputed_segment_row split: if_splits)
qed (simp add: verify_linkage_def)

end
