(* ===== verification/Net_Properties.thy ===== *)
theory Net_Properties
  imports Net_Discovery Net_Transport Net_Suppression Sample_Externs
begin

text \<open>
  The properties of the peer layer that need no server: frames and their signatures, the versioned
  files, rooms and their budgets, the registry as a source, announcements, framing, and the checks of a
  delivered segment. Each property with hypotheses has a witness at a concrete input.
\<close>

section \<open>A sample key\<close>

definition sample_seed :: string where "sample_seed = replicate 32 (CHR ''k'')"

definition sample_key :: node_key where "sample_key = from_signing_key sample_externs sample_seed"

lemma length_ex_sign: "length (ex_sign seed bytes) = 64"
  unfolding ex_sign_def by (simp del: take_append)

lemma sample_key_laws: "key_laws sample_externs"
  by (simp add: key_laws_def sample_externs_def ex_b64_roundtrip KEY_BYTES_def SIGNATURE_BYTES_def length_ex_sign)

lemma sample_key_pair: "key_pair sample_externs sample_key = Inr (sample_seed, sample_seed)"
  using key_pair_from_signing_key [OF sample_key_laws, of sample_seed]
  by (simp add: sample_key_def sample_seed_def KEY_BYTES_def sample_externs_def)

lemma sample_signing_key: "node_signing_key sample_externs sample_key = Inr sample_seed"
  by (simp add: node_signing_key_def sample_key_pair)

lemma sample_verifying_key: "node_verifying_key sample_externs sample_key = Inr sample_seed"
  by (simp add: node_verifying_key_def sample_key_pair)

section \<open>Signed frames\<close>

lemma signed_message_parses:
  assumes "key_laws X" "struct_roundtrips X" "length seed = KEY_BYTES" "is_i64 ts" "wf_json body"
    "float_free_depth 126 body"
  shows "parse_line X (to_line X (sign_with_version X PROTOCOL_VERSION seed sender dest ts body)) =
    Inr (sign_with_version X PROTOCOL_VERSION seed sender dest ts body)"
proof (rule line_roundtrip [OF assms(2)])
  show "wf_message (sign_with_version X PROTOCOL_VERSION seed sender dest ts body)"
    using assms by (simp add: wf_message_def sign_with_version_def PROTOCOL_VERSION_def)
  show "msg_signature X (sign_with_version X PROTOCOL_VERSION seed sender dest ts body) =
    Inr (x_sign X seed (canonical_json X (preamble PROTOCOL_VERSION sender dest ts body)))"
    using assms(1,3) by (simp add: msg_signature_def sign_with_version_def key_laws_def)
qed

lemma signing_key_length: "node_signing_key X k = Inr seed \<Longrightarrow> length seed = KEY_BYTES"
  by (auto simp: node_signing_key_def bind_result_Inr_iff dest: key_pair_Inr)

text \<open>
  C31. A message signed with a node's key and sent as a line is read back as it was signed; a receiver
  that lists the key under the sender's name and sees it inside its window for the first time accepts it
  with exactly its four members, and refuses it at every later time.
\<close>

theorem signed_frame_accepted_once:
  assumes "key_laws X" "struct_roundtrips X" "node_signing_key X k = Inr seed"
    and "x_public X seed \<in> set (keys_of peers sender)"
    and "is_i64 ts" "wf_json body" "float_free_depth 126 body"
    and "i64_sub now (back_ms (rg_window g)) \<le> ts" "ts \<le> i64_add now (ahead_ms (rg_window g))"
    and "\<not> remembered g (sender, ts, body_hash X body)"
    and "map_of (rg_peers g) sender = None \<longrightarrow> 0 \<le> ts"
  shows "\<exists>m g'. sign_message X k sender us ts body = Inr m \<and> parse_line X (to_line X m) = Inr m \<and>
    verify_at X m us peers now g =
      (Inr \<lparr>vm_from = sender, vm_to = us, vm_ts = ts, vm_body = body\<rparr>, g') \<and>
    (\<forall>later peers'. isl (fst (verify_at X m us peers' later g')))"
proof -
  define m where "m = sign_with_version X PROTOCOL_VERSION seed sender us ts body"
  have len: "length seed = KEY_BYTES" using assms(3) by (rule signing_key_length)
  have m: "msg_from m = sender" "msg_to m = us" "msg_ts m = ts" "msg_body m = body" "msg_v m = PROTOCOL_VERSION"
    by (simp_all add: m_def sign_with_version_def)
  have "verify_with X (x_public X seed) m"
    unfolding m_def using assms(1) len by (rule sign_verifies)
  moreover have "knows peers sender"
    using assms(4) by (cases "map_of peers sender") (simp_all add: keys_of_def knows_def)
  ultimately have identity: "check_identity X m peers = Inr ()"
    using assms(4) m by (auto simp: check_identity_def list_ex_iff)
  obtain g' where acc: "guard_accept sender ts (body_hash X body) now g = (Inr (), g')"
    using guard_accept_fresh [OF assms(8,9,10,11)] by (metis prod.collapse)
  then have ok: "accept_message X m now g = (Inr (), g')"
    by (simp add: accept_message_def m)
  have "isl (fst (verify_at X m us peers' later g'))" for later peers'
  proof -
    have "remembered g' (message_key X m)" using accept_message_marks [OF ok] .
    from accept_message_refuses [OF this, of later] have "fst (accept_message X m later g') \<noteq> Inr ()" by auto
    then show ?thesis
      by (cases "verify_at X m us peers' later g'"; cases "fst (verify_at X m us peers' later g')")
        (auto simp: verify_at_Inr)
  qed
  moreover have "verify_at X m us peers now g =
      (Inr \<lparr>vm_from = sender, vm_to = us, vm_ts = ts, vm_body = body\<rparr>, g')"
    using identity ok m by (simp add: verify_at_Inr)
  moreover have "parse_line X (to_line X m) = Inr m"
    unfolding m_def using assms len by (intro signed_message_parses) auto
  ultimately show ?thesis
    using assms(3) by (intro exI [of _ m] exI [of _ g']) (simp add: sign_message_def m_def)
qed

theorem signed_frame_accepted_once_witness:
  "\<exists>m g'. sign_message sample_externs sample_key ''a'' ''b'' 1000 JNull = Inr m \<and>
     parse_line sample_externs (to_line sample_externs m) = Inr m \<and>
     verify_at sample_externs m ''b'' [(''a'', [sample_seed])] 1000 new_guard =
       (Inr \<lparr>vm_from = ''a'', vm_to = ''b'', vm_ts = 1000, vm_body = JNull\<rparr>, g') \<and>
     (\<forall>later peers'. isl (fst (verify_at sample_externs m ''b'' peers' later g')))"
  using signed_frame_accepted_once [OF sample_key_laws sample_struct_roundtrips sample_signing_key,
      of "[(''a'', [sample_seed])]" "''a''" 1000 JNull 1000 new_guard "''b''"]
  by (simp add: keys_of_def i64_bounds new_guard_def default_window_def REPLAY_WINDOW_BACK_MS_def
      REPLAY_WINDOW_AHEAD_MS_def i64_sub_def i64_add_def wrap_i64_def remembered_def sample_externs_def)

text \<open>
  The signed bytes determine all five members of the preamble: no two messages that differ in
  version, sender, addressee, time or body are signed over the same bytes.
\<close>

theorem signature_covers_the_message:
  assumes "text_roundtrips X" "wf_message m" "wf_message m'"
  shows "canonical_bytes X m = canonical_bytes X m' \<longleftrightarrow>
    msg_v m = msg_v m' \<and> msg_from m = msg_from m' \<and> msg_to m = msg_to m' \<and> msg_ts m = msg_ts m' \<and>
    msg_body m = msg_body m'"
  using canonical_bytes_inj [OF assms] by (auto simp: canonical_bytes_def)

theorem signature_covers_the_message_witness:
  "canonical_bytes sample_externs (sign_with sample_externs sample_seed ''a'' ''b'' 1 JNull) \<noteq>
   canonical_bytes sample_externs (sign_with sample_externs sample_seed ''a'' ''c'' 1 JNull)"
  using signature_covers_the_message [OF sample_text_roundtrips,
      of "sign_with sample_externs sample_seed ''a'' ''b'' 1 JNull"
         "sign_with sample_externs sample_seed ''a'' ''c'' 1 JNull"]
  by (simp add: wf_message_def sign_with_def sign_with_version_def PROTOCOL_VERSION_def i64_bounds)

section \<open>Files\<close>

lemma newer_version:
  assumes "json_get ''schema_version'' v = Some (JInt (int n))" "n < 2 ^ 32"
  shows "(schema_version v :: 'why versioned_error + nat) = Inr n"
  using assms by (cases v) (simp_all add: schema_version_def json_get_def)

text \<open>
  Each of the three files of a node that was saved is loaded as what was saved, and a file written
  by a newer build is reported as too new with its version, whatever else it holds.
\<close>

theorem versioned_files_reload:
  assumes "pretty_roundtrips X" "node_key_ok X k" "peers_ok X f" "rooms_ok r"
    and "x_parse X raw = Some v" "json_get ''schema_version'' v = Some (JInt (int n))" "1 < n" "n < 2 ^ 32"
  shows "node_key_load X (Contents (to_bytes X (node_key_to_json k))) = Inr (Current k) \<and>
    peers_load X (Contents (to_bytes X (peers_to_json f))) = Inr (Current f) \<and>
    rooms_load X (Contents (to_bytes X (rooms_to_json r))) = Inr (Current r) \<and>
    node_key_load X (Contents raw) = Inr (TooNew n) \<and>
    peers_load X (Contents raw) = Inr (TooNew n) \<and> rooms_load X (Contents raw) = Inr (TooNew n)"
  using assms(7) node_key_file.load_saved [OF assms(1,2)] peers_file.load_saved [OF assms(1,3)]
    rooms_file.load_saved [OF assms(1,4)] node_key_file.load_newer [OF assms(5) newer_version [OF assms(6,8)]]
    peers_file.load_newer [OF assms(5) newer_version [OF assms(6,8)]]
    rooms_file.load_newer [OF assms(5) newer_version [OF assms(6,8)]]
  by (simp add: node_key_load_def peers_load_def rooms_load_def NODE_KEY_VERSION_def
      PEERS_VERSION_def ROOMS_VERSION_def)

definition sample_entry :: peer_entry where
  "sample_entry = entry_new ''b'' ''127.0.0.1:2'' (public_jwk sample_key)"

definition sample_room :: room where
  "sample_room = \<lparr>ro_name = ''lab'', ro_members = [''a''],
     ro_rules = rules_new \<lparr>rr_messages = 2, rr_window_seconds = 60\<rparr>\<rparr>"

lemma sample_key_ok: "node_key_ok sample_externs sample_key"
  using sample_key_pair
  by (simp add: node_key_ok_def check_shape_def sample_key_def from_signing_key_def NODE_KEY_VERSION_def)

lemma sample_entry_wf: "wf_entry sample_externs sample_entry"
proof -
  have "entry_verifying_key sample_externs sample_entry = Inr sample_seed"
    using public_jwk_reads [OF sample_key_pair] by (simp add: entry_verifying_key_def sample_entry_def entry_new_def)
  moreover have "wf_json (public_jwk k)" for k
    unfolding public_jwk_def by (rule wf_json_obj) auto
  moreover have "float_free_depth 122 (public_jwk k)" for k
    using set_obj_insert_all [of "[(''crv'', JStr (nk_crv k)), (''kty'', JStr (nk_kty k)), (''x'', JStr (nk_x k))]"]
    by (fastforce simp: public_jwk_def json_obj_def)
  moreover have "trim ''b'' \<noteq> []" by (rule visible_not_blank) simp_all
  ultimately show ?thesis by (simp add: wf_entry_def) (simp add: sample_entry_def entry_new_def)
qed

lemma sample_room_ok: "rooms_ok (rooms_of [sample_room])"
proof -
  have "trim ''lab'' \<noteq> []" by (rule visible_not_blank) simp_all
  moreover have "trim ''a'' \<noteq> []" by (rule visible_not_blank) simp_all
  ultimately have "check_rooms [sample_room] = Inr ()"
    by (simp add: check_rooms_Inr validate_room_Inr sample_room_def rules_new_def)
  then show ?thesis
    by (simp add: rooms_ok_def rooms_of_def wf_rate_def) (simp add: sample_room_def rules_new_def)
qed

theorem versioned_files_reload_witness:
  "peers_load sample_externs (Contents (to_bytes sample_externs (peers_to_json (peers_of [sample_entry])))) =
     Inr (Current (peers_of [sample_entry])) \<and>
   rooms_load sample_externs (Contents (x_text sample_externs (JObj [(''schema_version'', JInt 2)]))) =
     Inr (TooNew 2)"
proof -
  have "x_parse sample_externs (x_text sample_externs (JObj [(''schema_version'', JInt 2)])) =
    Some (JObj [(''schema_version'', JInt 2)])"
    by (rule text_roundtrips_printable [OF sample_text_roundtrips])
      (simp add: printable_def ordered_def i64_bounds)
  with versioned_files_reload [OF sample_pretty_roundtrips sample_key_ok _ sample_room_ok this, of "peers_of [sample_entry]" 2]
  show ?thesis using sample_entry_wf by (simp add: peers_ok_def peers_of_def json_get_def)
qed

text \<open>
  A node key is minted once: the first start writes a fresh key, every later start reads the same
  key whatever the random source and the file system answer, and a file that is already there is never
  replaced, not even one that cannot be read.
\<close>

theorem key_minted_once:
  assumes "key_laws X" "pretty_roundtrips X" "length seed = KEY_BYTES"
  shows "(\<exists>file. load_or_create X True (Inr seed) None NotFound = (Inr (Some (from_signing_key X seed)), file) \<and>
      (\<forall>random io. load_or_create X True random io file = (Inr (Some (from_signing_key X seed)), file))) \<and>
    snd (load_or_create X enabled random io (Contents raw)) = Contents raw"
proof -
  let ?k = "from_signing_key X seed" and ?file = "Contents (to_bytes X (node_key_to_json (from_signing_key X seed)))"
  have "node_key_ok X ?k"
    using key_pair_from_signing_key [OF assms(1,3)]
    by (simp add: node_key_ok_def check_shape_def from_signing_key_def NODE_KEY_VERSION_def)
  then have "node_key_load X ?file = Inr (Current ?k)"
    using node_key_file.load_saved [OF assms(2)] by (simp add: node_key_load_def)
  moreover have "load_or_create X True (Inr seed) None NotFound = (Inr (Some ?k), ?file)"
    by (simp add: load_or_create_def node_key_load_def load_versioned_def generate_key_def save_new_private_def)
  ultimately have "\<exists>file. load_or_create X True (Inr seed) None NotFound = (Inr (Some ?k), file) \<and>
      (\<forall>random io. load_or_create X True random io file = (Inr (Some ?k), file))"
    by (intro exI [of _ ?file]) (simp add: load_or_create_def)
  moreover have "snd (load_or_create X enabled random io (Contents raw)) = Contents raw"
  proof -
    have "node_key_load X (Contents raw) \<noteq> Inr Missing"
    by (auto simp: node_key_load_def load_versioned_def bind_result_def split: option.split sum.split)
    then show ?thesis
      by (auto simp: load_or_create_def split: sum.split versioned_load.split)
  qed
  ultimately show ?thesis by blast
qed

theorem key_minted_once_witness:
  "\<exists>file. load_or_create sample_externs True (Inr sample_seed) None NotFound =
       (Inr (Some (from_signing_key sample_externs sample_seed)), file) \<and>
     (\<forall>random io. load_or_create sample_externs True random io file =
       (Inr (Some (from_signing_key sample_externs sample_seed)), file))"
  by (rule key_minted_once [OF sample_key_laws sample_pretty_roundtrips, THEN conjunct1])
    (simp add: sample_seed_def KEY_BYTES_def)

section \<open>The registry\<close>

text \<open>
  A registry a server publishes reaches a node as it was: signed, sent as a line, parsed and read
  out of the body, the table and the rooms are the published ones.
\<close>

theorem registry_crosses_the_wire:
  assumes "key_laws X" "struct_roundtrips X" "node_signing_key X k = Inr seed" "wf_registry X g" "is_i64 ts"
  shows "\<exists>m. registry_sign X g k sender dest ts = Inr m \<and> parse_line X (to_line X m) = Inr m \<and>
    registry_from_body X (msg_body m) = Inr g"
proof -
  let ?m = "sign_with_version X PROTOCOL_VERSION seed sender dest ts (registry_to_body g)"
  have "parse_line X (to_line X ?m) = Inr ?m"
    using assms signing_key_length [OF assms(3)] registry_body_shape [OF assms(4)]
    by (intro signed_message_parses)
  moreover have "registry_sign X g k sender dest ts = Inr ?m"
    using assms(3) by (simp add: registry_sign_def sign_message_def)
  moreover have "registry_from_body X (msg_body ?m) = Inr g"
    using registry_roundtrip [OF assms(4)] by (simp add: sign_with_version_def)
  ultimately show ?thesis by blast
qed

definition sample_registry :: registry where
  "sample_registry = \<lparr>rg_table = \<lparr>nt_generation = 4, nt_entries = [sample_entry]\<rparr>, rg_rooms = rooms_of [sample_room]\<rparr>"

lemma sample_registry_wf: "wf_registry sample_externs sample_registry"
  using sample_entry_wf sample_room_ok by (simp add: wf_registry_def sample_registry_def i64_bounds)

theorem registry_crosses_the_wire_witness:
  "\<exists>m. registry_sign sample_externs sample_registry sample_key ''server'' ''a'' 9 = Inr m \<and>
     parse_line sample_externs (to_line sample_externs m) = Inr m \<and>
     registry_from_body sample_externs (msg_body m) = Inr sample_registry"
  by (rule registry_crosses_the_wire [OF sample_key_laws sample_struct_roundtrips sample_signing_key sample_registry_wf])
    (simp add: i64_bounds)

text \<open>
  C34. A published registry is a source and not an authority: merging one that could be read keeps
  every local peer and room, takes the published one only where there is no local one, counts every
  published entry as added, unchanged or in conflict, leaves a room set the loader accepts, and changes
  nothing when it is merged again.
\<close>

theorem registry_is_a_source:
  assumes "pf_schema_version lp = PEERS_VERSION" "rf_schema_version lr = ROOMS_VERSION"
    and "check_rooms (rf_rooms lr) = Inr ()" "registry_from_body X body = Inr g"
    and "m = registry_merge g lp lr"
  shows "(\<forall>n. peers_entry (mg_peers m) n =
        (case peers_entry lp n of Some e \<Rightarrow> Some e | None \<Rightarrow> table_entry (rg_table g) n)) \<and>
    (\<forall>n. find_room (mg_rooms m) n =
        (case find_room lr n of Some r \<Rightarrow> Some r | None \<Rightarrow> find_room (rg_rooms g) n)) \<and>
    mr_added (mg_peers_report m) + mr_unchanged (mg_peers_report m) + length (mr_conflicts (mg_peers_report m)) =
      length (nt_entries (rg_table g)) \<and>
    rm_added (mg_rooms_report m) + rm_unchanged (mg_rooms_report m) + length (rm_conflicts (mg_rooms_report m)) =
      length (rf_rooms (rg_rooms g)) \<and>
    check_rooms (rf_rooms (mg_rooms m)) = Inr () \<and>
    pf_peers (mg_peers (registry_merge g (mg_peers m) (mg_rooms m))) = pf_peers (mg_peers m) \<and>
    rf_rooms (mg_rooms (registry_merge g (mg_peers m) (mg_rooms m))) = rf_rooms (mg_rooms m)"
proof -
  let ?l = "pf_peers lp" and ?t = "nt_entries (rg_table g)"
  let ?rl = "rf_rooms lr" and ?rt = "rf_rooms (rg_rooms g)"
  note read = registry_from_body_rooms(1,2) [OF assms(4)]
  note m = registry_merge_of [OF assms(1,2) read(2)]
  have v: "pf_schema_version (mg_peers m) = PEERS_VERSION" "rf_schema_version (mg_rooms m) = ROOMS_VERSION"
    by (simp_all add: assms(5) m merged_versions)
  have "peers_entry (mg_peers m) n =
      (case peers_entry lp n of Some e \<Rightarrow> Some e | None \<Rightarrow> table_entry (rg_table g) n)" for n
    using table.local_wins [of n ?l _ ?t] table.published_fills_in [of n ?l ?t]
    by (auto simp: assms(5) m peers_entry_def table_entry_def split: option.split)
  moreover have "find_room (mg_rooms m) n =
      (case find_room lr n of Some r \<Rightarrow> Some r | None \<Rightarrow> find_room (rg_rooms g) n)" for n
    using rooms.local_wins [of n ?rl _ ?rt] rooms.published_fills_in [of n ?rl ?rt]
    by (auto simp: assms(5) m find_room_def split: option.split)
  moreover have "check_rooms (rf_rooms (mg_rooms m)) = Inr ()"
    unfolding assms(5) m using assms(3) read(1) by (rule merged_rooms_loadable)
  ultimately show ?thesis
    using table.every_entry_counted [of ?l ?t] rooms.every_entry_counted [of ?rl ?rt]
      table.merge_again [of ?l ?t] rooms.merge_again [of ?rl ?rt]
      registry_merge_of [OF v read(2)]
    by (simp add: assms(5) m)
qed

theorem registry_is_a_source_witness:
  "find_room (mg_rooms (registry_merge sample_registry empty_peers empty_rooms)) ''lab'' = Some sample_room \<and>
   peers_entry (mg_peers (registry_merge sample_registry empty_peers empty_rooms)) ''b'' = Some sample_entry"
proof -
  note source = registry_is_a_source [OF _ _ _ registry_roundtrip [OF sample_registry_wf] refl, of empty_peers empty_rooms]
  show ?thesis
    using source
    by (simp add: empty_peers_def empty_rooms_def check_rooms_def peers_entry_def find_room_def table_entry_def)
      (simp add: sample_registry_def rooms_of_def sample_room_def sample_entry_def entry_new_def)
qed

section \<open>Announcements\<close>

text \<open>
  What an announcement may do: only one that names a room of the receiver gets past the filter;
  then a known peer's addresses are on offer and an unknown node is only reported. A receiver that is in
  no room ignores every announcement.
\<close>

theorem announcement_outcomes:
  "(consider_announcement X body f flt = Inr (RefreshedAddresses n addrs) \<longleftrightarrow>
     (\<exists>rooms e. announced_rooms body = Inr rooms \<and> set rooms \<inter> set flt \<noteq> {} \<and>
        announced_entry X body = Inr e \<and> n = pe_node_id e \<and> addrs = pe_addresses e \<and>
        peers_entry f n \<noteq> None)) \<and>
   (consider_announcement X body f flt = Inr (ReportedUnknown n addrs rs) \<longleftrightarrow>
     (\<exists>e. announced_rooms body = Inr rs \<and> set rs \<inter> set flt \<noteq> {} \<and>
        announced_entry X body = Inr e \<and> n = pe_node_id e \<and> addrs = pe_addresses e \<and>
        peers_entry f n = None)) \<and>
   consider_announcement X body f filter_none = map_sum id IgnoredOutOfRoom (announced_rooms body)"
proof -
  have admits: "admits flt rooms \<longleftrightarrow> set rooms \<inter> set flt \<noteq> {}" for flt rooms
    by (auto simp: admits_def filter_contains_def list_ex_iff)
  show ?thesis
    by (cases "announced_rooms body")
      (auto simp: consider_announcement_def bind_result_Inr_iff admits filter_none_def split: option.splits)
qed

section \<open>Budgets\<close>

text \<open>
  However a room's messages are timed, no member gets more than twice the room's budget through
  within any span of one window.
\<close>

theorem rate_bound:
  assumes "sorted (map call_time calls)"
    and "\<forall>call \<in> set calls. sane_clock (call_time call) \<and> 0 < rr_window_seconds (rules (fst (call_key call)))"
  shows "count_in a (a + window_ms (rules room)) (admitted_times rules (room, member) calls [])
    \<le> 2 * rr_messages (rules room)"
proof (cases calls)
  case Nil
  then show ?thesis by (simp add: admitted_times_def count_in_def)
next
  case (Cons call rest)
  then show ?thesis
    using assms budget_respected [OF counters_inv_start, of "call_time call" calls rules a "(room, member)"]
    by simp
qed

theorem rate_bound_witness:
  "count_in 50 (50 + window_ms \<lparr>rr_messages = 1, rr_window_seconds = 1\<rparr>)
     (admitted_times (\<lambda>_. \<lparr>rr_messages = 1, rr_window_seconds = 1\<rparr>) (''lab'', ''a'')
        [(''lab'', ''a'', 50), (''lab'', ''a'', 60), (''lab'', ''a'', 1049), (''lab'', ''a'', 1050)] []) \<le> 2 \<and>
   admitted_times (\<lambda>_. \<lparr>rr_messages = 1, rr_window_seconds = 1\<rparr>) (''lab'', ''a'')
     [(''lab'', ''a'', 50), (''lab'', ''a'', 60), (''lab'', ''a'', 1049), (''lab'', ''a'', 1050)] [] = [50, 1050]"
  using rate_bound [of "[(''lab'', ''a'', 50), (''lab'', ''a'', 60), (''lab'', ''a'', 1049), (''lab'', ''a'', 1050)]"
      "\<lambda>_. \<lparr>rr_messages = 1, rr_window_seconds = 1\<rparr>" 50 "''lab''" "''a''"]
  by (simp add: sane_clock_def admitted_times_def admit_def Let_def window_ms_def rate_allows_def
      i64_sub_def wrap_i64_def)

section \<open>A delivered segment\<close>

text \<open>
  The two checks of a delivered segment are exact: the envelope passes when the stream was
  addressed to this node and its events are the announced positions once each, in any order; the linkage
  passes when there are events, all with both hashes, and as rows they are a chain of their own.
\<close>

theorem segment_checks_exact:
  "(verify_delivery this_node d events = Inr () \<longleftrightarrow>
      sd_centre d = this_node \<and> mset (map sg_index events) = mset [0 ..< sd_total d]) \<and>
   (verify_linkage X events = Inr () \<longleftrightarrow>
      events \<noteq> [] \<and> list_all (\<lambda>e. sg_hash e \<noteq> None \<and> sg_prev_hash e \<noteq> None) events \<and>
      chained X (or_default (sg_prev_hash (hd events))) (map (segment_row X) events))"
  by (simp add: verify_delivery_Inr verify_linkage_Inr list_all_iff)

section \<open>Framing\<close>

text \<open>
  Frames written one after the other are read back one by one, byte for byte, until the
  connection ends.
\<close>

theorem frames_arrive_as_sent:
  assumes "\<forall>f \<in> set frames. one_line c f"
  shows "receive_all c \<lparr>in_bytes = concat (map frame_bytes frames), in_end = Eof\<rparr> = (frames, T_Closed OpRead)"
proof -
  have "frame_bytes f = f" if "one_line c f" for f
    using that by (auto simp: one_line_def frame_bytes_def)
  then have "map frame_bytes frames = frames"
    using assms by (intro map_idI) auto
  moreover have "receive_all c \<lparr>in_bytes = [], in_end = Eof\<rparr> = ([], T_Closed OpRead)"
    by (subst receive_all.simps) (simp add: receive_frame_def)
  ultimately show ?thesis
    using receive_all_frames [of frames c "[]" Eof] assms by simp
qed

theorem frames_arrive_as_sent_witness:
  "receive_all default_config \<lparr>in_bytes = concat (map frame_bytes [''a'' @ [FRAME_TERMINATOR]]), in_end = Eof\<rparr> =
     ([''a'' @ [FRAME_TERMINATOR]], T_Closed OpRead)"
  by (rule frames_arrive_as_sent)
    (simp add: one_line_def byte_in_def FRAME_TERMINATOR_def default_config_def DEFAULT_MAX_FRAME_BYTES_def char_of_def)

end
