(* ===== verification/Net_Task.thy ===== *)
theory Net_Task
  imports Net_Liveness
begin

text \<open>\<open>net/src/task.rs\<close>: the two frames a task crosses a machine in.\<close>

record task_frame =
  tf_task_id :: string
  tf_target :: string
  tf_input :: string
  tf_sandbox :: "string option"
  tf_instance :: "string option"

definition task_body :: "task_frame \<Rightarrow> json" where
  "task_body t =
     json_obj [(''task'', JInt (int PROTOCOL_VERSION)), (''task_id'', JStr (tf_task_id t)),
               (''target'', JStr (tf_target t)), (''input'', JStr (tf_input t)),
               (''sandbox'', opt_str (tf_sandbox t)), (''instance'', opt_str (tf_instance t))]"

definition is_task :: "json \<Rightarrow> bool" where "is_task body = versioned_body ''task'' body"

definition task_from_body :: "json \<Rightarrow> task_frame option" where
  "task_from_body body =
     (if \<not> is_task body then None
      else Option.bind (Option.bind (json_get ''task_id'' body) as_str) (\<lambda>task_id.
           Option.bind (Option.bind (json_get ''target'' body) as_str) (\<lambda>target.
           Option.bind (Option.bind (json_get ''input'' body) as_str) (\<lambda>input.
           Some \<lparr>tf_task_id = task_id, tf_target = target, tf_input = input,
                 tf_sandbox = Option.bind (json_get ''sandbox'' body) as_str,
                 tf_instance = Option.bind (json_get ''instance'' body) as_str\<rparr>))))"

record task_reply =
  tr_task_id :: string
  tr_agent_id :: "string option"
  tr_outcome :: "json option"
  tr_error :: "string option"

definition opt_json :: "json option \<Rightarrow> json" where
  "opt_json v = (case v of None \<Rightarrow> JNull | Some w \<Rightarrow> w)"

definition task_reply_body :: "task_reply \<Rightarrow> json" where
  "task_reply_body r =
     json_obj [(''task_reply'', JInt (int PROTOCOL_VERSION)), (''task_id'', JStr (tr_task_id r)),
               (''agent_id'', opt_str (tr_agent_id r)), (''outcome'', opt_json (tr_outcome r)),
               (''error'', opt_str (tr_error r))]"

definition is_task_reply :: "json \<Rightarrow> bool" where "is_task_reply body = versioned_body ''task_reply'' body"

definition task_reply_from_body :: "json \<Rightarrow> task_reply option" where
  "task_reply_from_body body =
     (if \<not> is_task_reply body then None
      else Option.bind (Option.bind (json_get ''task_id'' body) as_str) (\<lambda>task_id.
           Some \<lparr>tr_task_id = task_id,
                 tr_agent_id = Option.bind (json_get ''agent_id'' body) as_str,
                 tr_outcome =
                   (case json_get ''outcome'' body of
                      None \<Rightarrow> None
                    | Some v \<Rightarrow> if v = JNull then None else Some v),
                 tr_error = Option.bind (json_get ''error'' body) as_str\<rparr>))"

lemma task_roundtrip: "task_from_body (task_body t) = Some t"
  by (simp add: task_from_body_def is_task_def task_body_def versioned_body_def json_get_obj
      as_str_opt_str PROTOCOL_VERSION_def)

text \<open>An outcome that is JSON \<open>null\<close> is read as no outcome.\<close>

lemma task_reply_roundtrip:
  "task_reply_from_body (task_reply_body r) =
     Some (r\<lparr>tr_outcome := (if tr_outcome r = Some JNull then None else tr_outcome r)\<rparr>)"
  by (cases r)
    (auto simp: task_reply_from_body_def is_task_reply_def task_reply_body_def versioned_body_def
      json_get_obj as_str_opt_str PROTOCOL_VERSION_def opt_json_def split: option.split)

end
