(* ===== verification/Relay_Properties.thy ===== *)
theory Relay_Properties
  imports Net_System Net_Properties Net_Task
begin

text \<open>
  The properties of the cross-region server and of the group: what it carries, its sessions, its
  judgements, a prober's view, and the way to a takeover. Histories are arbitrary interleavings of the
  server's connections.
\<close>

section \<open>A fresh server\<close>






definition quiet_wires :: wires where
  "quiet_wires = \<lparr>wi_written = [], wi_fails = (\<lambda>_. None)\<rparr>"

definition sample_server :: server where
  "sample_server = \<lparr>sv_node_id = ''s'', sv_key = sample_key, sv_peers = peers_of [sample_entry],
     sv_keys = [(''b'', [sample_seed])], sv_rooms = rooms_of [sample_room], sv_generation = FIRST_GENERATION,
     sv_guard = new_guard, sv_sessions = new_sessions, sv_online = [], sv_witnesses = [], sv_digests = [],
     sv_key_events = [], sv_transition_sink = False, sv_transitions = [], sv_digest_sink = False,
     sv_digest_facts = [], sv_wires = quiet_wires\<rparr>"


section \<open>Carrying frames\<close>

text \<open>
  C4. Whatever the interleaving of its connections, the frames it is sent and the tables its deployer
  replaces, the server takes no frame twice: the sender, time and body hash of everything it answered or
  carried (a hello apart) are pairwise distinct.
\<close>

theorem server_takes_no_frame_twice:
  "distinct (map (op_key X) (accepted_by (sys_take X) ops y))"
  by (rule taken_once.accepted_distinct)

text \<open>
  C7. A frame the server carries goes out byte for byte on the socket of the addressee's session and on
  no other, was signed by a node the server knows, names a node the server knows, and was never seen
  before; nothing but the sender's record and the wires changes.
\<close>

theorem carried_frame_is_verbatim:
  assumes "server_route X frame now s = (Inr (R_Forwarded sender dest), s')"
  shows "\<exists>m l. parse_line X frame = Inr m \<and> msg_from m = sender \<and> msg_to m = dest \<and> dest \<noteq> sv_node_id s \<and>
    check_identity X m (sv_keys s) = Inr () \<and> peers_entry (sv_peers s) dest \<noteq> None \<and>
    map_of (ss_sessions (sv_sessions s)) dest = Some l \<and>
    \<not> remembered (sv_guard s) (message_key X m) \<and> remembered (sv_guard s') (message_key X m) \<and>
    wi_written (sv_wires s') = wi_written (sv_wires s) @ [(lv_writer l, frame_bytes frame)] \<and>
    s' = s\<lparr>sv_guard := sv_guard s', sv_wires := sv_wires s'\<rparr>"
proof -
  obtain g' w' where r: "route X frame (sv_node_id s) (sv_peers s) (sv_keys s) (forward_to (sv_sessions s)) now
      (sv_guard s) (sv_wires s) = (Inr (R_Forwarded sender dest), g', w')"
    and s': "s' = s\<lparr>sv_guard := g', sv_wires := w'\<rparr>"
    using assms by (auto simp: server_route_def split: prod.splits)
  have fresh: "seen g' (frame_key X frame) \<and> \<not> seen (sv_guard s) (frame_key X frame)"
    by (rule route_taken_marks [OF r]) (simp add: taken_def)
  from r show ?thesis
  proof (cases rule: route_cases)
    case (carried m)
    have placed: "peers_entry (sv_peers s) (msg_to m) \<noteq> None"
      "fst (forward_to (sv_sessions s) (msg_to m) frame (sv_wires s)) = Inr ()"
      "sender = msg_from m" "dest = msg_to m"
      "w' = snd (forward_to (sv_sessions s) (msg_to m) frame (sv_wires s))"
      using carried(4) by (auto split: if_splits sum.splits)
        (cases "fst (forward_to (sv_sessions s) (msg_to m) frame (sv_wires s))"; simp)+
    moreover from placed(2,5) obtain l where "map_of (ss_sessions (sv_sessions s)) (msg_to m) = Some l"
      "wi_written w' = wi_written (sv_wires s) @ [(lv_writer l, frame_bytes frame)]"
      by (auto simp: forward_to_def write_all_def split: option.splits)
    ultimately show ?thesis
      using carried fresh authenticate_forwarded_accepts [OF carried(3)]
      by (intro exI [of _ m] exI [of _ l]) (simp add: s' seen_def frame_key_def)
  qed auto
qed

definition sample_frame :: "string \<Rightarrow> int \<Rightarrow> json \<Rightarrow> string" where
  "sample_frame dest ts body =
     to_line sample_externs (sign_with_version sample_externs PROTOCOL_VERSION sample_seed ''b'' dest ts body)"

lemma sample_frame_parses:
  assumes "is_i64 ts" "wf_json body" "float_free_depth 126 body"
  shows "parse_line sample_externs (sample_frame dest ts body) =
    Inr (sign_with_version sample_externs PROTOCOL_VERSION sample_seed ''b'' dest ts body)"
  unfolding sample_frame_def
  using assms by (intro signed_message_parses sample_key_laws sample_struct_roundtrips)
    (simp_all add: sample_seed_def KEY_BYTES_def)

lemma sample_frame_identity:
  "check_identity sample_externs (sign_with_version sample_externs PROTOCOL_VERSION sample_seed ''b'' dest ts body)
     (sv_keys sample_server) = Inr ()"
proof -
  have "verify_with sample_externs (x_public sample_externs sample_seed)
    (sign_with_version sample_externs PROTOCOL_VERSION sample_seed ''b'' dest ts body)"
    by (rule sign_verifies [OF sample_key_laws]) (simp add: sample_seed_def KEY_BYTES_def)
  moreover have "x_public sample_externs sample_seed = sample_seed" by (simp add: sample_externs_def)
  ultimately show ?thesis
    by (simp add: check_identity_def knows_def keys_of_def sample_server_def)
      (simp add: sign_with_version_def)
qed

definition dialled_in :: server where
  "dialled_in = sample_server\<lparr>sv_sessions :=
     \<lparr>ss_sessions = [(''b'', \<lparr>lv_id = 0, lv_addr = ''10.0.0.1:5'', lv_writer = 7\<rparr>)], ss_next_id = 1\<rparr>\<rparr>"

lemma sample_carried:
  "fst (server_route sample_externs (sample_frame ''b'' 1000 JNull) 1000 dialled_in) = Inr (R_Forwarded ''b'' ''b'')"
proof -
  let ?m = "sign_with_version sample_externs PROTOCOL_VERSION sample_seed ''b'' ''b'' 1000 JNull"
  have m: "msg_from ?m = ''b''" "msg_to ?m = ''b''" "msg_ts ?m = 1000" "msg_body ?m = JNull"
    by (simp_all add: sign_with_version_def)
  have parse: "parse_line sample_externs (sample_frame ''b'' 1000 JNull) = Inr ?m"
    by (rule sample_frame_parses) (simp_all add: i64_bounds)
  have "fst (guard_accept ''b'' 1000 (body_hash sample_externs JNull) 1000 new_guard) = Inr ()"
    by (rule guard_accept_fresh)
      (simp_all add: new_guard_def default_window_def REPLAY_WINDOW_BACK_MS_def REPLAY_WINDOW_AHEAD_MS_def
        i64_sub_def i64_add_def wrap_i64_def remembered_def)
  then obtain g where "guard_accept ''b'' 1000 (body_hash sample_externs JNull) 1000 new_guard = (Inr (), g)"
    by (metis prod.collapse)
  then have auth: "authenticate_forwarded sample_externs ?m (sv_keys sample_server) 1000 new_guard = (Inr (), g)"
    by (simp add: authenticate_forwarded_def sample_frame_identity accept_message_def m)
  have fields: "sv_keys dialled_in = sv_keys sample_server" "sv_guard dialled_in = new_guard"
    "sv_node_id dialled_in = ''s''" "peers_entry (sv_peers dialled_in) ''b'' \<noteq> None"
    "fst (forward_to (sv_sessions dialled_in) ''b'' frame (sv_wires dialled_in)) = Inr ()" for frame
    by (simp_all add: dialled_in_def sample_server_def peers_entry_def peers_of_def sample_entry_def
        entry_new_def forward_to_def write_all_def quiet_wires_def)
  then show ?thesis
    by (simp add: server_route_def route_def parse m auth split: prod.split sum.split)
      (metis fst_conv sum.distinct(1))
qed

theorem carried_frame_is_verbatim_witness:
  "wi_written (sv_wires (snd (server_route sample_externs (sample_frame ''b'' 1000 JNull) 1000 dialled_in))) =
     [(7, frame_bytes (sample_frame ''b'' 1000 JNull))]"
proof -
  have "server_route sample_externs (sample_frame ''b'' 1000 JNull) 1000 dialled_in =
    (Inr (R_Forwarded ''b'' ''b''), snd (server_route sample_externs (sample_frame ''b'' 1000 JNull) 1000 dialled_in))"
    using sample_carried by (simp add: prod_eq_iff)
  from carried_frame_is_verbatim [OF this] show ?thesis
    by (auto simp: dialled_in_def sample_server_def quiet_wires_def)
qed

section \<open>Sessions\<close>


lemma sample_hello_parses:
  "parse_line sample_externs (sample_frame ''s'' 5 hello_body) =
    Inr (sign_with_version sample_externs PROTOCOL_VERSION sample_seed ''b'' ''s'' 5 hello_body)"
  by (rule sample_frame_parses)
    (simp_all add: hello_body_def json_obj_def obj_insert_all_def ordered_def i64_bounds PROTOCOL_VERSION_def)

lemma hello_route:
  assumes "parse_line X frame = Inr m" "msg_to m = sv_node_id s" "check_identity X m (sv_keys s) = Inr ()"
    "local_of (msg_body m) = L_Hello"
  shows "server_route X frame now s = (Inr (R_Local (msg_from m) (sv_node_id s) L_Hello), s)"
  using assms by (simp add: server_route_def route_def)

lemma hello_serve:
  assumes "parse_line X frame = Inr m" "msg_to m = sv_node_id s" "check_identity X m (sv_keys s) = Inr ()"
    "local_of (msg_body m) = L_Hello" "cn_bound c = None"
  shows "serve_frame X frame now clock True c s =
    (c\<lparr>cn_bound := Some (msg_from m, ss_next_id (sv_sessions s))\<rparr>,
     s\<lparr>sv_sessions := snd (bind_session (msg_from m) (cn_socket c) (cn_addr c) (sv_sessions s))\<rparr>)"
  using assms(5) by (simp add: serve_frame_def hello_route [OF assms(1-4)] bind_session_def)

lemma sample_hello_local:
  "msg_to (sign_with_version X v seed a b ts hello_body) = b" "msg_from (sign_with_version X v seed a b ts hello_body) = a"
  "local_of (msg_body (sign_with_version X v seed a b ts hello_body)) = L_Hello"
  by (simp_all add: sign_with_version_def local_of_bodies)



text \<open>
  C37. A hello passes the signature check and nothing else, so a recorded one is good for ever: on any
  fresh connection, at any later time and any number of times, it takes the sender's session over, and
  what the server then carries to that name goes to the new socket. The record of frames seen does not
  change.
\<close>

theorem replayed_hello_takes_the_session:
  assumes "parse_line X frame = Inr m" "msg_to m = sv_node_id s" "check_identity X m (sv_keys s) = Inr ()"
    and "is_hello (msg_body m)" "cn_bound c = None" "wi_fails (sv_wires s) (cn_socket c) = None"
    and "s' = snd (serve_frame X frame now clock True c s)"
  shows "sv_guard s' = sv_guard s \<and>
    forward_to (sv_sessions s') (msg_from m) carried (sv_wires s') =
      (Inr (), (sv_wires s)\<lparr>wi_written := wi_written (sv_wires s) @ [(cn_socket c, frame_bytes carried)]\<rparr>)"
proof -
  have "local_of (msg_body m) = L_Hello" using assms(4) by (simp add: local_of_def)
  from hello_serve [OF assms(1,2,3) this assms(5), of now clock]
  have "s' = s\<lparr>sv_sessions := snd (bind_session (msg_from m) (cn_socket c) (cn_addr c) (sv_sessions s))\<rparr>"
    by (simp add: assms(7))
  then show ?thesis
    using assms(6) by (simp add: bind_session_def forward_to_def write_all_def)
qed

theorem replayed_hello_takes_the_session_witness:
  "forward_to (sv_sessions (snd (serve_frame sample_externs (sample_frame ''s'' 5 hello_body) 999999999 0 True
       (new_connection 9 ''attacker'') dialled_in))) ''b'' ''secret''
     (sv_wires (snd (serve_frame sample_externs (sample_frame ''s'' 5 hello_body) 999999999 0 True
       (new_connection 9 ''attacker'') dialled_in))) =
     (Inr (), quiet_wires\<lparr>wi_written := [(9, frame_bytes ''secret'')]\<rparr>)"
  using replayed_hello_takes_the_session [OF sample_hello_parses, of dialled_in "new_connection 9 ''attacker''"
      _ 999999999 0 "''secret''", OF _ _ _ _ _ refl] sample_frame_identity [of "''s''" 5 hello_body]
  by (simp add: sample_hello_local dialled_in_def new_connection_def)
    (simp add: sample_server_def sign_with_version_def is_hello_def hello_body_def versioned_body_def
      json_get_obj PROTOCOL_VERSION_def quiet_wires_def)

section \<open>Judgements\<close>

text \<open>
  C6. The server judges a node gone exactly when the node has a row that is not judged yet, at least
  one witness counts (another node, online now, whose latest report is inside the window) and every one
  that counts reported it unreachable; the judgement names those witnesses.
\<close>

theorem judged_by_unanimity:
  "sv_transitions (server_judge p now s) = sv_transitions s @
     (let ws = witnesses_of (sv_witnesses s) p now (is_online (sv_online s) now)
      in if sv_transition_sink s \<and> map_of (sv_online s) p \<noteq> None \<and> \<not> judged_now (sv_online s) p \<and>
            ws \<noteq> {} \<and> \<not> (\<exists>(w, r) \<in> ws. wr_reachable r)
         then [Judged \<lparr>ju_peer = p, ju_witnesses = sorted_list_of_set (fst ` ws), ju_reports = card (fst ` ws)\<rparr>]
         else [])"
proof (cases "judge (sv_witnesses s) p now (is_online (sv_online s) now)")
  case None
  then have "\<not> (witnesses_of (sv_witnesses s) p now (is_online (sv_online s) now) \<noteq> {} \<and>
    (\<forall>(w, r) \<in> witnesses_of (sv_witnesses s) p now (is_online (sv_online s) now). \<not> wr_reachable r))"
    using judge_Some [of "sv_witnesses s" p now "is_online (sv_online s) now"] by auto
  then show ?thesis using None by (auto simp: server_judge_def Let_def)
next
  case (Some j)
  note rule = judge_Some [THEN iffD1, OF Some]
  obtain newly t where "mark_judged p now (sv_online s) = (newly, t)" by force
  then show ?thesis
    using Some rule judged_now_table(7) [of p now "sv_online s"]
    by (auto simp: server_judge_def Let_def fire_def)
qed



text \<open>
  A registration counts as a beat, yet it does not end a judgement: a judged node that registers
  again reads online and stays judged, and no recovery is reported.
\<close>

theorem reregistration_keeps_the_judgement:
  assumes "judged_now (sv_online s) n" "s' = snd (answer_local X n (L_Register claims) now clock s)"
  shows "is_online (sv_online s') now n \<and> judged_now (sv_online s') n \<and> sv_transitions s' = sv_transitions s"
proof -
  have online: "sv_online s' = snd (register_row n claims now (sv_online s))"
    "sv_transitions s' = sv_transitions s"
    by (simp_all add: assms(2) snd_and_then_reply split: prod.split)
  have "\<exists>row. map_of (snd (register_row n claims now (sv_online s))) n = Some row \<and> or_last_heartbeat_ms row = now"
    by (cases "map_of (sv_online s) n") (simp_all add: register_row_def)
  then obtain row where row: "map_of (snd (register_row n claims now (sv_online s))) n = Some row"
    "or_last_heartbeat_ms row = now"
    by blast
  have find: "find (\<lambda>e. oe_node_id e = n) (online_rows now t) \<noteq> None \<and>
    oe_state (the (find (\<lambda>e. oe_node_id e = n) (online_rows now t))) = state_of (or_last_heartbeat_ms r) now"
    if "map_of t n = Some r" for t r
    using that by (induction t) (auto simp: online_rows_def split: if_splits)
  have "state_of now now = Online"
    by (simp add: state_of_def i64_sub_def wrap_i64_def ONLINE_WINDOW_MS_def)
  then have "is_online (sv_online s') now n"
    using find [OF row(1)] row(2) by (auto simp: is_online_def online_row_at_def online split: option.split)
  then show ?thesis using assms(1) online judged_now_table(1) [of n claims now "sv_online s" n] by simp
qed

theorem reregistration_keeps_the_judgement_witness:
  "judged_now (sv_online (snd (answer_local sample_externs ''b''
     (L_Register \<lparr>rn_addresses = [], rn_capabilities = [], rn_rooms = []\<rparr>) 100000 100000
     (dialled_in\<lparr>sv_online := [(''b'', \<lparr>or_addresses = [], or_capabilities = [], or_rooms = [],
        or_last_heartbeat_ms = 5, or_judged_at_ms = Some 60000\<rparr>)]\<rparr>)))) ''b''"
  using reregistration_keeps_the_judgement [OF _ refl,
      of "dialled_in\<lparr>sv_online := [(''b'', \<lparr>or_addresses = [], or_capabilities = [], or_rooms = [],
        or_last_heartbeat_ms = 5, or_judged_at_ms = Some 60000\<rparr>)]\<rparr>" "''b''" sample_externs
        "\<lparr>rn_addresses = [], rn_capabilities = [], rn_rooms = []\<rparr>" 100000 100000]
  by (simp add: judged_now_def)

section \<open>The prober\<close>

text \<open>
  A prober's view of a peer is its history: when it last answered, how many probes in a row it has
  missed since (up to the type's limit), and reachable exactly while those are fewer than three.
\<close>

theorem prober_view_is_history:
  "map_of (foldl (\<lambda>v op. probe_step op v) (prober_new peers) ops) p =
     (if p \<in> set peers then
        Some \<lparr>pv_last_answer_ms = last_answer p (rev ops),
              pv_consecutive_misses = min (misses_since p (rev ops)) (2 ^ 32 - 1),
              pv_reachable = (misses_since p (rev ops) < 3)\<rparr>
      else None)"
  by (simp add: prober_history view_of_history_def PROBE_MISSES_def)

section \<open>The way to a takeover\<close>

text \<open>
  C8. A node stands in for its centre only after the whole sequence, under a clock that does not run
  backwards: it saw the centre unreachable, saw it so again at least a minute later, then the group's
  witnesses judged the centre gone, then its own backoff from that moment elapsed; and from the first of
  these on it neither saw the centre nor heard of a takeover.
\<close>

theorem standing_in_is_earned:
  assumes "sup_life node t0 now inputs s" "su_phase s = StandingIn"
  shows "\<exists>pre t1 a t2 b t centre t3 online c t4 rest.
    inputs = pre @ Observe False t1 # a @ Observe False t2 # b @ Confirm t centre t3 online # c @
      MaybeStandIn t4 # rest \<and>
    t1 + 60000 \<le> t2 \<and> t2 \<le> t3 \<and> judge t centre t3 online \<noteq> None \<and>
    t3 + backoff_delay_ms node t3 \<le> t4 \<and> \<not> list_ex calls_off (a @ b @ c @ rest)"
proof -
  have "su_node_id s = node" "phase_earned inputs now s"
    using sup_life_earned [OF assms(1)] by blast+
  then have "earned node inputs (su_since_ms s)" using assms(2) by (simp add: phase_earned_def)
  then obtain p3 t3 rest where 4: "inputs = p3 @ MaybeStandIn (su_since_ms s) # rest" "quiet rest"
    "confirmed p3 t3" "t3 + backoff_delay_ms node t3 \<le> su_since_ms s"
    unfolding earned_def by blast
  from 4(3) obtain p2 t2 t centre online c where 3: "p3 = p2 @ Confirm t centre t3 online # c" "quiet c"
    "asked p2 t2" "t2 \<le> t3" "judge t centre t3 online \<noteq> None"
    unfolding confirmed_def by blast
  from 3(3) obtain p1 t1 b where 2: "p2 = p1 @ Observe False t2 # b" "quiet b" "waited p1 t1" "t1 + 60000 \<le> t2"
    by (auto simp: asked_def SUPPRESSION_WAIT_MS_def)
  from 2(3) obtain pre a where 1: "p1 = pre @ Observe False t1 # a" "quiet a"
    unfolding waited_def by blast
  have inputs: "inputs = pre @ Observe False t1 # a @ Observe False t2 # b @ Confirm t centre t3 online # c @
      MaybeStandIn (su_since_ms s) # rest"
    by (simp add: 1(1) 2(1) 3(1) 4(1))
  have quiet: "\<not> list_ex calls_off (a @ b @ c @ rest)"
    using 1(2) 2(2) 3(2) 4(2) by (simp add: quiet_def)
  show ?thesis
    by (rule exI [of _ pre], rule exI [of _ t1], rule exI [of _ a], rule exI [of _ t2], rule exI [of _ b],
        rule exI [of _ t], rule exI [of _ centre], rule exI [of _ t3], rule exI [of _ online],
        rule exI [of _ c], rule exI [of _ "su_since_ms s"], rule exI [of _ rest])
      (intro conjI inputs quiet 2(4) 3(4,5) 4(4))
qed

text \<open>
  And the sequence is enough: a node that sees its centre unreachable twice a minute apart, has it
  confirmed, and asks at least thirty seconds later stands in, whatever its backoff is.
\<close>

theorem standing_in_is_reached:
  assumes "sane_clock t1" "sane_clock t2" "sane_clock t3" "t1 + 60000 \<le> t2" "t3 + 30000 \<le> t4"
    and "judge tab centre t3 online \<noteq> None"
  shows "su_phase (foldl (\<lambda>s i. sup_step i s) (suppression_new node t0)
    [Observe False t1, Observe False t2, Confirm tab centre t3 online, MaybeStandIn t4]) = StandingIn"
  using assms backoff_bounds [of node t3]
  by (auto simp: sup_observe_def sup_confirm_def maybe_stand_in_def backoff_elapsed_def suppression_new_def
      wait_elapsed backoff_deadline SUPPRESSION_WAIT_MS_def SUPPRESSION_BACKOFF_MAX_MS_def Let_def)

definition sample_witnesses :: witness_table where
  "sample_witnesses = [(''centre'', [(''dev-b'', \<lparr>wr_reachable = False, wr_at_ms = 60000\<rparr>)])]"

lemma sample_judge: "judge sample_witnesses ''centre'' 60000 (\<lambda>_. True) \<noteq> None"
  by (simp add: judge_def sample_witnesses_def i64_sub_def wrap_i64_def REPORT_WINDOW_MS_def insort_insert_key_def)

theorem standing_in_is_reached_witness:
  "su_phase (foldl (\<lambda>s i. sup_step i s) (suppression_new ''dev-a'' 0)
    [Observe False 0, Observe False 60000, Confirm sample_witnesses ''centre'' 60000 (\<lambda>_. True), MaybeStandIn 90000]) =
   StandingIn"
  by (rule standing_in_is_reached [OF _ _ _ _ _ sample_judge]) (simp_all add: sane_clock_def)

lemma sample_life:
  "sup_life ''dev-a'' 0 90000
     [Observe False 0, Observe False 60000, Confirm sample_witnesses ''centre'' 60000 (\<lambda>_. True), MaybeStandIn 90000]
     (foldl (\<lambda>s i. sup_step i s) (suppression_new ''dev-a'' 0)
        [Observe False 0, Observe False 60000, Confirm sample_witnesses ''centre'' 60000 (\<lambda>_. True), MaybeStandIn 90000])"
proof -
  have snoc: "sup_life n t0 now inputs s \<Longrightarrow> now \<le> input_time i \<Longrightarrow> sane_clock (input_time i) \<Longrightarrow>
    sup_life n t0 (input_time i) (inputs @ [i]) (sup_step i s)" for n t0 now inputs s i
    by (rule sup_life.lives)
  note born = sup_life.born [of 0 "''dev-a''"]
  note l1 = snoc [OF born, of "Observe False 0"]
  note l2 = snoc [OF l1, of "Observe False 60000"]
  note l3 = snoc [OF l2, of "Confirm sample_witnesses ''centre'' 60000 (\<lambda>_. True)"]
  note l4 = snoc [OF l3, of "MaybeStandIn 90000"]
  from l4 show ?thesis by (simp add: sane_clock_def)
qed

theorem standing_in_is_earned_witness:
  "\<exists>pre t1 a t2 b t centre t3 online c t4 rest.
    [Observe False 0, Observe False 60000, Confirm sample_witnesses ''centre'' 60000 (\<lambda>_. True), MaybeStandIn 90000] =
      pre @ Observe False t1 # a @ Observe False t2 # b @ Confirm t centre t3 online # c @ MaybeStandIn t4 # rest \<and>
    t1 + 60000 \<le> t2 \<and> t2 \<le> t3 \<and> judge t centre t3 online \<noteq> None \<and>
    t3 + backoff_delay_ms ''dev-a'' t3 \<le> t4 \<and> \<not> list_ex calls_off (a @ b @ c @ rest)"
proof -
  have "su_phase (foldl (\<lambda>s i. sup_step i s) (suppression_new ''dev-a'' 0)
    [Observe False 0, Observe False 60000, Confirm sample_witnesses ''centre'' 60000 (\<lambda>_. True), MaybeStandIn 90000]) =
    StandingIn"
    using backoff_bounds [of "''dev-a''" 60000] sample_judge
    by (auto simp: sup_observe_def sup_confirm_def maybe_stand_in_def backoff_elapsed_def suppression_new_def
        wait_elapsed backoff_deadline sane_clock_def SUPPRESSION_WAIT_MS_def SUPPRESSION_BACKOFF_MAX_MS_def Let_def)
  from standing_in_is_earned [OF sample_life this] show ?thesis .
qed

text \<open>
  Two nodes that are confirmed in the same millisecond can draw the same backoff, although their
  names differ.
\<close>

theorem backoffs_can_collide:
  "backoff_delay_ms ''dev-69'' 1700000000000 = backoff_delay_ms ''dev-72'' 1700000000000"
  by (simp add: backoff_delay_ms_def to_le_bytes_def upt_rec SUPPRESSION_BACKOFF_MAX_MS_def)

end
