(* ===== verification/Host_Audit.thy ===== *)
theory Host_Audit
  imports Audit_Index
begin

text \<open>
  The host's side of the audit log, \<open>host-core/src/state.rs\<close>: its events, the queue of failed writes
  and their announcements, run provenance (opening, closing and abandoning runs), the views and
  exports; \<open>host-core/src/error.rs\<close> and \<open>host-core/src/run_diff.rs\<close>. \<open>ha_db\<close> is the store the host's
  sink and its readers share. Clock readings, fresh run ids and what the machine answers to probes
  are arguments.
\<close>

section \<open>Errors\<close>

datatype host_error =
    NotConfigured string
  | PolicyDenied string
  | AgentFailed string
  | AuditFailed audit_error
  | IoFailed string
  | SandboxNotFound string
  | SandboxQemuMissing string
  | SandboxToolchainMissing string
  | SandboxKernelMissing string
  | SandboxStart string
  | SandboxRequestNotFound string
  | SandboxRequestDecided string
  | SandboxConflict string
  | InstanceNotFound string
  | InstanceConflict string
  | Archive string
  | WorkspaceEntryExists string
  | NoSuchExecutor string
  | TaskFailed string
  | HostOther string

fun host_error_text :: "host_error \<Rightarrow> string" where
  "host_error_text (NotConfigured s) = ''not configured: '' @ s"
| "host_error_text (PolicyDenied s) = ''policy denied: '' @ s"
| "host_error_text (AgentFailed s) = ''agent error: '' @ s"
| "host_error_text (AuditFailed e) = ''audit error: '' @ audit_error_text e"
| "host_error_text (IoFailed s) = ''io error: '' @ s"
| "host_error_text (SandboxNotFound s) = ''sandbox_not_found: '' @ s"
| "host_error_text (SandboxQemuMissing s) = ''sandbox_qemu_missing: '' @ s"
| "host_error_text (SandboxToolchainMissing s) = ''sandbox_toolchain_missing: '' @ s"
| "host_error_text (SandboxKernelMissing s) = ''sandbox_kernel_missing: '' @ s"
| "host_error_text (SandboxStart s) = ''sandbox_start_failed: '' @ s"
| "host_error_text (SandboxRequestNotFound s) = ''sandbox_request_not_found: '' @ s"
| "host_error_text (SandboxRequestDecided s) = ''sandbox_request_decided: '' @ s"
| "host_error_text (SandboxConflict s) = ''sandbox_conflict: '' @ s"
| "host_error_text (InstanceNotFound s) = ''instance_not_found: '' @ s"
| "host_error_text (InstanceConflict s) = ''instance_conflict: '' @ s"
| "host_error_text (Archive s) = ''archive: '' @ s"
| "host_error_text (WorkspaceEntryExists s) = ''workspace entry exists: '' @ s"
| "host_error_text (NoSuchExecutor s) = ''no executor for agent '' @ s"
| "host_error_text (TaskFailed s) = ''task failed: '' @ s"
| "host_error_text (HostOther s) = s"

definition audit_to_host :: "audit_error + 'a \<Rightarrow> host_error + 'a" where
  "audit_to_host r = (case r of Inl e \<Rightarrow> Inl (AuditFailed e) | Inr a \<Rightarrow> Inr a)"

definition audit_to_other :: "audit_error + 'a \<Rightarrow> host_error + 'a" where
  "audit_to_other r = (case r of Inl e \<Rightarrow> Inl (HostOther (audit_error_text e)) | Inr a \<Rightarrow> Inr a)"

section \<open>Failed writes\<close>

definition AUDIT_FAILURE_QUEUE_CAP :: nat where "AUDIT_FAILURE_QUEUE_CAP = 32"
definition EV_AUDIT_FAILED :: string where "EV_AUDIT_FAILED = ''audit:failed''"

record host_audit =
  ha_db :: audit_db
  ha_agent_id :: string
  ha_failures :: "string list"
  ha_emitted :: nat
  ha_alert :: bool
  ha_current_run :: "string option"
  ha_last_run :: "string option"
  ha_startup_seq :: int

definition push_capped :: "string \<Rightarrow> string list \<Rightarrow> string list" where
  "push_capped message failures =
     (let failures = failures @ [message]
      in drop (length failures - AUDIT_FAILURE_QUEUE_CAP) failures)"

definition push_audit_failure :: "string \<Rightarrow> host_audit \<Rightarrow> host_audit" where
  "push_audit_failure message h = h\<lparr>ha_failures := push_capped message (ha_failures h)\<rparr>"

definition audit_failed_payload :: "string \<Rightarrow> json" where
  "audit_failed_payload message = json_obj [(''message'', JStr message)]"

definition emit_audit_failures :: "host_audit \<Rightarrow> (string \<times> json) list \<times> host_audit" where
  "emit_audit_failures h =
     (map (\<lambda>m. (EV_AUDIT_FAILED, audit_failed_payload m)) (drop (ha_emitted h) (ha_failures h)),
      h\<lparr>ha_emitted := length (ha_failures h)\<rparr>)"

definition take_audit_failures :: "host_audit \<Rightarrow> string list \<times> host_audit" where
  "take_audit_failures h = (ha_failures h, h\<lparr>ha_failures := [], ha_emitted := 0\<rparr>)"

section \<open>The host's events\<close>

text \<open>The sink: the shared store, with the reporter that queues a failed write.\<close>

definition host_record :: "externs \<Rightarrow> audit_event \<Rightarrow> host_audit \<Rightarrow> host_audit" where
  "host_record X ev h =
     (case append_event X ev (ha_db h) of
        (Inr _, db) \<Rightarrow> h\<lparr>ha_db := db\<rparr>
      | (Inl e, db) \<Rightarrow> push_audit_failure (audit_error_text e) (h\<lparr>ha_db := db\<rparr>))"

definition emit_host :: "externs \<Rightarrow> int \<Rightarrow> string \<Rightarrow> json \<Rightarrow> host_audit \<Rightarrow> host_audit" where
  "emit_host X now action detail h =
     host_record X (with_agent (audit_event_new now ''host'' action detail) (ha_agent_id h)) h"

definition emit_m_action ::
  "externs \<Rightarrow> int \<Rightarrow> string option \<Rightarrow> string \<Rightarrow> json \<Rightarrow> host_audit \<Rightarrow> host_audit" where
  "emit_m_action X now caller action detail h =
     host_record X
       (with_agent (audit_event_new now ''host'' action detail)
         (case caller of None \<Rightarrow> ha_agent_id h | Some c \<Rightarrow> c)) h"

definition append_host_event ::
  "externs \<Rightarrow> int \<Rightarrow> string \<Rightarrow> json \<Rightarrow> host_audit \<Rightarrow> stored_event option \<times> host_audit" where
  "append_host_event X now action detail h =
     (case append_event X (with_agent (audit_event_new now ''host'' action detail) (ha_agent_id h)) (ha_db h) of
        (Inr s, db) \<Rightarrow> (Some s, h\<lparr>ha_db := db\<rparr>)
      | (Inl _, db) \<Rightarrow> (None, h\<lparr>ha_db := db\<rparr>))"

section \<open>Runs\<close>

definition begin_run ::
  "externs \<Rightarrow> string \<Rightarrow> json \<Rightarrow> int \<Rightarrow> string option \<Rightarrow> string option \<Rightarrow> string option \<Rightarrow>
   string option \<Rightarrow> string option \<Rightarrow> host_audit \<Rightarrow> string option \<times> host_audit" where
  "begin_run X run_id config now session_id parent_run_id resumed_from_snapshot sandbox inst h =
     (let detail = run_start_detail_with X run_id session_id parent_run_id resumed_from_snapshot
                     sandbox inst config
      in case append_host_event X now ACTION_RUN_START detail h of
        (None, h) \<Rightarrow> (None, h)
      | (Some stored, h) \<Rightarrow>
          let row = \<lparr>rr_run_id = run_id, rr_session_id = session_id,
                     rr_parent_run_id = parent_run_id,
                     rr_resumed_from_snapshot = resumed_from_snapshot,
                     rr_fingerprint = fingerprint X config,
                     rr_fingerprint_schema = FINGERPRINT_SCHEMA_V1,
                     rr_started_at_ms = ev_timestamp_ms (se_event stored),
                     rr_ended_at_ms = None, rr_start_seq = se_id stored, rr_end_seq = None,
                     rr_status = Open\<rparr>
          in (Some run_id,
              h\<lparr>ha_current_run := Some run_id, ha_last_run := Some run_id,
                ha_db := snd (index_run_start row (ha_db h))\<rparr>))"

definition finish_run ::
  "externs \<Rightarrow> string \<Rightarrow> run_status \<Rightarrow> string \<Rightarrow> int \<Rightarrow> host_audit \<Rightarrow> host_audit" where
  "finish_run X run_id status reason now h =
     (case append_host_event X now ACTION_RUN_END (run_end_detail run_id status reason) h of
        (None, h) \<Rightarrow> h
      | (Some stored, h) \<Rightarrow>
          h\<lparr>ha_db := snd (index_run_end run_id (se_id stored) (ev_timestamp_ms (se_event stored)) status (ha_db h)),
            ha_current_run := (if ha_current_run h = Some run_id then None else ha_current_run h)\<rparr>)"

definition stale_run :: "int \<Rightarrow> run_record \<Rightarrow> bool" where
  "stale_run startup_seq r \<longleftrightarrow> rr_end_seq r = None \<and> rr_status r = Open \<and> rr_start_seq r \<le> startup_seq"

definition run_abandoned_detail :: "string \<Rightarrow> int \<Rightarrow> json" where
  "run_abandoned_detail run_id now = json_obj [(''run_id'', JStr run_id), (''detected_at_ms'', JInt now)]"

text \<open>\<open>clock\<close> gives the two readings taken for a run: of its detail and of its event.\<close>

fun abandon_loop ::
  "externs \<Rightarrow> (string \<Rightarrow> int \<times> int) \<Rightarrow> run_record list \<Rightarrow> string list \<Rightarrow> host_audit \<Rightarrow>
   string list \<times> host_audit" where
  "abandon_loop X clock [] abandoned h = (abandoned, h)"
| "abandon_loop X clock (r # rs) abandoned h =
     (if \<not> stale_run (ha_startup_seq h) r then abandon_loop X clock rs abandoned h
      else case append_host_event X (snd (clock (rr_run_id r))) ACTION_RUN_ABANDONED
                  (run_abandoned_detail (rr_run_id r) (fst (clock (rr_run_id r)))) h of
        (Some _, h) \<Rightarrow> abandon_loop X clock rs (abandoned @ [rr_run_id r]) h
      | (None, h) \<Rightarrow> abandon_loop X clock rs abandoned h)"

definition abandon_stale_runs ::
  "externs \<Rightarrow> (string \<Rightarrow> int \<times> int) \<Rightarrow> host_audit \<Rightarrow> (host_error + string list) \<times> host_audit" where
  "abandon_stale_runs X clock h =
     (case audit_to_other (derive_runs X (ha_db h)) of
        Inl e \<Rightarrow> (Inl e, h)
      | Inr (runs, _) \<Rightarrow>
          (case abandon_loop X clock runs [] h of
             (abandoned, h) \<Rightarrow>
               (Inr abandoned,
                if abandoned = [] then h
                else h\<lparr>ha_db := snd (rebuild_run_index X (ha_db h))\<rparr>)))"

section \<open>Views and exports\<close>

record audit_status_view =
  as_count :: nat
  as_chain :: chain_status
  as_alert_on_failure :: bool
  as_failures :: "string list"

definition audit_status :: "externs \<Rightarrow> host_audit \<Rightarrow> audit_status_view" where
  "audit_status X h =
     \<lparr>as_count = event_count (ha_db h), as_chain = verify_store X (ha_db h),
      as_alert_on_failure = ha_alert h, as_failures = []\<rparr>"

record run_view =
  ru_run_id :: string
  ru_status :: string
  ru_fingerprint :: string
  ru_fingerprint_short :: string
  ru_parent_run_id :: "string option"
  ru_session_id :: "string option"
  ru_resumed_from_snapshot :: "string option"
  ru_started_at_ms :: int
  ru_ended_at_ms :: "int option"

definition run_view_of :: "run_record \<Rightarrow> run_view" where
  "run_view_of r =
     \<lparr>ru_run_id = rr_run_id r, ru_status = run_status_as_str (rr_status r),
      ru_fingerprint = rr_fingerprint r, ru_fingerprint_short = short_fingerprint (rr_fingerprint r),
      ru_parent_run_id = rr_parent_run_id r, ru_session_id = rr_session_id r,
      ru_resumed_from_snapshot = rr_resumed_from_snapshot r,
      ru_started_at_ms = rr_started_at_ms r, ru_ended_at_ms = rr_ended_at_ms r\<rparr>"

definition host_list_runs :: "nat \<Rightarrow> host_audit \<Rightarrow> run_view list" where
  "host_list_runs limit h = map run_view_of (list_runs limit (ha_db h))"

definition host_get_run :: "string \<Rightarrow> host_audit \<Rightarrow> run_view option" where
  "host_get_run run_id h = map_option run_view_of (get_run run_id (ha_db h))"

definition host_list_events ::
  "externs \<Rightarrow> nat \<Rightarrow> event_filter \<Rightarrow> host_audit \<Rightarrow> host_error + stored_event list" where
  "host_list_events X limit f h =
     bind_result (audit_to_host (list_events X f limit (ha_db h))) (\<lambda>events.
       Inr (if ef_descending f then events else rev events))"

definition host_export_run ::
  "externs \<Rightarrow> string + 'p \<Rightarrow> string \<Rightarrow> host_audit \<Rightarrow> host_error + ('p \<times> string list)" where
  "host_export_run X checked run_id h =
     (case checked of
        Inl why \<Rightarrow> Inl (PolicyDenied why)
      | Inr path \<Rightarrow>
          (case get_run run_id (ha_db h) of
             None \<Rightarrow> Inl (HostOther (''unknown run: '' @ run_id))
           | Some r \<Rightarrow>
               bind_result (audit_to_other (store_run_end X r (ha_db h))) (\<lambda>to_id.
               bind_result (audit_to_host (export_self_contained_jsonl X to_id (ha_db h))) (\<lambda>ls.
                 Inr (path, ls)))))"

section \<open>Comparing fingerprints\<close>

definition FINGERPRINT_FIELDS :: "string list" where
  "FINGERPRINT_FIELDS = [''schema'', ''llm'', ''agent'', ''vm'', ''toolchain'', ''policy'', ''prompt'']"

record fingerprint_field_diff =
  fd_field :: string
  fd_a :: json
  fd_b :: json
  fd_is_different :: bool

definition member_or_null :: "string \<Rightarrow> json \<Rightarrow> json" where
  "member_or_null k v = (case json_get k v of None \<Rightarrow> JNull | Some x \<Rightarrow> x)"

definition diff_fingerprints :: "externs \<Rightarrow> json \<Rightarrow> json \<Rightarrow> fingerprint_field_diff list" where
  "diff_fingerprints X a b =
     map (\<lambda>name. \<lparr>fd_field = name, fd_a = member_or_null name a, fd_b = member_or_null name b,
            fd_is_different =
              (canonical_json X (member_or_null name a) \<noteq> canonical_json X (member_or_null name b))\<rparr>)
       (filter (\<lambda>name. \<not> (json_get name a = None \<and> json_get name b = None)) FINGERPRINT_FIELDS)"

definition run_fingerprint_document :: "externs \<Rightarrow> string \<Rightarrow> audit_db \<Rightarrow> host_error + json" where
  "run_fingerprint_document X run_id db =
     (case get_run run_id db of
        None \<Rightarrow> Inl (HostOther (''no run '' @ run_id @ '' in this log''))
      | Some r \<Rightarrow>
          bind_result (audit_to_other (get_event X (rr_start_seq r) db)) (\<lambda>found.
            case found of
              None \<Rightarrow> Inl (HostOther (''run '' @ run_id @ '': its `run.start` event ('' @
                show_int (rr_start_seq r) @ '') is not in the chain''))
            | Some e \<Rightarrow>
                bind_result (audit_to_host (parse_run_start (ev_detail (se_event e)))) (\<lambda>payload.
                  case x_parse X (rs_fingerprint_json payload) of
                    None \<Rightarrow> Inl (HostOther (''run '' @ run_id @ '': `fingerprint_json` is not JSON''))
                  | Some v \<Rightarrow> Inr v)))"

definition compare_run_fingerprints ::
  "externs \<Rightarrow> string \<Rightarrow> string \<Rightarrow> host_audit \<Rightarrow> host_error + fingerprint_field_diff list" where
  "compare_run_fingerprints X run_a run_b h =
     bind_result (run_fingerprint_document X run_a (ha_db h)) (\<lambda>left.
     bind_result (run_fingerprint_document X run_b (ha_db h)) (\<lambda>right.
       Inr (diff_fingerprints X left right)))"

section \<open>The failure queue announces until it is full\<close>

text \<open>A call on the failure channel: a failed write is queued, or the queue is announced.\<close>

datatype failure_call = PushFailure string | EmitFailures

fun failure_step :: "failure_call \<Rightarrow> host_audit \<Rightarrow> (string \<times> json) list \<times> host_audit" where
  "failure_step (PushFailure m) h = ([], push_audit_failure m h)"
| "failure_step EmitFailures h = emit_audit_failures h"

fun failure_frames :: "failure_call list \<Rightarrow> host_audit \<Rightarrow> (string \<times> json) list" where
  "failure_frames [] h = []"
| "failure_frames (c # cs) h = fst (failure_step c h) @ failure_frames cs (snd (failure_step c h))"

lemma push_announced:
  assumes "ha_emitted h = length (ha_failures h)" "length (ha_failures h) < AUDIT_FAILURE_QUEUE_CAP"
  shows "fst (emit_audit_failures (push_audit_failure m h)) = [(EV_AUDIT_FAILED, audit_failed_payload m)]"
  using assms by (simp add: emit_audit_failures_def push_audit_failure_def push_capped_def Let_def)

lemma full_queue_silent:
  "length (ha_failures h) = AUDIT_FAILURE_QUEUE_CAP \<Longrightarrow> ha_emitted h = AUDIT_FAILURE_QUEUE_CAP \<Longrightarrow>
   failure_frames calls h = []"
proof (induction calls arbitrary: h)
  case (Cons c calls)
  then show ?case
    by (cases c) (simp_all add: emit_audit_failures_def push_audit_failure_def push_capped_def
        AUDIT_FAILURE_QUEUE_CAP_def)
qed simp

section \<open>Abandoning the runs of an earlier process\<close>

lemma all_events_append:
  assumes "all_events X db = Inr es" "appended X ev db s db'"
    and "x_parse X (x_text X (ev_detail ev)) = Some (ev_detail ev)"
  shows "all_events X db' = Inr (es @ [s])"
proof -
  have "into_stored X (row_of (se_id s) ev (x_text X (ev_detail ev)) (se_prev_hash s) (se_hash s)) = Inr s"
    using assms(3) appended_events [OF assms(2)]
    by (cases s) (simp add: into_stored_def parse_detail_def row_of_def)
  then show ?thesis
    using assms(1) appended_events(1) [OF assms(2)]
    by (simp add: all_events_def scan_def traverse_result_Inr list_all2_appendI)
qed

definition mark_abandoned :: "string set \<Rightarrow> run_record list \<Rightarrow> run_record list" where
  "mark_abandoned ids rows = map (\<lambda>r. if rr_run_id r \<in> ids then r\<lparr>rr_status := Abandoned\<rparr> else r) rows"

lemma mark_abandoned_Nil [simp]: "mark_abandoned {} rows = rows"
  by (simp add: mark_abandoned_def)

lemma mark_abandoned_twice: "mark_abandoned S (mark_abandoned T rows) = mark_abandoned (S \<union> T) rows"
  by (auto simp: mark_abandoned_def)

lemma mark_abandoned_ids [simp]: "map rr_run_id (mark_abandoned S rows) = map rr_run_id rows"
  by (simp add: mark_abandoned_def)

lemma update_first_mark:
  assumes "distinct (map rr_run_id rows)" "r \<in> set rows" "rr_run_id r = k" "rr_end_seq r = None"
  shows "update_first (open_row k) (\<lambda>row. row\<lparr>rr_status := Abandoned\<rparr>) rows = Some (mark_abandoned {k} rows)"
  using assms
proof (induction rows)
  case (Cons x rows)
  show ?case
  proof (cases "rr_run_id x = k")
    case True
    with Cons.prems have x: "r = x" "k \<notin> rr_run_id ` set rows" by auto
    then have "mark_abandoned {k} rows = rows"
      unfolding mark_abandoned_def by (intro map_idI) auto
    with True x Cons.prems show ?thesis by (simp add: open_row_def mark_abandoned_def)
  next
    case False
    with Cons show ?thesis by (auto simp: open_row_def mark_abandoned_def)
  qed
qed simp

lemma abandoned_event_derived:
  assumes "ev_action (se_event s) = ACTION_RUN_ABANDONED" "ev_detail (se_event s) = run_abandoned_detail k t"
    and "r \<in> set (fst (derive_fold es))" "rr_run_id r = k" "rr_end_seq r = None"
  shows "fst (derive_fold (es @ [s])) = mark_abandoned {k} (fst (derive_fold es))"
proof -
  have "text_member (run_abandoned_detail k t) ''run_id'' = Some k"
    by (simp add: text_member_def run_abandoned_detail_def codec_simps)
  with assms update_first_mark [OF derive_fold_distinct assms(3-5)] show ?thesis
    by (cases "derive_fold es") (simp add: derive_fold_snoc derive_step_defs)
qed

lemma append_host_event_Some:
  assumes "append_host_event X now action detail h = (Some s, h')"
  shows "\<exists>ev. appended X ev (ha_db h) s (ha_db h') \<and> ev_action ev = action \<and> ev_detail ev = detail"
    and "h' = h\<lparr>ha_db := ha_db h'\<rparr>"
  using assms append_event_Inr
  by (auto simp: append_host_event_def audit_event_new_def with_agent_def split: prod.splits sum.splits)
    (metis audit_event.select_convs(3,4))

lemma append_host_event_None:
  assumes "append_host_event X now action detail h = (None, h')"
  shows "db_events (ha_db h') = db_events (ha_db h)" "h' = h\<lparr>ha_db := ha_db h'\<rparr>"
  using assms same_but_faults_fields [OF append_event_Inl]
  by (auto simp: append_host_event_def split: prod.splits sum.splits)

lemma append_host_event_startup [simp]:
  "append_host_event X now action detail h = (a, h') \<Longrightarrow> ha_startup_seq h' = ha_startup_seq h"
  by (auto simp: append_host_event_def split: prod.splits sum.splits)

lemma append_host_event_None_events:
  "append_host_event X now action detail h = (None, h') \<Longrightarrow> all_events X (ha_db h') = all_events X (ha_db h)"
  using append_host_event_None(1) by (simp add: all_events_def scan_def)

lemma append_abandoned:
  assumes "text_roundtrips X" "is_i64 t"
    and "append_host_event X now ACTION_RUN_ABANDONED (run_abandoned_detail k t) h = (Some s, h')"
    and "all_events X (ha_db h) = Inr es"
    and "q \<in> set (fst (derive_fold es))" "rr_run_id q = k" "rr_end_seq q = None"
  shows "all_events X (ha_db h') = Inr (es @ [s])"
    and "fst (derive_fold (es @ [s])) = mark_abandoned {k} (fst (derive_fold es))"
proof -
  from append_host_event_Some(1) [OF assms(3)] obtain ev where
    ev: "appended X ev (ha_db h) s (ha_db h')" "ev_action ev = ACTION_RUN_ABANDONED"
      "ev_detail ev = run_abandoned_detail k t" by blast
  have "printable (run_abandoned_detail k t)"
    using assms(2) unfolding run_abandoned_detail_def by (intro printable_obj) (auto simp: i64_bounds)
  then show "all_events X (ha_db h') = Inr (es @ [s])"
    using all_events_append [OF assms(4) ev(1)] ev(3) assms(1) by (simp add: text_roundtrips_def)
  have "ev_action (se_event s) = ACTION_RUN_ABANDONED" "ev_detail (se_event s) = run_abandoned_detail k t"
    using appended_events(4) [OF ev(1)] ev(2,3) by simp_all
  then show "fst (derive_fold (es @ [s])) = mark_abandoned {k} (fst (derive_fold es))"
    using abandoned_event_derived assms(5-7) by blast
qed

definition open_among :: "run_record list \<Rightarrow> run_record \<Rightarrow> bool" where
  "open_among rows r \<longleftrightarrow> (rr_run_id r, None) \<in> set (map (\<lambda>q. (rr_run_id q, rr_end_seq q)) rows)"

lemma open_among_mark [simp]: "open_among (mark_abandoned S rows) r = open_among rows r"
proof -
  have "map (\<lambda>q. (rr_run_id q, rr_end_seq q)) (mark_abandoned S rows) =
      map (\<lambda>q. (rr_run_id q, rr_end_seq q)) rows"
    by (simp add: mark_abandoned_def)
  then show ?thesis by (simp only: open_among_def)
qed

lemma abandon_loop_effect:
  assumes "text_roundtrips X" "\<And>k. is_i64 (fst (clock k))"
    and "abandon_loop X clock rs done_before h = (abandoned, h')"
    and "all_events X (ha_db h) = Inr es"
    and "\<And>r. r \<in> set rs \<Longrightarrow> stale_run (ha_startup_seq h) r \<Longrightarrow> open_among (fst (derive_fold es)) r"
  shows "\<exists>new es'. abandoned = done_before @ new \<and> all_events X (ha_db h') = Inr es' \<and>
    set new \<subseteq> rr_run_id ` {r \<in> set rs. stale_run (ha_startup_seq h) r} \<and>
    fst (derive_fold es') = mark_abandoned (set new) (fst (derive_fold es))"
  using assms(3-)
proof (induction rs arbitrary: done_before h es)
  case (Cons r rs)
  let ?k = "rr_run_id r"
  obtain a h1 where ap: "append_host_event X (snd (clock ?k)) ACTION_RUN_ABANDONED
      (run_abandoned_detail ?k (fst (clock ?k))) h = (a, h1)" by force
  consider "\<not> stale_run (ha_startup_seq h) r" | "stale_run (ha_startup_seq h) r" "a = None"
    | s where "stale_run (ha_startup_seq h) r" "a = Some s" by (cases a) auto
  then show ?case
  proof cases
    case 1
    then have "abandon_loop X clock rs done_before h = (abandoned, h')" using Cons.prems(1) by simp
    from Cons.IH [OF this Cons.prems(2,3)] show ?thesis by fastforce
  next
    case 2
    then have l: "abandon_loop X clock rs done_before h1 = (abandoned, h')" using Cons.prems(1) ap by simp
    have st: "ha_startup_seq h1 = ha_startup_seq h" using ap by simp
    have "all_events X (ha_db h1) = Inr es"
      using append_host_event_None_events ap 2 Cons.prems(2) by metis
    from Cons.IH [OF l this] Cons.prems(3) show ?thesis unfolding st by fastforce
  next
    case (3 s)
    then have l: "abandon_loop X clock rs (done_before @ [?k]) h1 = (abandoned, h')" using Cons.prems(1) ap by simp
    have st: "ha_startup_seq h1 = ha_startup_seq h" using ap by simp
    obtain q where q: "q \<in> set (fst (derive_fold es))" "rr_run_id q = ?k" "rr_end_seq q = None"
      using Cons.prems(3) [of r] 3 by (auto simp: open_among_def)
    note n = append_abandoned [OF assms(1,2) ap [unfolded 3] Cons.prems(2) q]
    have "\<exists>new es'. abandoned = (done_before @ [?k]) @ new \<and> all_events X (ha_db h') = Inr es' \<and>
        set new \<subseteq> rr_run_id ` {r \<in> set rs. stale_run (ha_startup_seq h1) r} \<and>
        fst (derive_fold es') = mark_abandoned (set new) (fst (derive_fold (es @ [s])))"
      using Cons.prems(3) by (intro Cons.IH [OF l n(1)]) (simp add: n(2) st)
    then obtain new es' where new: "abandoned = (done_before @ [?k]) @ new"
        "all_events X (ha_db h') = Inr es'" "set new \<subseteq> rr_run_id ` {r \<in> set rs. stale_run (ha_startup_seq h) r}"
        "fst (derive_fold es') = mark_abandoned (set new \<union> {?k}) (fst (derive_fold es))"
      unfolding n(2) st mark_abandoned_twice by blast
    have "set (?k # new) \<subseteq> rr_run_id ` {x \<in> set (r # rs). stale_run (ha_startup_seq h) x}"
      using new(3) 3(1) by auto
    with new show ?thesis by (intro exI [of _ "?k # new"] exI [of _ es']) (simp add: Un_commute)
  qed
qed (auto simp: mark_abandoned_def)

end
