(* ===== verification/Host_Requests.thy ===== *)
theory Host_Requests
  imports Host_Audit Net_Suppression
begin

text \<open>
  Asking for a sandbox change: \<open>host-core/src/sandbox_request.rs\<close>, the methods of
  \<open>host-core/src/state.rs\<close> that put an ask and its decision on the audit chain, and the payloads of
  \<open>events.rs\<close> they announce. The process-wide counter and the process id are part of the queue.
\<close>

section \<open>Requests\<close>

datatype sandbox_action = Switch | Define | Assemble

fun action_as_str :: "sandbox_action \<Rightarrow> string" where
  "action_as_str Switch = ''switch''"
| "action_as_str Define = ''define''"
| "action_as_str Assemble = ''assemble''"

definition action_parse :: "string \<Rightarrow> sandbox_action option" where
  "action_parse w =
     (if w = ''switch'' then Some Switch else if w = ''define'' then Some Define
      else if w = ''assemble'' then Some Assemble else None)"

datatype request_status = Pending | Approved | Rejected | Expired

fun status_as_str :: "request_status \<Rightarrow> string" where
  "status_as_str Pending = ''pending''"
| "status_as_str Approved = ''approved''"
| "status_as_str Rejected = ''rejected''"
| "status_as_str Expired = ''expired''"

definition status_parse :: "string \<Rightarrow> request_status option" where
  "status_parse w =
     (if w = ''pending'' then Some Pending else if w = ''approved'' then Some Approved
      else if w = ''rejected'' then Some Rejected else if w = ''expired'' then Some Expired else None)"

lemma action_parse_as_str [simp]: "action_parse (action_as_str a) = Some a"
  by (cases a) (simp_all add: action_parse_def)

lemma status_parse_as_str: "status_parse (status_as_str s) = Some s"
  by (cases s) (simp_all add: status_parse_def)

record sandbox_def =
  sb_name :: string
  sb_display_name :: "string option"
  sb_memory_mb :: "nat option"
  sb_qemu_exe :: "string option"
  sb_toolchain_path :: "string option"
  sb_kernel :: "string option"
  sb_notes :: "string option"
  sb_supports_multiplexing :: bool

record sandbox_request =
  rq_id :: string
  rq_requester :: string
  rq_action :: sandbox_action
  rq_sandbox :: "string option"
  rq_definition :: "sandbox_def option"
  rq_reason :: "string option"
  rq_requested_at_ms :: nat
  rq_status :: request_status
  rq_decided_by :: "string option"
  rq_decided_at_ms :: "nat option"

record request_view =
  rv_id :: string
  rv_requester :: string
  rv_action :: string
  rv_sandbox :: "string option"
  rv_definition :: "sandbox_def option"
  rv_reason :: "string option"
  rv_requested_at_ms :: nat
  rv_status :: string
  rv_decided_by :: "string option"
  rv_decided_at_ms :: "nat option"

definition request_view_of :: "sandbox_request \<Rightarrow> request_view" where
  "request_view_of r =
     \<lparr>rv_id = rq_id r, rv_requester = rq_requester r, rv_action = action_as_str (rq_action r),
      rv_sandbox = rq_sandbox r, rv_definition = rq_definition r, rv_reason = rq_reason r,
      rv_requested_at_ms = rq_requested_at_ms r, rv_status = status_as_str (rq_status r),
      rv_decided_by = rq_decided_by r, rv_decided_at_ms = rq_decided_at_ms r\<rparr>"

section \<open>What the chain says\<close>

record reconciled_request =
  rc_id :: string
  rc_requester :: string
  rc_action :: sandbox_action
  rc_sandbox :: "string option"
  rc_status :: request_status
  rc_decided_by :: "string option"
  rc_requested_at_ms :: nat
  rc_decided_at_ms :: "nat option"
  rc_reason :: "string option"

definition ASK :: string where "ASK = ''m.request.ask''"
definition APPROVE :: string where "APPROVE = ''m.request.approve''"
definition REJECT :: string where "REJECT = ''m.request.reject''"

definition asked_record :: "stored_event \<Rightarrow> string \<Rightarrow> sandbox_action \<Rightarrow> reconciled_request" where
  "asked_record stored i act =
     \<lparr>rc_id = i,
      rc_requester = (case ev_agent_id (se_event stored) of None \<Rightarrow> [] | Some a \<Rightarrow> a),
      rc_action = act, rc_sandbox = text_member (ev_detail (se_event stored)) ''sandbox'',
      rc_status = Pending, rc_decided_by = None,
      rc_requested_at_ms = nat (ev_timestamp_ms (se_event stored)),
      rc_decided_at_ms = None, rc_reason = None\<rparr>"

definition decided_record :: "stored_event \<Rightarrow> reconciled_request \<Rightarrow> reconciled_request" where
  "decided_record stored r =
     (if rc_status r \<noteq> Pending then r
      else r\<lparr>rc_status := (if ev_action (se_event stored) = APPROVE then Approved else Rejected),
             rc_decided_by :=
               (case text_member (ev_detail (se_event stored)) ''decided_by'' of
                  Some by_whom \<Rightarrow> Some by_whom
                | None \<Rightarrow> ev_agent_id (se_event stored)),
             rc_decided_at_ms := Some (nat (ev_timestamp_ms (se_event stored)))\<rparr>)"

definition derive_request_step ::
  "stored_event \<Rightarrow> reconciled_request list \<Rightarrow> reconciled_request list" where
  "derive_request_step stored out =
     (let action = ev_action (se_event stored); detail = ev_detail (se_event stored)
      in case text_member detail ''id'' of
        None \<Rightarrow> out
      | Some i \<Rightarrow>
          if action = ASK then
            (if list_ex (\<lambda>r. rc_id r = i) out then out
             else case Option.bind (text_member detail ''action'') action_parse of
               None \<Rightarrow> out
             | Some act \<Rightarrow> out @ [asked_record stored i act])
          else if action = APPROVE \<or> action = REJECT then
            (case update_first (\<lambda>r. rc_id r = i) (decided_record stored) out of
               None \<Rightarrow> out
             | Some out' \<Rightarrow> out')
          else out)"

definition derive_requests_from :: "stored_event list \<Rightarrow> reconciled_request list" where
  "derive_requests_from events = foldl (\<lambda>out e. derive_request_step e out) [] events"

section \<open>The queue\<close>

record sandbox_requests =
  sq_requests :: "sandbox_request list"
  sq_current :: "string option"
  sq_pid :: nat
  sq_seq :: nat

definition new_requests :: "string option \<Rightarrow> nat \<Rightarrow> sandbox_requests" where
  "new_requests current pid = \<lparr>sq_requests = [], sq_current = current, sq_pid = pid, sq_seq = 0\<rparr>"

definition request_id :: "nat \<Rightarrow> nat \<Rightarrow> string" where
  "request_id pid n = ''req-'' @ show_nat pid @ ''-'' @ show_nat n"

definition enqueue ::
  "string \<Rightarrow> sandbox_action \<Rightarrow> string option \<Rightarrow> sandbox_def option \<Rightarrow> string option \<Rightarrow> nat \<Rightarrow>
   sandbox_requests \<Rightarrow> sandbox_request \<times> sandbox_requests" where
  "enqueue requester action sandbox defn reason now q =
     (let n = sq_seq q + 1;
          r = \<lparr>rq_id = request_id (sq_pid q) n, rq_requester = requester, rq_action = action,
               rq_sandbox = sandbox, rq_definition = defn, rq_reason = reason,
               rq_requested_at_ms = now, rq_status = Pending, rq_decided_by = None,
               rq_decided_at_ms = None\<rparr>
      in (r, q\<lparr>sq_seq := n, sq_requests := sq_requests q @ [r]\<rparr>))"

definition list_requests :: "request_status option \<Rightarrow> sandbox_requests \<Rightarrow> request_view list" where
  "list_requests status q =
     map request_view_of
       (filter (\<lambda>r. case status of None \<Rightarrow> True | Some wanted \<Rightarrow> rq_status r = wanted)
         (rev (sq_requests q)))"

definition decide_request ::
  "string \<Rightarrow> request_status \<Rightarrow> string \<Rightarrow> nat \<Rightarrow> sandbox_requests \<Rightarrow>
   (host_error + sandbox_request) \<times> sandbox_requests" where
  "decide_request i decision by_whom now q =
     (case find (\<lambda>r. rq_id r = i) (sq_requests q) of
        None \<Rightarrow> (Inl (SandboxRequestNotFound i), q)
      | Some r \<Rightarrow>
          if rq_status r \<noteq> Pending then
            (Inl (SandboxRequestDecided (rq_id r @ '' was already '' @ status_as_str (rq_status r))), q)
          else
            let r' = r\<lparr>rq_status := decision, rq_decided_by := Some by_whom,
                        rq_decided_at_ms := Some now\<rparr>
            in (Inr r',
                q\<lparr>sq_requests := (case update_first (\<lambda>r. rq_id r = i) (\<lambda>_. r') (sq_requests q) of
                    None \<Rightarrow> sq_requests q | Some rs \<Rightarrow> rs)\<rparr>))"

definition action_of_request :: "string \<Rightarrow> sandbox_requests \<Rightarrow> host_error + sandbox_action" where
  "action_of_request i q =
     (case find (\<lambda>r. rq_id r = i) (sq_requests q) of
        None \<Rightarrow> Inl (SandboxRequestNotFound i)
      | Some r \<Rightarrow> Inr (rq_action r))"

fun remove_first :: "('a \<Rightarrow> bool) \<Rightarrow> 'a list \<Rightarrow> 'a list" where
  "remove_first P [] = []"
| "remove_first P (x # xs) = (if P x then xs else x # remove_first P xs)"

definition remove_request ::
  "string \<Rightarrow> sandbox_requests \<Rightarrow> (host_error + sandbox_request) \<times> sandbox_requests" where
  "remove_request i q =
     (case find (\<lambda>r. rq_id r = i) (sq_requests q) of
        None \<Rightarrow> (Inl (SandboxRequestNotFound i), q)
      | Some r \<Rightarrow> (Inr r, q\<lparr>sq_requests := remove_first (\<lambda>r. rq_id r = i) (sq_requests q)\<rparr>))"

definition restored_request :: "reconciled_request \<Rightarrow> sandbox_request" where
  "restored_request c =
     \<lparr>rq_id = rc_id c, rq_requester = rc_requester c, rq_action = rc_action c,
      rq_sandbox = rc_sandbox c, rq_definition = None, rq_reason = None,
      rq_requested_at_ms = rc_requested_at_ms c, rq_status = Pending, rq_decided_by = None,
      rq_decided_at_ms = None\<rparr>"

fun restore_loop ::
  "reconciled_request list \<Rightarrow> sandbox_request list \<Rightarrow> nat \<times> string list \<Rightarrow>
   (nat \<times> string list) \<times> sandbox_request list" where
  "restore_loop [] rs acc = (acc, rs)"
| "restore_loop (c # cs) rs (restored, conflicts) =
     (if rc_status c \<noteq> Pending then restore_loop cs rs (restored, conflicts)
      else if list_ex (\<lambda>r. rq_id r = rc_id c) rs then
        restore_loop cs rs (restored, conflicts @ [rc_id c])
      else restore_loop cs (rs @ [restored_request c]) (restored + 1, conflicts))"

definition restore_requests ::
  "reconciled_request list \<Rightarrow> sandbox_requests \<Rightarrow> (nat \<times> string list) \<times> sandbox_requests" where
  "restore_requests derived q =
     (case restore_loop derived (sq_requests q) (0, []) of
        (answer, rs) \<Rightarrow> (answer, q\<lparr>sq_requests := rs\<rparr>))"

definition pending_requests :: "sandbox_requests \<Rightarrow> request_view list" where
  "pending_requests q = map request_view_of (filter (\<lambda>r. rq_status r = Pending) (sq_requests q))"

definition summary_line :: "request_view \<Rightarrow> string" where
  "summary_line v =
     ''- '' @ rv_id v @ '' '' @ rv_action v @
     (case rv_sandbox v of None \<Rightarrow> [] | Some name \<Rightarrow> '' '' @ byte_string [226, 134, 146] @ '' '' @ name) @
     byte_string [10]"

definition requests_summary :: "sandbox_requests \<Rightarrow> string" where
  "requests_summary q =
     (let running = (case sq_current q of None \<Rightarrow> ''(default)'' | Some c \<Rightarrow> c);
          waiting = pending_requests q
      in if waiting = [] then
           ''running: '' @ running @ byte_string [10] @ ''no sandbox requests are waiting''
         else
           ''running: '' @ running @ byte_string [10] @ show_nat (length waiting) @
           '' request(s) waiting:'' @ byte_string [10] @ concat (map summary_line waiting))"

section \<open>Announcing and recording\<close>

definition EV_SANDBOX_REQUEST :: string where "EV_SANDBOX_REQUEST = ''sandbox:request''"
definition EV_M_REQUEST_ASK :: string where "EV_M_REQUEST_ASK = ''m:request:ask''"
definition EV_M_REQUEST_APPROVE :: string where "EV_M_REQUEST_APPROVE = ''m:request:approve''"
definition EV_M_REQUEST_REJECT :: string where "EV_M_REQUEST_REJECT = ''m:request:reject''"

definition sandbox_request_payload :: "string \<Rightarrow> string \<Rightarrow> string \<Rightarrow> string \<Rightarrow> json" where
  "sandbox_request_payload i status requester action =
     json_obj [(''id'', JStr i), (''status'', JStr status), (''requester'', JStr requester),
               (''action'', JStr action)]"

definition m_request_payload :: "string \<Rightarrow> string \<Rightarrow> string option \<Rightarrow> json" where
  "m_request_payload i status decided_by =
     json_obj [(''id'', JStr i), (''status'', JStr status), (''decided_by'', opt_str decided_by)]"

type_synonym frames = "(string \<times> json) list"

definition announce :: "sandbox_request \<Rightarrow> request_status \<Rightarrow> string \<times> json" where
  "announce r status =
     (EV_SANDBOX_REQUEST,
      sandbox_request_payload (rq_id r) (status_as_str status) (rq_requester r) (action_as_str (rq_action r)))"

definition service_request ::
  "string \<Rightarrow> sandbox_action \<Rightarrow> string option \<Rightarrow> sandbox_def option \<Rightarrow> string option \<Rightarrow> nat \<Rightarrow>
   sandbox_requests \<Rightarrow> request_view \<times> frames \<times> sandbox_requests" where
  "service_request requester action sandbox defn reason now q =
     (case enqueue requester action sandbox defn reason now q of
        (r, q) \<Rightarrow> (request_view_of r, [announce r Pending], q))"

definition service_decide ::
  "string \<Rightarrow> request_status \<Rightarrow> string \<Rightarrow> nat \<Rightarrow> sandbox_requests \<Rightarrow>
   (host_error + request_view) \<times> frames \<times> sandbox_requests" where
  "service_decide i decision by_whom now q =
     (case decide_request i decision by_whom now q of
        (Inl e, q) \<Rightarrow> (Inl e, [], q)
      | (Inr r, q) \<Rightarrow> (Inr (request_view_of r), [announce r decision], q))"

text \<open>
  The host: its log, its queue, whether a server role runs beside it, what it sent on that server's
  sessions and what it announced. Whether a frame is delivered does not show: the answer of
  \<open>send_to\<close> is dropped.
\<close>

record request_host =
  rh_audit :: host_audit
  rh_queue :: sandbox_requests
  rh_server_role :: bool
  rh_sent :: "(string \<times> json) list"
  rh_frames :: frames

definition ask_detail :: "request_view \<Rightarrow> json" where
  "ask_detail v =
     json_obj [(''id'', JStr (rv_id v)), (''action'', JStr (rv_action v)), (''sandbox'', opt_str (rv_sandbox v))]"

definition decision_detail :: "request_view \<Rightarrow> string \<Rightarrow> json" where
  "decision_detail v decided_by =
     json_obj [(''id'', JStr (rv_id v)), (''action'', JStr (rv_action v)), (''sandbox'', opt_str (rv_sandbox v)),
               (''decided_by'', JStr decided_by)]"

definition request_sandbox ::
  "externs \<Rightarrow> string \<Rightarrow> sandbox_action \<Rightarrow> string option \<Rightarrow> sandbox_def option \<Rightarrow> string option \<Rightarrow>
   nat \<Rightarrow> int \<Rightarrow> request_host \<Rightarrow> request_view \<times> request_host" where
  "request_sandbox X requester action sandbox defn reason now stamp h =
     (case service_request requester action sandbox defn reason now (rh_queue h) of
        (v, fs, q) \<Rightarrow>
          (v, h\<lparr>rh_queue := q,
                rh_audit := emit_m_action X stamp (Some requester) ASK (ask_detail v) (rh_audit h),
                rh_frames := rh_frames h @ fs @
                  [(EV_M_REQUEST_ASK, m_request_payload (rv_id v) ''pending'' None)]\<rparr>))"

definition tell_asker :: "request_view \<Rightarrow> string \<Rightarrow> int \<Rightarrow> request_host \<Rightarrow> request_host" where
  "tell_asker v decision sent_at h =
     (if rv_requester v = ha_agent_id (rh_audit h) then h
      else if \<not> rh_server_role h then h
      else h\<lparr>rh_sent := rh_sent h @
        [(rv_requester v, request_decision_body (rv_id v) decision (ha_agent_id (rh_audit h)) sent_at)]\<rparr>)"

definition decide_sandbox_request ::
  "externs \<Rightarrow> request_status \<Rightarrow> string \<Rightarrow> string \<Rightarrow> string \<Rightarrow> nat \<Rightarrow> int \<Rightarrow> int \<Rightarrow> string \<Rightarrow> string \<Rightarrow>
   request_host \<Rightarrow> (host_error + request_view) \<times> request_host" where
  "decide_sandbox_request X decision action event word now stamp sent_at i decided_by h =
     (case service_decide i decision decided_by now (rh_queue h) of
        (Inl e, fs, q) \<Rightarrow> (Inl e, h\<lparr>rh_queue := q, rh_frames := rh_frames h @ fs\<rparr>)
      | (Inr v, fs, q) \<Rightarrow>
          (Inr v, tell_asker v word sent_at
            (h\<lparr>rh_queue := q,
               rh_audit := emit_m_action X stamp (Some decided_by) action (decision_detail v decided_by) (rh_audit h),
               rh_frames := rh_frames h @ fs @ [(event, m_request_payload (rv_id v) word (Some decided_by))]\<rparr>)))"

definition approve_sandbox_request ::
  "externs \<Rightarrow> nat \<Rightarrow> int \<Rightarrow> int \<Rightarrow> string \<Rightarrow> string \<Rightarrow> request_host \<Rightarrow>
   (host_error + request_view) \<times> request_host" where
  "approve_sandbox_request X = decide_sandbox_request X Approved APPROVE EV_M_REQUEST_APPROVE ''approved''"

definition reject_sandbox_request ::
  "externs \<Rightarrow> nat \<Rightarrow> int \<Rightarrow> int \<Rightarrow> string \<Rightarrow> string \<Rightarrow> request_host \<Rightarrow>
   (host_error + request_view) \<times> request_host" where
  "reject_sandbox_request X = decide_sandbox_request X Rejected REJECT EV_M_REQUEST_REJECT ''rejected''"

definition delete_sandbox_request ::
  "string \<Rightarrow> request_host \<Rightarrow> (host_error + request_view) \<times> request_host" where
  "delete_sandbox_request i h =
     (case remove_request i (rh_queue h) of
        (r, q) \<Rightarrow> (map_sum id request_view_of r, h\<lparr>rh_queue := q\<rparr>))"

definition restore_detail :: "nat \<Rightarrow> string list \<Rightarrow> json" where
  "restore_detail restored conflicts =
     json_obj [(''restored'', JInt (int restored)), (''conflicts'', str_list conflicts)]"

definition restore_pending_requests :: "externs \<Rightarrow> int \<Rightarrow> request_host \<Rightarrow> request_host" where
  "restore_pending_requests X stamp h =
     (let events = (case all_events X (ha_db (rh_audit h)) of Inl _ \<Rightarrow> [] | Inr es \<Rightarrow> es)
      in case restore_requests (derive_requests_from events) (rh_queue h) of
        ((restored, conflicts), q) \<Rightarrow>
          if restored = 0 \<and> conflicts = [] then h\<lparr>rh_queue := q\<rparr>
          else h\<lparr>rh_queue := q,
                 rh_audit := emit_host X stamp ''host.sandbox_request.restore''
                   (restore_detail restored conflicts) (rh_audit h)\<rparr>)"

text \<open>A peer's decision, written into this node's chain and queue. The append's answer is dropped.\<close>

definition decide_request_from_peer ::
  "externs \<Rightarrow> request_decision \<Rightarrow> nat \<Rightarrow> int \<Rightarrow> sandbox_requests \<Rightarrow> audit_db \<Rightarrow>
   bool \<times> sandbox_requests \<times> audit_db" where
  "decide_request_from_peer X d stamp now q db =
     (let status = (if rd_decision d = ''approved'' then Some Approved
                    else if rd_decision d = ''rejected'' then Some Rejected else None)
      in case status of
        None \<Rightarrow> (False, q, db)
      | Some status \<Rightarrow>
          (case decide_request (rd_request_id d) status (rd_decided_by d) stamp q of
             (Inl _, q) \<Rightarrow> (False, q, db)
           | (Inr r, q) \<Rightarrow>
               (True, q,
                snd (append_event X
                  (with_agent
                    (audit_event_new now ''host'' (if status = Approved then APPROVE else REJECT)
                      (decision_detail (request_view_of r) (rd_decided_by d)))
                    (rd_decided_by d)) db))))"

end
