(* ===== verification/Paths.thy ===== *)
theory Paths
  imports Kernel_Prelude
begin

text \<open>
  \<open>std::path\<close> on Unix, as far as the code uses it: the components of a path's text, lexical
  normalisation, \<open>join\<close>, \<open>starts_with\<close> and \<open>extension\<close>. A path is whether it is rooted and its
  names; its text is bytes, and the strings of this development are UTF-8.
\<close>

section \<open>Cutting texts\<close>

text \<open>\<open>split_once\<close> and \<open>rsplit_once\<close>, and \<open>split\<close> on any of some characters, first piece.\<close>

fun split_once :: "string \<Rightarrow> string \<Rightarrow> (string \<times> string) option" where
  "split_once sep [] = (if sep = [] then Some ([], []) else None)"
| "split_once sep (c # s) =
     (if starts_with (c # s) sep then Some ([], drop (length sep) (c # s))
      else map_option (map_prod ((#) c) id) (split_once sep s))"

definition rsplit_once :: "char \<Rightarrow> string \<Rightarrow> (string \<times> string) option" where
  "rsplit_once c s =
     (if c \<in> set s then
        let after = takeWhile (\<lambda>d. d \<noteq> c) (rev s)
        in Some (rev (drop (length after + 1) (rev s)), rev after)
      else None)"

fun join_with :: "string \<Rightarrow> string list \<Rightarrow> string" where
  "join_with sep [] = []"
| "join_with sep [s] = s"
| "join_with sep (s # ss) = s @ sep @ join_with sep ss"

definition forward_slashes :: "string \<Rightarrow> string" where
  "forward_slashes s = map (\<lambda>c. if c = CHR 0x5C then CHR ''/'' else c) s"

section \<open>Texts and components\<close>

fun path_parts :: "string \<Rightarrow> string \<Rightarrow> string list" where
  "path_parts [] acc = [rev acc]"
| "path_parts (c # s) acc = (if c = CHR ''/'' then rev acc # path_parts s [] else path_parts s (c # acc))"

datatype component = RootDir | CurDir | ParentDir | Normal string

definition component_of :: "string \<Rightarrow> component list" where
  "component_of p =
     (if p = [] \<or> p = ''.'' then [] else if p = ''..'' then [ParentDir] else [Normal p])"

definition components :: "string \<Rightarrow> component list" where
  "components s =
     (if starts_with s ''/'' then [RootDir]
      else if hd (path_parts s []) = ''.'' then [CurDir] else []) @
     concat (map component_of (path_parts s []))"

record fspath =
  p_rooted :: bool
  p_names :: "string list"

definition empty_path :: fspath where
  "empty_path = \<lparr>p_rooted = False, p_names = []\<rparr>"

fun push :: "component \<Rightarrow> fspath \<Rightarrow> fspath" where
  "push RootDir p = \<lparr>p_rooted = True, p_names = []\<rparr>"
| "push CurDir p = p"
| "push ParentDir p = p\<lparr>p_names := butlast (p_names p)\<rparr>"
| "push (Normal s) p = p\<lparr>p_names := p_names p @ [s]\<rparr>"

text \<open>Every component pushed; on a normal form this is \<open>join\<close> followed by normalisation.\<close>

definition push_all :: "component list \<Rightarrow> fspath \<Rightarrow> fspath" where
  "push_all cs p = foldl (\<lambda>p c. push c p) p cs"

definition normalize :: "string \<Rightarrow> fspath" where
  "normalize s = push_all (components s) empty_path"

definition starts_with_path :: "fspath \<Rightarrow> fspath \<Rightarrow> bool" where
  "starts_with_path p base \<longleftrightarrow>
     (if p_rooted base then p_rooted p \<and> take (length (p_names base)) (p_names p) = p_names base
      else p_names base = [] \<or>
        \<not> p_rooted p \<and> take (length (p_names base)) (p_names p) = p_names base)"

text \<open>The text after the last dot of the last name, unless that dot is its first byte.\<close>

definition extension :: "fspath \<Rightarrow> string option" where
  "extension p =
     (if p_names p = [] then None
      else let name = last (p_names p);
               after = takeWhile (\<lambda>c. c \<noteq> CHR ''.'') (rev name);
               before = drop (length after + 1) (rev name)
           in if CHR ''.'' \<in> set name \<and> before \<noteq> [] then Some (rev after) else None)"

definition show_path :: "fspath \<Rightarrow> string" where
  "show_path p =
     (if p_rooted p then ''/'' else []) @
     concat (map (\<lambda>(i, n). (if i = 0 then [] else ''/'') @ n)
       (zip [0 ..< length (p_names p)] (p_names p)))"

section \<open>What the operating system makes of a path\<close>

text \<open>No symbolic links; the path's names lead down from the root.\<close>

fun resolve_parts :: "string list \<Rightarrow> string list \<Rightarrow> string list" where
  "resolve_parts base [] = base"
| "resolve_parts base (p # ps) =
     (if p = [] \<or> p = ''.'' then resolve_parts base ps
      else if p = ''..'' then resolve_parts (butlast base) ps
      else resolve_parts (base @ [p]) ps)"

definition path_join :: "string list \<Rightarrow> string \<Rightarrow> string list" where
  "path_join base s = resolve_parts (if starts_with s ''/'' then [] else base) (path_parts s [])"

section \<open>Lemmas\<close>

definition plain_name :: "string \<Rightarrow> bool" where
  "plain_name n \<longleftrightarrow> n \<noteq> [] \<and> n \<noteq> ''.'' \<and> n \<noteq> ''..'' \<and> CHR ''/'' \<notin> set n"

lemma path_parts_no_slash: "p \<in> set (path_parts s acc) \<Longrightarrow> CHR ''/'' \<notin> set acc \<Longrightarrow> CHR ''/'' \<notin> set p"
  by (induction s acc rule: path_parts.induct) (auto split: if_splits)

lemma path_parts_nonempty [simp]: "path_parts s acc \<noteq> []"
  by (induction s acc rule: path_parts.induct) auto

lemma components_plain: "Normal n \<in> set (components s) \<Longrightarrow> plain_name n"
  by (auto simp: components_def component_of_def plain_name_def dest: path_parts_no_slash split: if_splits)

lemma push_all_simps [simp]:
  "push_all [] p = p" "push_all (c # cs) p = push_all cs (push c p)"
  "push_all (cs @ ds) p = push_all ds (push_all cs p)"
  by (simp_all add: push_all_def)

definition names_in :: "component list \<Rightarrow> string list" where
  "names_in cs = concat (map (\<lambda>c. case c of Normal n \<Rightarrow> [n] | _ \<Rightarrow> []) cs)"

lemma push_all_down:
  "RootDir \<notin> set cs \<Longrightarrow> ParentDir \<notin> set cs \<Longrightarrow> push_all cs p = p\<lparr>p_names := p_names p @ names_in cs\<rparr>"
proof (induction cs arbitrary: p)
  case (Cons c cs)
  then show ?case by (cases c) (simp_all add: names_in_def)
qed (simp add: names_in_def)

lemma components_root: "RootDir \<in> set (components s) \<longleftrightarrow> starts_with s ''/''"
  by (auto simp: components_def component_of_def split: if_splits)

text \<open>The components after the root.\<close>

definition below :: "string \<Rightarrow> component list" where
  "below s = concat (map component_of (path_parts s []))"

lemma below_no_root: "RootDir \<notin> set (below s)" "CurDir \<notin> set (below s)"
  by (auto simp: below_def component_of_def split: if_splits)

lemma components_below:
  "push_all (components s) p =
     (if starts_with s ''/'' then push_all (below s) \<lparr>p_rooted = True, p_names = []\<rparr> else push_all (below s) p)"
  by (auto simp: components_def below_def)

lemma parent_below: "ParentDir \<in> set (components s) \<longleftrightarrow> ParentDir \<in> set (below s)"
  by (auto simp: components_def below_def split: if_splits)

lemma names_below: "n \<in> set (names_in (below s)) \<Longrightarrow> plain_name n"
  by (auto simp: names_in_def below_def component_of_def plain_name_def dest: path_parts_no_slash
      split: component.splits if_splits)

end
