(* ===== verification/Host_Segments.thy ===== *)
theory Host_Segments
  imports Host_Requests Net_Relay Paths
begin

text \<open>
  Standing in for a silent centre and handing the segment back, \<open>host-core/src/state.rs\<close>: what a
  stand-in declares and opens, how its segment is closed, framed and delivered, and how the centre
  rebuilds, checks and merges what arrived. Sends through the relay client are fire and forget in the
  code, so they are a list of what was handed to it. \<open>ck\<close> gives the clock readings of one call in
  their order. A path is its components from the root; a file that exists nowhere opens empty.
\<close>

section \<open>Where a segment's file is\<close>

definition segment_db_path_in :: "string list \<Rightarrow> string \<Rightarrow> string list" where
  "segment_db_path_in audit_dir segment_id =
     path_join (audit_dir @ [''audit-segments'']) (segment_id @ ''.db'')"

section \<open>The stand-in\<close>

datatype sent = ToServer json | ToPeer string json

record standing_segment =
  st_id :: string
  st_opened_id :: int

record stand_in =
  si_me :: string
  si_centre :: string
  si_peers :: "string list"
  si_client :: bool
  si_audit :: host_audit
  si_machine :: suppression
  si_standing :: "standing_segment option"
  si_witnesses :: witness_table
  si_peers_reachable :: "string list"
  si_sent :: "sent list"

definition send_out :: "sent list \<Rightarrow> stand_in \<Rightarrow> stand_in" where
  "send_out fs w = (if si_client w then w\<lparr>si_sent := si_sent w @ fs\<rparr> else w)"

definition record_host_event :: "externs \<Rightarrow> int \<Rightarrow> string \<Rightarrow> json \<Rightarrow> host_audit \<Rightarrow> host_audit" where
  "record_host_event X now action detail h =
     host_record X (with_agent (audit_event_new now ''host'' action detail) (ha_agent_id h)) h"

definition open_temporary_segment ::
  "externs \<Rightarrow> string \<Rightarrow> int \<Rightarrow> int \<Rightarrow> audit_db \<Rightarrow> (string \<times> int) option \<times> audit_db" where
  "open_temporary_segment X owner t t' db =
     (case open_segment_for X Temporary owner t t' db of
        (Inl _, db) \<Rightarrow> (None, db)
      | (Inr s, db) \<Rightarrow>
          (case last_id db of None \<Rightarrow> (None, db) | Some i \<Rightarrow> (Some (seg_id s, i), db)))"

definition TAKEOVER_DECLARED :: string where
  "TAKEOVER_DECLARED = ''host.connection.takeover_declared''"

definition takeover_detail :: "string \<Rightarrow> string \<Rightarrow> string \<Rightarrow> int \<Rightarrow> json" where
  "takeover_detail segment_id centre by_whom now =
     json_obj [(''segment_id'', JStr segment_id), (''centre'', JStr centre), (''by'', JStr by_whom),
               (''at_ms'', JInt now)]"

definition declare_takeover ::
  "externs \<Rightarrow> (nat \<Rightarrow> int) \<Rightarrow> int \<Rightarrow> stand_in \<Rightarrow> standing_segment option \<times> stand_in" where
  "declare_takeover X ck now w =
     (let w = send_out (map (\<lambda>p. ToPeer p (takeover_body (si_centre w) (si_me w) now)) (si_peers w)) w
      in case open_temporary_segment X (si_me w) (ck 0) (ck 1) (ha_db (si_audit w)) of
        (None, db) \<Rightarrow> (None, w\<lparr>si_audit := (si_audit w)\<lparr>ha_db := db\<rparr>\<rparr>)
      | (Some (i, opened_id), db) \<Rightarrow>
          let detail = takeover_detail i (si_centre w) (si_me w) now;
              w = w\<lparr>si_audit := record_host_event X (ck 2) TAKEOVER_DECLARED detail
                    ((si_audit w)\<lparr>ha_db := db\<rparr>)\<rparr>
          in (Some \<lparr>st_id = i, st_opened_id = opened_id\<rparr>,
              send_out [ToServer (key_event_to_body
                \<lparr>ke_at_ms = now, ke_action = TAKEOVER_DECLARED, ke_detail = detail\<rparr>)] w))"

definition frame_of :: "string \<Rightarrow> string \<Rightarrow> nat \<Rightarrow> nat \<times> stored_event \<Rightarrow> segment_event" where
  "frame_of segment_id centre all_n ie =
     (case ie of (i, s) \<Rightarrow>
       \<lparr>sg_segment_id = segment_id, sg_centre = centre, sg_index = i, sg_total = all_n,
        sg_ts = ev_timestamp_ms (se_event s), sg_actor = ev_actor (se_event s),
        sg_action = ev_action (se_event s), sg_agent_id = ev_agent_id (se_event s),
        sg_detail = ev_detail (se_event s), sg_hash = Some (se_hash s),
        sg_prev_hash = Some (se_prev_hash s)\<rparr>)"

definition as_count :: "int \<Rightarrow> nat option" where
  "as_count n = (if 0 \<le> n then Some (nat n) else None)"

definition segment_frames ::
  "stored_event list \<Rightarrow> string \<Rightarrow> string \<Rightarrow> string option \<Rightarrow> int option \<Rightarrow> string option \<Rightarrow>
   segment_event list \<times> segment_done" where
  "segment_frames events segment_id centre head_prev_chain head_prev_length anchor_hash =
     (map (frame_of segment_id centre (length events)) (zip [0 ..< length events] events),
      \<lparr>sd_segment_id = segment_id, sd_centre = centre, sd_total = length events,
       sd_head_prev_chain = head_prev_chain,
       sd_anchor_length = Option.bind head_prev_length as_count,
       sd_anchor_hash = anchor_hash\<rparr>)"

definition segment_delivered_detail :: "string \<Rightarrow> string \<Rightarrow> int \<Rightarrow> int \<Rightarrow> nat \<Rightarrow> int \<Rightarrow> json" where
  "segment_delivered_detail segment_id centre from_id to_id events now =
     json_obj [(''segment_id'', JStr segment_id), (''centre'', JStr centre), (''from_id'', JInt from_id),
               (''to_id'', JInt to_id), (''events'', JInt (int events)), (''at_ms'', JInt now)]"

definition segment_anchor :: "externs \<Rightarrow> string \<Rightarrow> audit_db \<Rightarrow> string option \<times> int option" where
  "segment_anchor X sid db =
     (case segment_lookup X sid db of
        Inr (Some s) \<Rightarrow> (seg_head_prev_chain s, seg_head_prev_length s)
      | _ \<Rightarrow> (None, None))"

definition opening_hash :: "externs \<Rightarrow> int \<Rightarrow> audit_db \<Rightarrow> string option" where
  "opening_hash X opened_id db =
     (case events_in_range X opened_id opened_id db of
        Inl _ \<Rightarrow> None
      | Inr rows \<Rightarrow> if rows = [] then None else Some (se_hash (last rows)))"

definition delivery_of ::
  "externs \<Rightarrow> string \<Rightarrow> standing_segment \<Rightarrow> int \<Rightarrow> audit_db \<Rightarrow>
   (segment_event list \<times> segment_done) option" where
  "delivery_of X centre standing closed_id db =
     (case events_in_range X (st_opened_id standing + 1) (closed_id - 1) db of
        Inl _ \<Rightarrow> None
      | Inr events \<Rightarrow>
          (case segment_anchor X (st_id standing) db of
             (digest, len) \<Rightarrow>
               Some (segment_frames events (st_id standing) centre digest len
                 (opening_hash X (st_opened_id standing) db))))"

definition deliver_segment ::
  "externs \<Rightarrow> int \<Rightarrow> standing_segment \<Rightarrow> int \<Rightarrow> int \<Rightarrow> stand_in \<Rightarrow> stand_in" where
  "deliver_segment X stamp standing closed_id now w =
     (if \<not> si_client w then w
      else case delivery_of X (si_centre w) standing closed_id (ha_db (si_audit w)) of
        None \<Rightarrow> w
      | Some (events, done) \<Rightarrow>
          let w = send_out (map (\<lambda>e. ToPeer (si_centre w) (segment_event_body e)) events @
                [ToPeer (si_centre w) (segment_done_body done)]) w
          in w\<lparr>si_audit := record_host_event X stamp ''host.connection.segment_delivered''
                 (segment_delivered_detail (st_id standing) (si_centre w) (st_opened_id standing + 1)
                   (closed_id - 1) (length events) now) (si_audit w)\<rparr>)"

definition close_standing_segment ::
  "externs \<Rightarrow> (nat \<Rightarrow> int) \<Rightarrow> int \<Rightarrow> standing_segment \<Rightarrow> stand_in \<Rightarrow> stand_in" where
  "close_standing_segment X ck now standing w =
     (case close_segment X (st_id standing) (ck 0) (ck 1) (ha_db (si_audit w)) of
        (Inl _, db) \<Rightarrow> w\<lparr>si_audit := (si_audit w)\<lparr>ha_db := db\<rparr>\<rparr>
      | (Inr _, db) \<Rightarrow>
          (case last_id db of
             None \<Rightarrow> w\<lparr>si_audit := (si_audit w)\<lparr>ha_db := db\<rparr>\<rparr>
           | Some closed_id \<Rightarrow>
               deliver_segment X (ck 3) standing closed_id now
                 (w\<lparr>si_audit := record_host_event X (ck 2) ''host.connection.centre_returned''
                    (json_obj [(''segment_id'', JStr (st_id standing)), (''centre'', JStr (si_centre w)),
                               (''at_ms'', JInt now)])
                    ((si_audit w)\<lparr>ha_db := db\<rparr>)\<rparr>)))"

definition react_to_centre ::
  "externs \<Rightarrow> (nat \<Rightarrow> int) \<Rightarrow> bool \<Rightarrow> int \<Rightarrow> stand_in \<Rightarrow> bool \<times> stand_in" where
  "react_to_centre X ck reachable now w =
     (let w = (if reachable \<and> su_phase (si_machine w) = StandingIn then
                 (case si_standing w of
                    None \<Rightarrow> w
                  | Some standing \<Rightarrow> close_standing_segment X ck now standing (w\<lparr>si_standing := None\<rparr>))
               else w);
          w = w\<lparr>si_machine := snd (sup_observe reachable now (si_machine w))\<rparr>;
          w = (if su_phase (si_machine w) = Confirming then
                 w\<lparr>si_machine := snd (sup_confirm (si_witnesses w) (si_centre w) now
                    (List.member (si_peers_reachable w)) (si_machine w))\<rparr>
               else w)
      in if is_first_in_line (si_me w) (si_peers w) then
           (case maybe_stand_in now (si_machine w) of
              (True, m) \<Rightarrow>
                (case declare_takeover X (\<lambda>i. ck (i + 4)) now (w\<lparr>si_machine := m\<rparr>) of
                   (standing, w) \<Rightarrow> (True, w\<lparr>si_standing := standing\<rparr>))
            | (False, m) \<Rightarrow> (False, w\<lparr>si_machine := m\<rparr>))
         else (False, w))"

text \<open>One turn of the ticker's loop: a takeover that was heard, then what the probes see of the centre.\<close>

definition hear_takeover :: "externs \<Rightarrow> int \<Rightarrow> int \<Rightarrow> stand_in \<Rightarrow> stand_in" where
  "hear_takeover X stamp heard w =
     (let was_standing = (su_phase (si_machine w) = StandingIn);
          w = w\<lparr>si_machine := sup_stand_down heard (si_machine w)\<rparr>
      in if was_standing then
           w\<lparr>si_audit := record_host_event X stamp ''host.connection.stood_down''
              (json_obj [(''centre'', JStr (si_centre w)), (''at_ms'', JInt heard)]) (si_audit w)\<rparr>
         else w)"

definition ticker_turn ::
  "externs \<Rightarrow> (nat \<Rightarrow> int) \<Rightarrow> int option \<Rightarrow> bool option \<Rightarrow> int \<Rightarrow> stand_in \<Rightarrow> stand_in" where
  "ticker_turn X ck heard reachable now w =
     (let w = (case heard of None \<Rightarrow> w | Some t \<Rightarrow> hear_takeover X (ck 0) t w)
      in case reachable of
           None \<Rightarrow> w
         | Some r \<Rightarrow> snd (react_to_centre X (\<lambda>i. ck (i + 1)) r now w))"

section \<open>The centre\<close>

definition show_nat_list :: "nat list \<Rightarrow> string" where
  "show_nat_list ns =
     ''['' @ concat (map (\<lambda>(i, n). (if i = 0 then [] else '', '') @ show_nat n) (zip [0 ..< length ns] ns)) @ '']''"

fun delivery_reason :: "delivery_problem \<Rightarrow> string" where
  "delivery_reason (NotForThisNode said this_node) =
     ''the stream was addressed to '' @ said @ '', and this node is '' @ this_node"
| "delivery_reason (DeliveryCount said arrived) =
     ''the end frame says '' @ show_nat said @ '' event(s) and '' @ show_nat arrived @ '' arrived''"
| "delivery_reason (Positions expected found) =
     ''the events are not the positions 0..'' @ show_nat expected @ '': '' @ show_nat_list found"

fun linkage_reason :: "linkage_problem \<Rightarrow> string" where
  "linkage_reason NoHash = ''the events carried no hashes''"
| "linkage_reason (ChainBreak i expected found) =
     ''event '' @ show_nat i @ '' continues from '' @ found @ '', and the event before it ends at '' @ expected"
| "linkage_reason (HashMismatch i) =
     ''event '' @ show_nat i @ '' does not recompute to the hash it claims''"

record centre_side =
  ce_dir :: "string list"
  ce_audit :: host_audit
  ce_files :: "(string list \<times> audit_db) list"
  ce_queue :: sandbox_requests
  ce_client :: bool
  ce_sent :: "sent list"

definition main_path :: "centre_side \<Rightarrow> string list" where
  "main_path c = ce_dir c @ [''audit.db'']"

definition file_at :: "centre_side \<Rightarrow> string list \<Rightarrow> audit_db" where
  "file_at c p =
     (if p = main_path c then ha_db (ce_audit c)
      else case map_of (ce_files c) p of Some f \<Rightarrow> f | None \<Rightarrow> new_file [])"

definition write_file :: "string list \<Rightarrow> audit_db \<Rightarrow> centre_side \<Rightarrow> centre_side" where
  "write_file p f c =
     (if p = main_path c then c\<lparr>ce_audit := (ce_audit c)\<lparr>ha_db := f\<rparr>\<rparr>
      else c\<lparr>ce_files := (p, f) # filter (\<lambda>e. fst e \<noteq> p) (ce_files c)\<rparr>)"

definition delivered_event :: "segment_event \<Rightarrow> audit_event" where
  "delivered_event e =
     \<lparr>ev_timestamp_ms = sg_ts e, ev_actor = sg_actor e, ev_action = sg_action e,
      ev_detail = sg_detail e, ev_agent_id = sg_agent_id e\<rparr>"

fun append_delivered ::
  "externs \<Rightarrow> segment_event list \<Rightarrow> audit_db \<Rightarrow> (audit_error + unit) \<times> audit_db" where
  "append_delivered X [] db = (Inr (), db)"
| "append_delivered X (e # es) db =
     and_then (append_event X (delivered_event e) db) (\<lambda>_ db. append_delivered X es db)"

text \<open>Writing the delivered events into the segment's own file, and the verdict on that file.\<close>

definition rebuild_segment ::
  "externs \<Rightarrow> segment_event list \<Rightarrow> audit_db \<Rightarrow> (string + (string + unit)) \<times> audit_db" where
  "rebuild_segment X events file =
     (case and_then (open_file file) (\<lambda>_ file. append_delivered X events file) of
        (Inl e, file) \<Rightarrow> (Inl (audit_error_text e), file)
      | (Inr _, file) \<Rightarrow>
          (Inr (case verify_store X file of
             Intact _ \<Rightarrow> Inr ()
           | Broken at_id reason \<Rightarrow>
               Inl (''the rebuilt segment is broken at '' @ show_int at_id @ '': '' @ reason)), file))"

definition SKIPPED :: string where "SKIPPED = ''skipped''"

text \<open>The words that travel with a verdict: what was checked, and the chaining's answer.\<close>

definition check_delivery ::
  "externs \<Rightarrow> string \<Rightarrow> segment_done \<Rightarrow> segment_event list \<Rightarrow> string + unit \<Rightarrow>
   (string + unit) \<times> string \<times> string" where
  "check_delivery X this_node d events rebuild =
     (if sd_anchor_length d = None then (Inr (), SKIPPED, SKIPPED)
      else case verify_delivery this_node d events of
        Inl problem \<Rightarrow> (Inl (delivery_reason problem), ''delivery'', SKIPPED)
      | Inr _ \<Rightarrow>
          (case rebuild of
             Inl reason \<Rightarrow> (Inl reason, ''delivery'', SKIPPED)
           | Inr _ \<Rightarrow>
               (case verify_linkage X events of
                  Inr _ \<Rightarrow> (Inr (), ''delivery+chained'', ''ok'')
                | Inl NoHash \<Rightarrow> (Inr (), ''delivery'', SKIPPED)
                | Inl problem \<Rightarrow> (Inl (linkage_reason problem), ''delivery'', ''broken''))))"

definition check_anchor :: "segment_done \<Rightarrow> segment_event list \<Rightarrow> (string + unit) \<times> string" where
  "check_anchor d events =
     (case sd_anchor_hash d of
        None \<Rightarrow> (Inr (), SKIPPED)
      | Some wanted \<Rightarrow>
          (case (if events = [] then None else sg_prev_hash (hd events)) of
             None \<Rightarrow> (Inr (), SKIPPED)
           | Some found \<Rightarrow>
               if found = wanted then (Inr (), ''ok'')
               else (Inl ''the first delivered event does not continue from the anchor the sender named'',
                     ''broken'')))"

definition as_i64_length :: "nat option \<Rightarrow> int option" where
  "as_i64_length n = Option.bind n (\<lambda>k. if int k \<le> i64_max then Some (int k) else None)"

definition outcome_said :: "merge_outcome \<Rightarrow> string" where
  "outcome_said out = (case out of Folded n \<Rightarrow> ''folded '' @ show_nat n | Forked why \<Rightarrow> ''forked: '' @ why)"

definition fork_event :: "int \<Rightarrow> string \<Rightarrow> string \<Rightarrow> string \<Rightarrow> json" where
  "fork_event now sid sender why =
     key_event_to_body \<lparr>ke_at_ms = now, ke_action = ''host.audit.segment_forked'',
       ke_detail = json_obj [(''segment_id'', JStr sid), (''from'', JStr sender), (''reason'', JStr why)]\<rparr>"

definition transcribed_rows ::
  "externs \<Rightarrow> nat \<Rightarrow> merge_outcome \<Rightarrow> audit_db \<Rightarrow> audit_error + stored_event list" where
  "transcribed_rows X before out db =
     (case out of
        Folded n \<Rightarrow>
          if 0 < n then list_events X (default_filter\<lparr>ef_from_id := Some (int before + 1)\<rparr>) n db
          else Inr []
      | Forked _ \<Rightarrow> Inr [])"

definition fold_in_requests :: "externs \<Rightarrow> int \<Rightarrow> stored_event list \<Rightarrow> centre_side \<Rightarrow> centre_side" where
  "fold_in_requests X stamp transcribed c =
     (if transcribed = [] then c
      else case restore_requests (derive_requests_from transcribed) (ce_queue c) of
        ((restored, conflicts), q) \<Rightarrow>
          let c = c\<lparr>ce_queue := q\<rparr>
          in if 0 < restored \<or> conflicts \<noteq> [] then
               c\<lparr>ce_audit := record_host_event X stamp ''host.sandbox_request.restore''
                  (restore_detail restored conflicts) (ce_audit c)\<rparr>
             else c)"

text \<open>What follows a merge: the fork is told, the queue hears of the asks, the rebuilt event is recorded.\<close>

definition after_merge ::
  "externs \<Rightarrow> (nat \<Rightarrow> int) \<Rightarrow> string \<Rightarrow> string \<Rightarrow> nat \<Rightarrow> int \<Rightarrow> merge_outcome \<Rightarrow> stored_event list \<Rightarrow>
   centre_side \<Rightarrow> centre_side" where
  "after_merge X ck sender sid events now out transcribed c =
     (let c = (case out of
                 Forked why \<Rightarrow>
                   if ce_client c then c\<lparr>ce_sent := ce_sent c @ [ToServer (fork_event now sid sender why)]\<rparr>
                   else c
               | Folded _ \<Rightarrow> c);
          c = fold_in_requests X (ck 2) transcribed c
      in c\<lparr>ce_audit := record_host_event X (ck 3) ''host.connection.segment_rebuilt''
            (json_obj [(''segment_id'', JStr sid), (''from'', JStr sender),
                       (''events'', JInt (int events)), (''outcome'', JStr (outcome_said out)),
                       (''at_ms'', JInt now)]) (ce_audit c)\<rparr>)"

definition merge_received ::
  "externs \<Rightarrow> (nat \<Rightarrow> int) \<Rightarrow> string \<Rightarrow> segment_done \<Rightarrow> nat \<Rightarrow> int \<Rightarrow> centre_side \<Rightarrow>
   (string + unit) \<times> centre_side" where
  "merge_received X ck sender d events now c =
     (let sid = sd_segment_id d;
          db = ha_db (ce_audit c);
          opened = (case open_file (file_at c (segment_db_path_in (ce_dir c) sid)) of
                      (Inl e, _) \<Rightarrow> Inl e | (Inr _, f) \<Rightarrow> Inr f)
      in case merge_segment X opened sid (ck 0) (ck 1) db of
        (Inl e, db') \<Rightarrow> (Inl (audit_error_text e), c\<lparr>ce_audit := (ce_audit c)\<lparr>ha_db := db'\<rparr>\<rparr>)
      | (Inr out, db') \<Rightarrow>
          let c = c\<lparr>ce_audit := (ce_audit c)\<lparr>ha_db := db'\<rparr>\<rparr>
          in case transcribed_rows X (event_count db) out db' of
               Inl e \<Rightarrow> (Inl (audit_error_text e), c)
             | Inr transcribed \<Rightarrow> (Inr (), after_merge X ck sender sid events now out transcribed c))"

definition receive_segment ::
  "externs \<Rightarrow> (nat \<Rightarrow> int) \<Rightarrow> string \<Rightarrow> string \<Rightarrow> segment_done \<Rightarrow> segment_event list \<Rightarrow> int \<Rightarrow>
   centre_side \<Rightarrow> (string + unit) \<times> centre_side" where
  "receive_segment X ck this_node sender d events now c =
     (let sid = sd_segment_id d;
          anchor_length = as_i64_length (sd_anchor_length d)
      in case adopt_segment X sid (sd_head_prev_chain d) anchor_length (ha_db (ce_audit c)) of
        (Inl e, db) \<Rightarrow> (Inl (audit_error_text e), c\<lparr>ce_audit := (ce_audit c)\<lparr>ha_db := db\<rparr>\<rparr>)
      | (Inr _, db) \<Rightarrow>
          let c = c\<lparr>ce_audit := (ce_audit c)\<lparr>ha_db := db\<rparr>\<rparr>;
              p = segment_db_path_in (ce_dir c) sid
          in case rebuild_segment X events (file_at c p) of
            (Inl why, f) \<Rightarrow> (Inl why, write_file p f c)
          | (Inr rebuild, f) \<Rightarrow>
              let c = write_file p f c
              in case check_delivery X this_node d events rebuild of
                (verdict, checked, linkage) \<Rightarrow>
                  (case check_anchor d events of
                    (anchor_check, anchor) \<Rightarrow>
                      (case bind_result verdict (\<lambda>_. anchor_check) of
                         Inl reason \<Rightarrow>
                           (Inr (), c\<lparr>ce_audit := record_host_event X (ck 0) ACTION_CHAIN_REJECTED
                              (chain_rejected_detail sid sender (sd_head_prev_chain d) anchor_length
                                (length events) reason checked linkage anchor) (ce_audit c)\<rparr>)
                       | Inr _ \<Rightarrow>
                           merge_received X (\<lambda>i. ck (i + 1)) sender d (length events) now
                             (c\<lparr>ce_audit := record_host_event X (ck 0) ACTION_CHAIN_VERIFIED
                                (chain_verified_detail sid sender (sd_head_prev_chain d) anchor_length
                                  (length events) checked linkage anchor) (ce_audit c)\<rparr>))))"

text \<open>The reader's inbox: the events of each arriving segment, by its id, and the end that takes them.\<close>

type_synonym segment_inbox = "(string \<times> segment_event list) list"

definition inbox_push :: "segment_event \<Rightarrow> segment_inbox \<Rightarrow> segment_inbox" where
  "inbox_push e m =
     put (sg_segment_id e) ((case map_of m (sg_segment_id e) of None \<Rightarrow> [] | Some es \<Rightarrow> es) @ [e]) m"

definition read_segment_frame ::
  "externs \<Rightarrow> (nat \<Rightarrow> int) \<Rightarrow> string \<Rightarrow> string \<Rightarrow> json \<Rightarrow> int \<Rightarrow> segment_inbox \<Rightarrow> centre_side \<Rightarrow>
   segment_inbox \<times> centre_side" where
  "read_segment_frame X ck node_id sender body now m c =
     (case is_segment_event body of
        Some e \<Rightarrow> (if sg_centre e = node_id then (inbox_push e m, c) else (m, c))
      | None \<Rightarrow>
          (case is_segment_done body of
             None \<Rightarrow> (m, c)
           | Some d \<Rightarrow>
               if sd_centre d \<noteq> node_id then (m, c)
               else
                 let events = sort_key sg_index
                       (case map_of m (sd_segment_id d) of None \<Rightarrow> [] | Some es \<Rightarrow> es)
                 in (del (sd_segment_id d) m,
                     snd (receive_segment X ck node_id sender d events now c))))"

end
