(* ===== verification/Host_Delivery.thy ===== *)
theory Host_Delivery
  imports Host_Segments
begin

text \<open>
  A closed segment on its way: the span of the sender's chain, the frames cut out of it, the file the
  centre rebuilds from them, and what merging that file appends.
\<close>

section \<open>The span between two rows\<close>

lemma filter_between_sorted:
  fixes f :: "'a \<Rightarrow> int"
  assumes "sorted_wrt (<) (map f rows)" "r \<in> set rows"
  obtains p span q where "rows = p @ r # span @ q"
    "filter (\<lambda>x. f r + 1 \<le> f x \<and> f x \<le> b) rows = span"
proof -
  from assms(2) obtain p s where rows: "rows = p @ r # s" by (meson split_list)
  have lo: "\<forall>x \<in> set p. f x < f r" and hi: "\<forall>x \<in> set s. f r < f x"
    and s: "sorted_wrt (<) (map f s)"
    using assms(1) by (auto simp: rows sorted_wrt_append)
  have "filter (\<lambda>x. f r + 1 \<le> f x \<and> f x \<le> b) rows = filter (\<lambda>x. f x \<le> b) s"
  proof -
    have "filter (\<lambda>x. f r + 1 \<le> f x \<and> f x \<le> b) p = []" using lo by (force simp: filter_empty_conv)
    moreover have "filter (\<lambda>x. f r + 1 \<le> f x \<and> f x \<le> b) s = filter (\<lambda>x. f x \<le> b) s"
      using hi by (intro filter_cong) auto
    ultimately show ?thesis by (simp add: rows)
  qed
  also have "\<dots> = takeWhile (\<lambda>x. f x \<le> b) s"
    using s
  proof (induction s)
    case (Cons x s)
    have "\<not> f x \<le> b \<Longrightarrow> filter (\<lambda>x. f x \<le> b) s = []"
      using Cons.prems by (force simp: filter_empty_conv)
    with Cons show ?case by auto
  qed simp
  finally have "filter (\<lambda>x. f r + 1 \<le> f x \<and> f x \<le> b) rows = takeWhile (\<lambda>x. f x \<le> b) s" .
  then show thesis
    using that [of p "takeWhile (\<lambda>x. f x \<le> b) s" "dropWhile (\<lambda>x. f x \<le> b) s"] rows by simp
qed

lemma filter_one_sorted:
  fixes f :: "'a \<Rightarrow> int"
  assumes "sorted_wrt (<) (map f rows)" "r \<in> set rows"
  shows "filter (\<lambda>x. f r \<le> f x \<and> f x \<le> f r) rows = [r]"
proof -
  from assms(2) obtain p s where rows: "rows = p @ r # s" by (meson split_list)
  with assms(1) have "\<forall>x \<in> set p. f x < f r" "\<forall>x \<in> set s. f r < f x" by (auto simp: sorted_wrt_append)
  then have "filter (\<lambda>x. f r \<le> f x \<and> f x \<le> f r) p = []" "filter (\<lambda>x. f r \<le> f x \<and> f x \<le> f r) s = []"
    by (force simp: filter_empty_conv)+
  then show ?thesis by (simp add: rows)
qed

section \<open>The frames are a chain of their own\<close>

lemma frame_of_simps [simp]:
  "delivered_event (frame_of sid centre n (i, s)) = se_event s"
  "sg_index (frame_of sid centre n (i, s)) = i"
  "sg_hash (frame_of sid centre n (i, s)) = Some (se_hash s)"
  "sg_prev_hash (frame_of sid centre n (i, s)) = Some (se_prev_hash s)"
  by (simp_all add: frame_of_def delivered_event_def)

definition framed :: "string \<Rightarrow> string \<Rightarrow> stored_event list \<Rightarrow> segment_event list" where
  "framed sid centre es = map (frame_of sid centre (length es)) (zip [0 ..< length es] es)"

lemma length_framed [simp]: "length (framed sid centre es) = length es"
  by (simp add: framed_def)

lemma framed_nth [simp]: "i < length es \<Longrightarrow> framed sid centre es ! i = frame_of sid centre (length es) (i, es ! i)"
  by (simp add: framed_def)

lemma framed_events: "map delivered_event (framed sid centre es) = map se_event es"
  by (rule nth_equalityI) simp_all

lemma framed_indexes: "map sg_index (framed sid centre es) = [0 ..< length es]"
  by (rule nth_equalityI) simp_all

lemma framed_hashes: "\<forall>e \<in> set (framed sid centre es). sg_hash e \<noteq> None \<and> sg_prev_hash e \<noteq> None"
  by (auto simp: in_set_conv_nth)

lemma framed_hd: "es \<noteq> [] \<Longrightarrow> sg_prev_hash (hd (framed sid centre es)) = Some (se_prev_hash (hd es))"
  by (simp add: hd_conv_nth flip: length_greater_0_conv)

text \<open>A row of the sender's chain and the frame made of it hash alike.\<close>

lemma chained_framed:
  assumes "list_all2 (\<lambda>r s. into_stored X r = Inr s \<and> row_detail_json r = x_text X (ev_detail (se_event s))) rows es"
  shows "chained X p (map (segment_row X) (framed sid centre es)) = chained X p rows"
proof -
  let ?same = "\<lambda>a b. row_prev_hash a = row_prev_hash b \<and> row_hash a = row_hash b \<and> recomputed X a = recomputed X b"
  have "?same (segment_row X (frame_of sid centre n (i, s))) r"
    if "into_stored X r = Inr s" "row_detail_json r = x_text X (ev_detail (se_event s))" for r s n i
    using that
    by (auto simp: segment_row_def frame_of_def or_default_def into_stored_def
        bind_result_Inr_iff recomputed_def row_event_def compute_hash_def hash_input_def)
  with assms have "list_all2 ?same (map (segment_row X) (framed sid centre es)) rows"
    unfolding list_all2_conv_all_nth by simp
  moreover have "list_all2 ?same as bs \<Longrightarrow> chained X q as = chained X q bs" for as bs q
    by (induction arbitrary: q rule: list_all2_induct) auto
  ultimately show ?thesis by blast
qed

section \<open>What the sender hands over\<close>

definition stored_row :: "externs \<Rightarrow> raw_row \<Rightarrow> stored_event \<Rightarrow> bool" where
  "stored_row X r s \<longleftrightarrow>
     into_stored X r = Inr s \<and> row_detail_json r = x_text X (ev_detail (se_event s)) \<and>
     printable (ev_detail (se_event s))"

lemma stored_row_decoded:
  assumes "text_roundtrips X" "readable X db" "r \<in> set (db_events db)"
  shows "stored_row X r (decoded X r)"
proof -
  obtain v where v: "printable v" "row_detail_json r = x_text X v"
    using assms(2,3) by (auto simp: readable_def)
  with into_stored_readable [OF assms(1) v] show ?thesis by (simp add: stored_row_def)
qed

lemma span_of:
  assumes "sound X db" "readable X db" "text_roundtrips X" "r \<in> set (db_events db)"
  obtains rows es where "events_in_range X (row_id r + 1) b db = Inr es" "list_all2 (stored_row X) rows es"
    "chained X (row_hash r) rows" "opening_hash X (row_id r) db = Some (row_hash r)"
proof -
  have sorted: "sorted_wrt (<) (map row_id (db_events db))" using assms(1) by (simp add: sound_def)
  obtain p span q where span: "db_events db = p @ r # span @ q"
    "filter (\<lambda>x. row_id r + 1 \<le> row_id x \<and> row_id x \<le> b) (db_events db) = span"
    using filter_between_sorted [OF sorted assms(4)] by blast
  have dec: "\<forall>x \<in> set (db_events db). stored_row X x (decoded X x)"
    using stored_row_decoded [OF assms(3,2)] by blast
  then have tr: "set rs \<subseteq> set (db_events db) \<Longrightarrow> traverse_result (into_stored X) rs = Inr (map (decoded X) rs)" for rs
    by (intro traverse_result_all) (auto simp: stored_row_def)
  have "chained X GENESIS_PREV_HASH (p @ r # span @ q)" using assms(1) span(1) by (simp add: sound_def)
  then have "chained X (row_hash r) (span @ q)" by (subst (asm) chained_append) auto
  then have ch: "chained X (row_hash r) span" by (subst (asm) chained_append) auto
  have "opening_hash X (row_id r) db = Some (row_hash r)"
    using filter_one_sorted [OF sorted assms(4)] tr [of "[r]"] assms(4)
    by (simp add: opening_hash_def events_in_range_def decoded_def)
  moreover have "set span \<subseteq> set (db_events db)" by (auto simp: span(1))
  then have "events_in_range X (row_id r + 1) b db = Inr (map (decoded X) span)"
    unfolding events_in_range_def span(2) by (rule tr)
  moreover have "list_all2 (stored_row X) span (map (decoded X) span)"
    using dec span(1) by (simp add: list_all2_conv_all_nth)
  ultimately show thesis using that ch by blast
qed

lemma delivery_accepted:
  assumes "sound X db" "readable X db" "text_roundtrips X"
    and "r \<in> set (db_events db)" "row_id r = st_opened_id standing"
    and "delivery_of X centre standing closed_id db = Some (events, d)"
  shows "check_delivery X centre d events (Inr ()) = (Inr (), snd (check_delivery X centre d events (Inr ())))"
    and "fst (check_anchor d events) = Inr ()"
    and "sd_segment_id d = st_id standing"
    and "\<exists>es. events_in_range X (st_opened_id standing + 1) (closed_id - 1) db = Inr es \<and>
      map delivered_event events = map se_event es \<and>
      (\<forall>s \<in> set es. printable (ev_detail (se_event s)))"
proof -
  obtain rows es where es: "events_in_range X (st_opened_id standing + 1) (closed_id - 1) db = Inr es"
    and rows: "list_all2 (stored_row X) rows es" "chained X (row_hash r) rows"
    and hash: "opening_hash X (st_opened_id standing) db = Some (row_hash r)"
    using span_of [OF assms(1-4), of "closed_id - 1"] assms(5) by metis
  obtain digest len where "segment_anchor X (st_id standing) db = (digest, len)" by force
  with assms(6) es hash have d: "events = framed (st_id standing) centre es"
    "d = \<lparr>sd_segment_id = st_id standing, sd_centre = centre, sd_total = length es,
      sd_head_prev_chain = digest, sd_anchor_length = Option.bind len as_count,
      sd_anchor_hash = Some (row_hash r)\<rparr>"
    by (simp_all add: delivery_of_def segment_frames_def framed_def)
  from d show "sd_segment_id d = st_id standing" by simp
  have vd: "verify_delivery centre d events = Inr ()"
    by (simp add: verify_delivery_Inr d framed_indexes)
  have ch: "chained X (row_hash r) (map (segment_row X) events)"
    unfolding d using rows chained_framed [of X rows es "row_hash r"]
    by (simp add: stored_row_def list_all2_conv_all_nth)
  have first: "events \<noteq> [] \<Longrightarrow> sg_prev_hash (hd events) = Some (row_hash r)"
  proof -
    assume "events \<noteq> []"
    moreover from this obtain e rest where e: "events = e # rest" by (cases events) auto
    ultimately have "or_default (sg_prev_hash e) = row_hash r" using ch by (simp add: segment_row_def)
    moreover have "sg_prev_hash e \<noteq> None" using framed_hashes e unfolding d by (metis list.set_intros(1))
    ultimately show ?thesis using e by (auto simp: or_default_def)
  qed
  have vl: "events \<noteq> [] \<Longrightarrow> verify_linkage X events = Inr ()"
    using ch first framed_hashes unfolding verify_linkage_Inr d by (simp add: or_default_def)
  have "events = [] \<Longrightarrow> verify_linkage X events = Inl NoHash" by (simp add: verify_linkage_def)
  with vd vl show "check_delivery X centre d events (Inr ()) = (Inr (), snd (check_delivery X centre d events (Inr ())))"
    by (cases "events = []") (auto simp: check_delivery_def)
  show "fst (check_anchor d events) = Inr ()"
    using first by (cases "events = []") (auto simp: check_anchor_def d(2))
  show "\<exists>es. events_in_range X (st_opened_id standing + 1) (closed_id - 1) db = Inr es \<and>
      map delivered_event events = map se_event es \<and> (\<forall>s \<in> set es. printable (ev_detail (se_event s)))"
    using es rows(1) framed_events unfolding d
    by (auto simp: stored_row_def list_all2_conv_all_nth in_set_conv_nth intro!: exI [of _ es])
qed

section \<open>What the centre rebuilds\<close>

lemma append_delivered_Inr:
  "append_delivered X es db = (Inr u, db') \<Longrightarrow> appended_all X (map delivered_event es) db db'"
proof (induction es arbitrary: db)
  case Nil
  then show ?case by (simp add: appended_all_Nil)
next
  case (Cons e es)
  then obtain s db1 where ap: "append_event X (delivered_event e) db = (Inr s, db1)"
    and rest: "append_delivered X es db1 = (Inr u, db')"
    by (auto simp: and_then_Inr)
  from appended_all_trans [OF appended_all_one [OF append_event_Inr [OF ap]] Cons.IH [OF rest]]
  show ?case by simp
qed

lemma chained_chain_rows: "chained X p (chain_rows X p i evs)"
  by (induction evs arbitrary: p i) (simp_all add: Let_def recomputed_row_of)

lemma appended_all_sound:
  "appended_all X evs db db' \<Longrightarrow> chained X GENESIS_PREV_HASH (db_events db) \<Longrightarrow>
   chained X GENESIS_PREV_HASH (db_events db')"
  by (simp add: appended_all_def chained_append chained_chain_rows)

text \<open>A file that holds the rows of some events, and after the rebuild those and the delivered ones.\<close>

definition holds_events :: "externs \<Rightarrow> audit_event list \<Rightarrow> audit_db \<Rightarrow> bool" where
  "holds_events X evs db \<longleftrightarrow>
     db_events db = chain_rows X GENESIS_PREV_HASH 1 evs \<and> db_next_id db = 1 + int (length evs)"

lemma holds_events_new: "holds_events X [] (new_file faults)"
  by (simp add: holds_events_def new_file_def)

lemma holds_events_append:
  "holds_events X evs db \<Longrightarrow> appended_all X evs' db db' \<Longrightarrow> holds_events X (evs @ evs') db'"
  by (simp add: holds_events_def appended_all_def chain_rows_append head_of_def)

lemma holds_events_open:
  "holds_events X evs db \<Longrightarrow> open_file db = (r, db') \<Longrightarrow> holds_events X evs db'"
  using same_chain_open [of db] by (simp add: holds_events_def same_chain_def)

lemma rebuild_segment_Inr:
  assumes "rebuild_segment X events file = (Inr verdict, file')" "holds_events X evs file"
  shows "verdict = Inr ()" and "holds_events X (evs @ map delivered_event events) file'"
proof -
  obtain f where op: "open_file file = (Inr (), f)" and ap: "append_delivered X events f = (Inr (), file')"
    using assms(1) by (auto simp: rebuild_segment_def and_then_Inr split: prod.splits sum.splits)
  have f: "holds_events X evs f" using holds_events_open [OF assms(2) op] .
  from holds_events_append [OF f append_delivered_Inr [OF ap]]
  show held: "holds_events X (evs @ map delivered_event events) file'" .
  have "chained X GENESIS_PREV_HASH (db_events f)"
    using f by (simp add: holds_events_def chained_chain_rows)
  from appended_all_sound [OF append_delivered_Inr [OF ap] this]
  have "verify_store X file' = Intact (length (db_events file'))"
    by (simp add: verify_store_def scan_def verify_chain_Intact)
  with assms(1) op ap show "verdict = Inr ()" by (simp add: rebuild_segment_def)
qed

lemma all_events_held:
  assumes "text_roundtrips X" "holds_events X evs db" "\<forall>ev \<in> set evs. printable (ev_detail ev)"
  shows "\<exists>es. all_events X db = Inr es \<and> map se_event es = evs"
proof -
  have "\<exists>es. traverse_result (into_stored X) (chain_rows X p i evs) = Inr es \<and> map se_event es = evs" for p i
    using assms(3)
  proof (induction evs arbitrary: p i)
    case (Cons ev evs)
    have "into_stored X (row_of i ev (x_text X (ev_detail ev)) p h) =
        Inr \<lparr>se_id = i, se_event = ev, se_prev_hash = p, se_hash = h\<rparr>" for h
      using Cons.prems assms(1)
      by (cases ev) (simp add: into_stored_def parse_detail_def row_of_def text_roundtrips_def)
    moreover from Cons obtain es where
      "traverse_result (into_stored X) (chain_rows X (compute_hash X p ev (x_text X (ev_detail ev))) (i + 1) evs) = Inr es"
      "map se_event es = evs" by (metis list.set_intros(2))
    ultimately show ?case by (simp add: Let_def)
  qed simp
  with assms(2) show ?thesis by (simp add: holds_events_def all_events_def scan_def)
qed

section \<open>What the merge of a received segment appends\<close>

lemma host_record_extends: "\<exists>new. db_events (ha_db (host_record X ev h)) = db_events (ha_db h) @ new"
proof (cases "append_event X ev (ha_db h)")
  case (Pair r db)
  show ?thesis
  proof (cases r)
    case (Inl e)
    with Pair same_but_faults_fields [OF append_event_Inl] show ?thesis
      by (fastforce simp: host_record_def push_audit_failure_def)
  next
    case (Inr s)
    with Pair appended_events(1) [OF append_event_Inr] show ?thesis by (simp add: host_record_def)
  qed
qed

lemma host_record_parseable:
  assumes "text_roundtrips X" "printable (ev_detail ev)" "parseable X (ha_db h)"
  shows "parseable X (ha_db (host_record X ev h))"
proof (cases "append_event X ev (ha_db h)")
  case (Pair r db)
  show ?thesis
  proof (cases r)
    case (Inl e)
    with Pair same_but_faults_fields [OF append_event_Inl] assms(3) show ?thesis
      by (fastforce simp: host_record_def push_audit_failure_def parseable_def)
  next
    case (Inr s)
    with Pair appended_events(1) [OF append_event_Inr] assms show ?thesis
      by (fastforce simp: host_record_def parseable_def row_of_def text_roundtrips_def)
  qed
qed

lemma fold_in_requests_extends:
  "\<exists>new. db_events (ha_db (ce_audit (fold_in_requests X stamp es c))) = db_events (ha_db (ce_audit c)) @ new"
  using host_record_extends by (auto simp: fold_in_requests_def record_host_event_def Let_def split: prod.split)

text \<open>The two ways a merge of a file with known events ends, as rows of the main chain.\<close>

definition folded_in :: "externs \<Rightarrow> audit_event list \<Rightarrow> raw_row list \<Rightarrow> raw_row list \<Rightarrow> bool" where
  "folded_in X evs before later \<longleftrightarrow>
     (\<exists>pre rows marker post. later = before @ pre @ rows @ [marker] @ post \<and>
        row_action marker = ACTION_SEGMENT_MERGED \<and>
        list_all2 (\<lambda>ev r. same_content (ev\<lparr>ev_detail := cleared_detail (ev_detail ev)\<rparr>) r X) evs rows)"

definition forked_off :: "externs \<Rightarrow> audit_event list \<Rightarrow> raw_row list \<Rightarrow> raw_row list \<Rightarrow> bool" where
  "forked_off X evs before later \<longleftrightarrow>
     (\<exists>pre marker post. later = before @ pre @ [marker] @ post \<and>
        row_action marker = ACTION_SEGMENT_FORKED \<and>
        (\<exists>ev \<in> set evs. \<exists>r \<in> set (before @ pre).
           row_actor r = ev_actor ev \<and> row_action r = ev_action ev \<and>
           x_parse X (row_detail_json r) = Some (cleared_detail (ev_detail ev))))"

lemma folded_in_later:
  assumes "folded_in X evs (before @ new) later"
  shows "folded_in X evs before later"
proof -
  from assms obtain pre rows marker post where *: "later = (before @ new) @ pre @ rows @ [marker] @ post"
    "row_action marker = ACTION_SEGMENT_MERGED"
    "list_all2 (\<lambda>ev r. same_content (ev\<lparr>ev_detail := cleared_detail (ev_detail ev)\<rparr>) r X) evs rows"
    unfolding folded_in_def by blast
  then have "later = before @ (new @ pre) @ rows @ [marker] @ post" by simp
  with *(2,3) show ?thesis unfolding folded_in_def by blast
qed

lemma forked_off_later:
  assumes "forked_off X evs (before @ new) later"
  shows "forked_off X evs before later"
proof -
  from assms obtain pre marker post where *: "later = (before @ new) @ pre @ [marker] @ post"
    "row_action marker = ACTION_SEGMENT_FORKED"
    "\<exists>ev \<in> set evs. \<exists>r \<in> set ((before @ new) @ pre).
       row_actor r = ev_actor ev \<and> row_action r = ev_action ev \<and>
       x_parse X (row_detail_json r) = Some (cleared_detail (ev_detail ev))"
    unfolding forked_off_def by blast
  show ?thesis unfolding forked_off_def
    by (intro exI [of _ "new @ pre"] exI [of _ marker] exI [of _ post] conjI)
      (use * in \<open>simp_all only: append_assoc\<close>)
qed

lemma folded_in_more:
  assumes "folded_in X evs before later"
  shows "folded_in X evs before (later @ new)"
proof -
  from assms obtain pre rows marker post where *: "later = before @ pre @ rows @ [marker] @ post"
    "row_action marker = ACTION_SEGMENT_MERGED"
    "list_all2 (\<lambda>ev r. same_content (ev\<lparr>ev_detail := cleared_detail (ev_detail ev)\<rparr>) r X) evs rows"
    unfolding folded_in_def by blast
  then have "later @ new = before @ pre @ rows @ [marker] @ (post @ new)" by simp
  with *(2,3) show ?thesis unfolding folded_in_def by blast
qed

lemma forked_off_more:
  assumes "forked_off X evs before later"
  shows "forked_off X evs before (later @ new)"
proof -
  from assms obtain pre marker post where *: "later = before @ pre @ [marker] @ post"
    "row_action marker = ACTION_SEGMENT_FORKED"
    "\<exists>ev \<in> set evs. \<exists>r \<in> set (before @ pre).
       row_actor r = ev_actor ev \<and> row_action r = ev_action ev \<and>
       x_parse X (row_detail_json r) = Some (cleared_detail (ev_detail ev))"
    unfolding forked_off_def by blast
  then have "later @ new = before @ pre @ [marker] @ (post @ new)" by simp
  with *(2,3) show ?thesis unfolding forked_off_def by blast
qed

lemma merge_of_held:
  assumes "merge_segment X (Inr file) sid t t' db = (Inr out, db')" "holds_events X evs file"
    and "text_roundtrips X" "\<forall>ev \<in> set evs. printable (ev_detail ev)" "parseable X db"
  shows "folded_in X evs (db_events db) (db_events db') \<or> forked_off X evs (db_events db) (db_events db')"
proof -
  obtain es where es: "all_events X file = Inr es" "map se_event es = evs"
    using all_events_held [OF assms(3,2,4)] by blast
  from assms(1) show ?thesis
  proof (cases rule: merge_segment_cases)
    case (folded s es' db1)
    with es have es': "es' = es" by simp
    let ?p = "head_of GENESIS_PREV_HASH (db_events db)" and ?i = "db_next_id db"
    let ?m = "merged_marker sid (seg_kind s) t t' (length es)"
    obtain marker where m: "chain_rows X ?p ?i (map outgoing es @ [?m]) =
        chain_rows X ?p ?i (map outgoing es) @ [marker]" "same_content ?m marker X"
      using chain_rows_snoc by blast
    have "list_all2 (\<lambda>ev r. same_content ev r X) (map outgoing es) (chain_rows X ?p ?i (map outgoing es))"
      by (rule chain_rows_content)
    moreover have "map outgoing es = map (\<lambda>ev. ev\<lparr>ev_detail := cleared_detail (ev_detail ev)\<rparr>) evs"
      by (simp add: outgoing_def flip: es(2))
    ultimately have "list_all2 (\<lambda>ev r. same_content (ev\<lparr>ev_detail := cleared_detail (ev_detail ev)\<rparr>) r X)
        evs (chain_rows X ?p ?i (map outgoing es))"
      by (simp add: list_all2_map1)
    moreover have "row_action marker = ACTION_SEGMENT_MERGED"
      using m(2) by (simp add: same_content_def merged_marker_def audit_event_new_def)
    moreover have "db_events db' = db_events db @ [] @ chain_rows X ?p ?i (map outgoing es) @ [marker] @ []"
      using folded(5,6) m(1) by (simp add: appended_all_def es')
    ultimately show ?thesis unfolding folded_in_def by blast
  next
    case (forked s es' actor act i db1)
    with es have es': "es' = es" by simp
    let ?m = "forked_marker sid (seg_kind s) t t' (fork_reason actor act i) i"
    obtain marker where m: "db_events db1 = db_events db @ [marker]" "same_content ?m marker X"
      using chain_rows_snoc [of X _ _ "[]" ?m] forked(5) by (auto simp: appended_all_def)
    have "row_action marker = ACTION_SEGMENT_FORKED"
      using m(2) by (simp add: same_content_def forked_marker_def audit_event_new_def)
    moreover obtain e r where er: "e \<in> set es" "r \<in> set (db_events db)" "clash X e r"
      using find_conflict_Some [OF assms(5) forked(3)] es' by blast
    moreover have "se_event e \<in> set evs" using er(1) es(2) by auto
    moreover have "db_events db' = db_events db @ [] @ [marker] @ []" using forked(6) m(1) by simp
    ultimately show ?thesis unfolding forked_off_def clash_def
      by (intro disjI2 exI [of _ "[]"] exI [of _ marker] conjI bexI [of _ "se_event e"] bexI [of _ r]) auto
  qed
qed

end
