(* ===== verification/Host_Samples.thy ===== *)
theory Host_Samples
  imports Host_Segments Sample_Externs
begin

text \<open>Concrete logs and hosts on which the conditional theorems of the host are applied.\<close>

text \<open>The sample choice of the other crates' functions, with a digest that stays short and is new along a chain.\<close>

definition brief_externs :: externs where
  "brief_externs = sample_externs\<lparr>x_sha := \<lambda>s.
     (let p = takeWhile (\<lambda>c. c \<noteq> CHR ''|'') s in if length p < 64 then p @ ''x'' else ''x'')\<rparr>"

lemma brief_text_roundtrips: "text_roundtrips brief_externs"
  using sample_text_roundtrips by (simp add: text_roundtrips_def brief_externs_def)

definition sample_log :: "audit_event list \<Rightarrow> audit_db" where
  "sample_log evs =
     (new_file [])\<lparr>db_events := chain_rows brief_externs GENESIS_PREV_HASH 1 evs,
        db_next_id := 1 + int (length evs)\<rparr>"

definition sample_act :: "string \<Rightarrow> audit_event" where
  "sample_act actor =
     audit_event_new 5 actor ''act'' (json_obj [(''k'', JInt 1), (PROVISIONAL, JBool True)])"

definition sample_host_audit :: "audit_db \<Rightarrow> host_audit" where
  "sample_host_audit db =
     \<lparr>ha_db = db, ha_agent_id = ''c'', ha_failures = [], ha_emitted = 0, ha_alert = True,
      ha_current_run = None, ha_last_run = None, ha_startup_seq = 0\<rparr>"

lemma sample_act_printable: "printable (ev_detail (sample_act actor))"
  by (simp add: sample_act_def audit_event_new_def printable_def PROVISIONAL_def json_obj_def
      obj_insert_all_def ordered_def i64_min_def)

lemma sample_log_parseable:
  "\<forall>ev \<in> set evs. printable (ev_detail ev) \<Longrightarrow> parseable brief_externs (sample_log evs)"
  using chain_rows_parseable [OF brief_text_roundtrips] by (simp add: parseable_def sample_log_def)

lemma sample_log_readable:
  assumes "\<forall>ev \<in> set evs. printable (ev_detail ev)"
  shows "readable brief_externs (sample_log evs)"
proof -
  have "\<exists>v. printable v \<and> row_detail_json r = x_text brief_externs v"
    if "r \<in> set (chain_rows brief_externs p i evs)" for r p i
    using that assms by (induction evs arbitrary: p i) (auto simp: Let_def)
  then show ?thesis by (simp add: readable_def sample_log_def)
qed

lemma pair_of_fst: "fst p = x \<Longrightarrow> p = (x, snd p)"
  by (cases p) simp

end
