(* ===== verification/Host_Properties.thy ===== *)
theory Host_Properties
  imports Host_Delivery Host_Samples
begin

text \<open>
  Properties of the host that span its log, its queue and the segments it hands over or takes in.
\<close>

section \<open>Lemmas\<close>

lemma adopt_segment_events:
  "adopt_segment X sid p n db = (r, db') \<Longrightarrow> db_events db' = db_events db"
  by (cases r)
    (auto simp: adopt_segment_def and_then_def insert_segment_Inr(1) insert_segment_Inl(1)
      split: sum.splits option.splits)

lemma main_path_simps [simp]:
  "main_path (c\<lparr>ce_audit := a\<rparr>) = main_path c" "main_path (write_file p f c) = main_path c"
  "ce_dir (write_file p f c) = ce_dir c"
  by (simp_all add: main_path_def write_file_def)

lemma file_at_other [simp]: "p \<noteq> main_path c \<Longrightarrow> file_at (c\<lparr>ce_audit := a\<rparr>) p = file_at c p"
  by (simp add: file_at_def main_path_def)

lemma file_at_written [simp]: "p \<noteq> main_path c \<Longrightarrow> file_at (write_file p f c) p = f"
  by (simp add: file_at_def main_path_def write_file_def)

lemma write_file_audit [simp]: "p \<noteq> main_path c \<Longrightarrow> ce_audit (write_file p f c) = ce_audit c"
  by (simp add: write_file_def)

lemma record_host_event_extends:
  "\<exists>new. db_events (ha_db (record_host_event X now action detail h)) = db_events (ha_db h) @ new"
  unfolding record_host_event_def by (rule host_record_extends)

lemma after_merge_extends:
  "\<exists>new. db_events (ha_db (ce_audit (after_merge X ck sender sid n now out ts c))) =
     db_events (ha_db (ce_audit c)) @ new"
proof -
  define c1 where "c1 = (case out of
      Forked why \<Rightarrow>
        if ce_client c then c\<lparr>ce_sent := ce_sent c @ [ToServer (fork_event now sid sender why)]\<rparr> else c
    | Folded _ \<Rightarrow> c)"
  have "ce_audit c1 = ce_audit c" by (simp add: c1_def split: merge_outcome.split)
  with fold_in_requests_extends [of X "ck 2" ts c1] obtain new where
    new: "db_events (ha_db (ce_audit (fold_in_requests X (ck 2) ts c1))) = db_events (ha_db (ce_audit c)) @ new"
    by auto
  show ?thesis unfolding after_merge_def c1_def [symmetric] Let_def
    by simp (metis append.assoc new record_host_event_extends)
qed

lemma merged_rows_stay:
  assumes "merge_received X ck sender d n now c = (Inr (), c')"
  obtains opened out db new where
    "merge_segment X opened (sd_segment_id d) (ck 0) (ck 1) (ha_db (ce_audit c)) = (Inr out, db)"
    "opened = (case open_file (file_at c (segment_db_path_in (ce_dir c) (sd_segment_id d))) of
      (Inl e, _) \<Rightarrow> Inl e | (Inr _, f) \<Rightarrow> Inr f)"
    "db_events (ha_db (ce_audit c')) = db_events db @ new"
proof -
  define opened where "opened = (case open_file (file_at c (segment_db_path_in (ce_dir c) (sd_segment_id d))) of
      (Inl e, _) \<Rightarrow> Inl e | (Inr _, f) \<Rightarrow> Inr f)"
  obtain r db where m: "merge_segment X opened (sd_segment_id d) (ck 0) (ck 1) (ha_db (ce_audit c)) = (r, db)"
    by force
  with assms obtain out ts where "r = Inr out"
      "c' = after_merge X ck sender (sd_segment_id d) n now out ts (c\<lparr>ce_audit := (ce_audit c)\<lparr>ha_db := db\<rparr>\<rparr>)"
    by (auto simp: merge_received_def Let_def simp flip: opened_def split: sum.splits)
  with after_merge_extends [of X ck sender "sd_segment_id d" n now out ts "c\<lparr>ce_audit := (ce_audit c)\<lparr>ha_db := db\<rparr>\<rparr>"]
    m that opened_def show thesis by fastforce
qed

lemma chain_verified_printable:
  assumes "int n \<le> i64_max" "len = as_i64_length k"
  shows "printable (chain_verified_detail sid sender digest len n checked linkage anchor)"
proof -
  have "\<forall>i. len = Some i \<longrightarrow> is_i64 i"
    using assms(2) by (auto simp: as_i64_length_def i64_bounds bind_eq_Some_conv split: if_splits)
  then show ?thesis
    using assms(1) unfolding chain_verified_detail_def
    by (intro printable_obj) (auto simp: opt_int_def i64_bounds split: option.splits)
qed

text \<open>A receipt that answers well and was not refused, step by step.\<close>

lemma accepted_receipt:
  assumes "receive_segment X ck centre sender d events now c = (Inr (), c')"
    and "p = segment_db_path_in (ce_dir c) (sd_segment_id d)" "p \<noteq> main_path c"
    and "holds_events X held (file_at c p)"
    and "check_delivery X centre d events (Inr ()) = (Inr (), words)" "fst (check_anchor d events) = Inr ()"
  obtains f db0 c3 checked linkage anchor where
    "holds_events X (held @ map delivered_event events) f" "file_at c3 p = f" "ce_dir c3 = ce_dir c"
    "db_events db0 = db_events (ha_db (ce_audit c))"
    "ha_db (ce_audit c3) = ha_db (record_host_event X (ck 0) ACTION_CHAIN_VERIFIED
      (chain_verified_detail (sd_segment_id d) sender (sd_head_prev_chain d)
        (as_i64_length (sd_anchor_length d)) (length events) checked linkage anchor)
      ((ce_audit c)\<lparr>ha_db := db0\<rparr>))"
    "merge_received X (\<lambda>i. ck (i + 1)) sender d (length events) now c3 = (Inr (), c')"
proof -
  let ?len = "as_i64_length (sd_anchor_length d)"
  obtain r db0 where ad: "adopt_segment X (sd_segment_id d) (sd_head_prev_chain d) ?len
      (ha_db (ce_audit c)) = (r, db0)" by force
  with assms(1) have r: "r = Inr ()" by (cases r) (auto simp: receive_segment_def Let_def)
  obtain v f where rb: "rebuild_segment X events (file_at c p) = (v, f)" by force
  with assms(1-3) ad r obtain verdict where v: "v = Inr verdict"
    by (cases v) (auto simp: receive_segment_def Let_def)
  note f = rebuild_segment_Inr [OF rb [unfolded v] assms(4)]
  obtain checked linkage anchor where w: "words = (checked, linkage)" "check_anchor d events = (Inr (), anchor)"
    using assms(6) by (cases words; cases "check_anchor d events") auto
  define c3 where "c3 = (write_file p f (c\<lparr>ce_audit := (ce_audit c)\<lparr>ha_db := db0\<rparr>\<rparr>))
    \<lparr>ce_audit := record_host_event X (ck 0) ACTION_CHAIN_VERIFIED
      (chain_verified_detail (sd_segment_id d) sender (sd_head_prev_chain d) ?len (length events)
        checked linkage anchor) ((ce_audit c)\<lparr>ha_db := db0\<rparr>)\<rparr>"
  have "merge_received X (\<lambda>i. ck (i + 1)) sender d (length events) now c3 = (Inr (), c')"
    using assms(1-3,5) ad r rb v f(1) w by (simp add: receive_segment_def Let_def c3_def main_path_def)
  moreover have "db_events db0 = db_events (ha_db (ce_audit c))" using adopt_segment_events [OF ad] .
  moreover have "file_at c3 p = f" "ce_dir c3 = ce_dir c"
    using assms(3) by (simp_all add: c3_def main_path_def)
  moreover have "ha_db (ce_audit c3) = ha_db (record_host_event X (ck 0) ACTION_CHAIN_VERIFIED
      (chain_verified_detail (sd_segment_id d) sender (sd_head_prev_chain d) ?len (length events)
        checked linkage anchor) ((ce_audit c)\<lparr>ha_db := db0\<rparr>))" by (simp add: c3_def)
  ultimately show thesis using that f(2) by blast
qed

lemma accepted_merged:
  assumes "receive_segment X ck centre sender d events now c = (Inr (), c')"
    and "p = segment_db_path_in (ce_dir c) (sd_segment_id d)" "p \<noteq> main_path c"
    and "holds_events X held (file_at c p)"
    and "check_delivery X centre d events (Inr ()) = (Inr (), words)" "fst (check_anchor d events) = Inr ()"
    and "text_roundtrips X" "parseable X (ha_db (ce_audit c))" "int (length events) \<le> i64_max"
    and "\<forall>ev \<in> set (held @ map delivered_event events). printable (ev_detail ev)"
  shows "folded_in X (held @ map delivered_event events) (db_events (ha_db (ce_audit c)))
      (db_events (ha_db (ce_audit c'))) \<or>
    forked_off X (held @ map delivered_event events) (db_events (ha_db (ce_audit c)))
      (db_events (ha_db (ce_audit c')))"
proof -
  let ?evs = "held @ map delivered_event events"
  obtain f db0 c3 checked linkage anchor where f: "holds_events X ?evs f" "file_at c3 p = f" "ce_dir c3 = ce_dir c"
    and db0: "db_events db0 = db_events (ha_db (ce_audit c))"
    and c3: "ha_db (ce_audit c3) = ha_db (record_host_event X (ck 0) ACTION_CHAIN_VERIFIED
      (chain_verified_detail (sd_segment_id d) sender (sd_head_prev_chain d)
        (as_i64_length (sd_anchor_length d)) (length events) checked linkage anchor)
      ((ce_audit c)\<lparr>ha_db := db0\<rparr>))"
    and m: "merge_received X (\<lambda>i. ck (i + 1)) sender d (length events) now c3 = (Inr (), c')"
    using accepted_receipt [OF assms(1-6)] by metis
  have parse: "parseable X (ha_db (ce_audit c3))"
    unfolding c3 record_host_event_def using assms(8) db0 chain_verified_printable [OF assms(9) refl]
    by (intro host_record_parseable [OF assms(7)])
      (auto simp: parseable_def audit_event_new_def with_agent_def)
  obtain new where new: "db_events (ha_db (ce_audit c3)) = db_events (ha_db (ce_audit c)) @ new"
    using c3 db0 record_host_event_extends [of X "ck 0" ACTION_CHAIN_VERIFIED _ "(ce_audit c)\<lparr>ha_db := db0\<rparr>"]
    by fastforce
  obtain opened out db new' where merge:
      "merge_segment X opened (sd_segment_id d) (ck (0 + 1)) (ck (1 + 1)) (ha_db (ce_audit c3)) = (Inr out, db)"
    and op: "opened = (case open_file (file_at c3 (segment_db_path_in (ce_dir c3) (sd_segment_id d))) of
      (Inl e, _) \<Rightarrow> Inl e | (Inr _, f) \<Rightarrow> Inr f)"
    and new': "db_events (ha_db (ce_audit c')) = db_events db @ new'"
    using merged_rows_stay [OF m] by metis
  obtain r f' where rf: "open_file f = (r, f')" by force
  have "\<exists>f'. opened = Inr f' \<and> holds_events X ?evs f'"
  proof (cases r)
    case (Inl e)
    with op f rf assms(2) merge show ?thesis
      by (auto simp: merge_segment_def and_then_def split: sum.splits)
  next
    case (Inr u)
    with op f rf assms(2) holds_events_open [OF f(1) rf] show ?thesis by auto
  qed
  then obtain f'' where "merge_segment X (Inr f'') (sd_segment_id d) (ck (0 + 1)) (ck (1 + 1))
      (ha_db (ce_audit c3)) = (Inr out, db)" "holds_events X ?evs f''"
    using merge by auto
  from merge_of_held [OF this assms(7,10) parse]
  show ?thesis
    unfolding new new' using folded_in_later folded_in_more forked_off_later forked_off_more by blast
qed

text \<open>A receipt that was refused leaves what it was given in the segment's file.\<close>

lemma refused_receipt:
  assumes "receive_segment X ck centre sender d events now c = (Inr (), c')"
    and "p = segment_db_path_in (ce_dir c) (sd_segment_id d)" "p \<noteq> main_path c"
    and "holds_events X held (file_at c p)"
    and "fst (check_delivery X centre d events (Inr ())) = Inl reason"
  obtains db0 detail where "holds_events X (held @ map delivered_event events) (file_at c' p)" "ce_dir c' = ce_dir c"
    "db_events db0 = db_events (ha_db (ce_audit c))"
    "ce_audit c' = record_host_event X (ck 0) ACTION_CHAIN_REJECTED detail ((ce_audit c)\<lparr>ha_db := db0\<rparr>)"
    "detail = chain_rejected_detail (sd_segment_id d) sender (sd_head_prev_chain d)
      (as_i64_length (sd_anchor_length d)) (length events) reason
      (fst (snd (check_delivery X centre d events (Inr ()))))
      (snd (snd (check_delivery X centre d events (Inr ())))) (snd (check_anchor d events))"
proof -
  let ?len = "as_i64_length (sd_anchor_length d)"
  obtain r db0 where ad: "adopt_segment X (sd_segment_id d) (sd_head_prev_chain d) ?len
      (ha_db (ce_audit c)) = (r, db0)" by force
  with assms(1) have r: "r = Inr ()" by (cases r) (auto simp: receive_segment_def Let_def)
  obtain v f where rb: "rebuild_segment X events (file_at c p) = (v, f)" by force
  with assms(1-3) ad r obtain verdict where v: "v = Inr verdict"
    by (cases v) (auto simp: receive_segment_def Let_def)
  note f = rebuild_segment_Inr [OF rb [unfolded v] assms(4)]
  obtain checked linkage where w: "check_delivery X centre d events (Inr ()) = (Inl reason, checked, linkage)"
    using assms(5) by (cases "check_delivery X centre d events (Inr ())") auto
  obtain a anchor where an: "check_anchor d events = (a, anchor)" by force
  define detail where "detail = chain_rejected_detail (sd_segment_id d) sender (sd_head_prev_chain d) ?len
    (length events) reason checked linkage anchor"
  have c': "c' = (write_file p f (c\<lparr>ce_audit := (ce_audit c)\<lparr>ha_db := db0\<rparr>\<rparr>))
    \<lparr>ce_audit := record_host_event X (ck 0) ACTION_CHAIN_REJECTED detail ((ce_audit c)\<lparr>ha_db := db0\<rparr>)\<rparr>"
    using assms(1-3) ad r rb v f(1) w an
    by (simp add: receive_segment_def Let_def main_path_def detail_def)
  have "holds_events X (held @ map delivered_event events) (file_at c' p)" "ce_dir c' = ce_dir c"
    using f(2) assms(3) by (simp_all add: c' main_path_def)
  moreover have "ce_audit c' = record_host_event X (ck 0) ACTION_CHAIN_REJECTED detail
      ((ce_audit c)\<lparr>ha_db := db0\<rparr>)" by (simp add: c')
  ultimately show thesis using that adopt_segment_events [OF ad] detail_def w an by simp
qed

lemma grows_events: "grows X db db' \<Longrightarrow> \<exists>new. db_events db' = db_events db @ new"
  by (auto simp: grows_def extends_def)

lemma chain_rejected_printable:
  assumes "int n \<le> i64_max" "len = as_i64_length k"
  shows "printable (chain_rejected_detail sid sender digest len n reason checked linkage anchor)"
proof -
  have "\<forall>i. len = Some i \<longrightarrow> is_i64 i"
    using assms(2) by (auto simp: as_i64_length_def i64_bounds bind_eq_Some_conv split: if_splits)
  then show ?thesis
    using assms(1) unfolding chain_rejected_detail_def
    by (intro printable_obj) (auto simp: opt_int_def i64_bounds split: option.splits)
qed

section \<open>Segments on their way\<close>


text \<open>
  C19. A refused delivery is not kept out of the main chain: its events stay in the segment's file, the
  next delivery under the same id is appended behind them, and once that one is accepted the merge
  takes over both, the refused events first. Only a clash with the centre's own acts stops it.
\<close>

theorem refused_events_are_merged_later:
  assumes "receive_segment X ck centre sender d bad now c = (Inr (), c1)"
    and "fst (check_delivery X centre d bad (Inr ())) = Inl reason"
    and "receive_segment X ck' centre sender' d' good now' c1 = (Inr (), c2)"
    and "check_delivery X centre d' good (Inr ()) = (Inr (), words)" "fst (check_anchor d' good) = Inr ()"
    and "sd_segment_id d' = sd_segment_id d"
    and "segment_db_path_in (ce_dir c) (sd_segment_id d) \<noteq> main_path c"
    and "db_events (file_at c (segment_db_path_in (ce_dir c) (sd_segment_id d))) = []"
    and "db_next_id (file_at c (segment_db_path_in (ce_dir c) (sd_segment_id d))) = 1"
    and "text_roundtrips X" "parseable X (ha_db (ce_audit c))"
    and "int (length bad) \<le> i64_max" "int (length good) \<le> i64_max"
    and "list_all (\<lambda>e. printable (sg_detail e)) (bad @ good)"
  shows "folded_in X (map delivered_event (bad @ good)) (db_events (ha_db (ce_audit c)))
      (db_events (ha_db (ce_audit c2))) \<or>
    forked_off X (map delivered_event (bad @ good)) (db_events (ha_db (ce_audit c)))
      (db_events (ha_db (ce_audit c2)))"
proof -
  let ?p = "segment_db_path_in (ce_dir c) (sd_segment_id d)"
  have held: "holds_events X [] (file_at c ?p)" using assms(8,9) by (simp add: holds_events_def)
  obtain db0 detail where f: "holds_events X ([] @ map delivered_event bad) (file_at c1 ?p)" "ce_dir c1 = ce_dir c"
    and db0: "db_events db0 = db_events (ha_db (ce_audit c))"
    and c1: "ce_audit c1 = record_host_event X (ck 0) ACTION_CHAIN_REJECTED detail ((ce_audit c)\<lparr>ha_db := db0\<rparr>)"
    and detail: "detail = chain_rejected_detail (sd_segment_id d) sender (sd_head_prev_chain d)
      (as_i64_length (sd_anchor_length d)) (length bad) reason
      (fst (snd (check_delivery X centre d bad (Inr ()))))
      (snd (snd (check_delivery X centre d bad (Inr ())))) (snd (check_anchor d bad))"
    using refused_receipt [OF assms(1) refl assms(7) held assms(2)] by metis
  have parse: "parseable X (ha_db (ce_audit c1))"
    unfolding c1 detail record_host_event_def
    using assms(11) db0 chain_rejected_printable [OF assms(12) refl]
    by (intro host_record_parseable [OF assms(10)]) (auto simp: parseable_def audit_event_new_def with_agent_def)
  obtain new where new: "db_events (ha_db (ce_audit c1)) = db_events (ha_db (ce_audit c)) @ new"
    using c1 db0 record_host_event_extends [of X "ck 0" ACTION_CHAIN_REJECTED detail "(ce_audit c)\<lparr>ha_db := db0\<rparr>"]
    by auto
  have pr: "\<forall>ev \<in> set (map delivered_event bad @ map delivered_event good). printable (ev_detail ev)"
    using assms(14) by (auto simp: delivered_event_def list_all_iff)
  have p: "?p = segment_db_path_in (ce_dir c1) (sd_segment_id d')" "?p \<noteq> main_path c1"
    using assms(6,7) f(2) by (simp_all add: main_path_def)
  from accepted_merged [OF assms(3) p f(1) [simplified] assms(4,5,10) parse assms(13) pr]
  show ?thesis unfolding new map_append using folded_in_later forked_off_later by blast
qed

lemma traversing_path: "segment_db_path_in dir ''../audit'' = dir @ [''audit.db'']"
  by (simp add: segment_db_path_in_def path_join_def starts_with_def)

text \<open>
  C20. The id of a delivered segment comes from the sender and is joined to the directory as it is: a
  segment called \<open>../audit\<close> is rebuilt in the main chain's own file, so its events, unchecked and with
  their provisional flags, are appended to the main chain before any verdict on them.
\<close>

theorem traversing_id_writes_the_main_chain:
  assumes "sd_segment_id d = ''../audit''"
    and "receive_segment X ck centre sender d events now c = (Inr (), c')"
  shows "\<exists>rows more. db_events (ha_db (ce_audit c')) = db_events (ha_db (ce_audit c)) @ rows @ more \<and>
    list_all2 (\<lambda>e r. same_content (delivered_event e) r X) events rows"
proof -
  let ?len = "as_i64_length (sd_anchor_length d)"
  obtain r db0 where ad: "adopt_segment X (sd_segment_id d) (sd_head_prev_chain d) ?len
      (ha_db (ce_audit c)) = (r, db0)" by force
  with assms(2) have r: "r = Inr ()" by (cases r) (auto simp: receive_segment_def Let_def)
  let ?c1 = "c\<lparr>ce_audit := (ce_audit c)\<lparr>ha_db := db0\<rparr>\<rparr>"
  have path: "segment_db_path_in (ce_dir c) (sd_segment_id d) = main_path c"
    using traversing_path assms(1) by (simp add: main_path_def)
  obtain v f where rb: "rebuild_segment X events db0 = (v, f)" by force
  let ?c2 = "?c1\<lparr>ce_audit := (ce_audit c)\<lparr>ha_db := f\<rparr>\<rparr>"
  have wf: "file_at ?c1 (main_path c) = db0" "write_file (main_path c) f ?c1 = ?c2"
    by (simp_all add: file_at_def write_file_def)
  obtain verdict where v: "v = Inr verdict"
    using assms(2) ad r rb path wf by (cases v) (auto simp: receive_segment_def Let_def)
  have "\<exists>more. db_events (ha_db (ce_audit c')) = db_events f @ more"
  proof -
    obtain chk checked linkage where ck: "check_delivery X centre d events verdict = (chk, checked, linkage)"
      by (metis prod_cases3)
    obtain ac anchor where ac: "check_anchor d events = (ac, anchor)" by force
    show ?thesis
    proof (cases "bind_result chk (\<lambda>_. ac)")
      case (Inl reason)
      then obtain detail where "ce_audit c' = record_host_event X (ck 0) ACTION_CHAIN_REJECTED detail
          ((ce_audit c)\<lparr>ha_db := f\<rparr>)"
        using assms(2) ad r rb v path wf ck ac by (auto simp: receive_segment_def Let_def)
      with record_host_event_extends [of X "ck 0" ACTION_CHAIN_REJECTED detail "(ce_audit c)\<lparr>ha_db := f\<rparr>"]
      show ?thesis by simp
    next
      case (Inr u)
      let ?h = "record_host_event X (ck 0) ACTION_CHAIN_VERIFIED
        (chain_verified_detail (sd_segment_id d) sender (sd_head_prev_chain d) ?len (length events)
          checked linkage anchor) ((ce_audit c)\<lparr>ha_db := f\<rparr>)"
      from Inr assms(2) ad r rb v path wf ck ac
      have "merge_received X (\<lambda>i. ck (i + 1)) sender d (length events) now (?c2\<lparr>ce_audit := ?h\<rparr>) = (Inr (), c')"
        by (simp add: receive_segment_def Let_def)
      then obtain opened out db new where
        m: "merge_segment X opened (sd_segment_id d) (ck (0 + 1)) (ck (1 + 1)) (ha_db ?h) = (Inr out, db)"
        and new: "db_events (ha_db (ce_audit c')) = db_events db @ new"
        by (rule merged_rows_stay) simp
      obtain new1 where "db_events db = db_events (ha_db ?h) @ new1"
        using grows_events [OF grows_merge_segment [of X "ha_db ?h" opened "sd_segment_id d" "ck (0 + 1)" "ck (1 + 1)"]] m
        by auto
      moreover have "\<exists>new2. db_events (ha_db ?h) = db_events (ha_db ((ce_audit c)\<lparr>ha_db := f\<rparr>)) @ new2"
        by (rule record_host_event_extends)
      then obtain new2 where "db_events (ha_db ?h) = db_events f @ new2" by auto
      ultimately show ?thesis using new by simp
    qed
  qed
  moreover obtain f0 where op: "open_file db0 = (Inr (), f0)" and ap: "append_delivered X events f0 = (Inr (), f)"
    using rb v by (auto simp: rebuild_segment_def and_then_Inr split: prod.splits sum.splits)
  have "db_events f0 = db_events (ha_db (ce_audit c))"
    using same_chain_open [of db0] op adopt_segment_events [OF ad] by (simp add: same_chain_def)
  then have "db_events f = db_events (ha_db (ce_audit c)) @
      chain_rows X (head_of GENESIS_PREV_HASH (db_events f0)) (db_next_id f0) (map delivered_event events)"
    using append_delivered_Inr [OF ap] by (simp add: appended_all_def)
  moreover have "list_all2 (\<lambda>e r. same_content (delivered_event e) r X) events
      (chain_rows X p i (map delivered_event events))" for p i
    using chain_rows_content [of X "map delivered_event events" p i] by (simp add: list_all2_map1)
  ultimately show ?thesis by fastforce
qed

section \<open>Sample states\<close>

definition sample_side :: "audit_event list \<Rightarrow> centre_side" where
  "sample_side evs =
     \<lparr>ce_dir = [''a''], ce_audit = sample_host_audit (sample_log evs), ce_files = [],
      ce_queue = new_requests None 1, ce_client = False, ce_sent = []\<rparr>"

definition sample_standing :: standing_segment where
  "sample_standing = \<lparr>st_id = ''seg-b-1'', st_opened_id = 1\<rparr>"

text \<open>A stand-in's log: the opening row of its segment, an act, the closing row.\<close>

definition sample_stood :: audit_db where
  "sample_stood =
     (sample_log [sample_act ''o'', sample_act ''b'', sample_act ''z''])
       \<lparr>db_segments := [segment_to_row
         \<lparr>seg_id = ''seg-b-1'', seg_kind = Temporary, seg_head_hash = None, seg_head_prev_chain = None,
          seg_head_prev_length = Some 0, seg_opened_at_ms = Some 4, seg_closed_at_ms = Some 6,
          seg_state = Seg_Closed, seg_note = None\<rparr>]\<rparr>"

definition sample_delivery :: "segment_event list \<times> segment_done" where
  "sample_delivery = the (delivery_of brief_externs ''c'' sample_standing 3 sample_stood)"


text \<open>A delivery whose end frame counts one event too many, and the same delivery told rightly.\<close>

definition miscounted :: segment_done where
  "miscounted = (snd sample_delivery)\<lparr>sd_total := 2\<rparr>"

theorem refused_events_are_merged_later_witness:
  "\<exists>c1 c2. let evs = map delivered_event (fst sample_delivery @ fst sample_delivery);
        before = db_events (sample_log []) in
     receive_segment brief_externs (\<lambda>_. 7) ''c'' ''b'' miscounted (fst sample_delivery) 9
       (sample_side []) = (Inr (), c1) \<and>
     receive_segment brief_externs (\<lambda>_. 8) ''c'' ''b'' (snd sample_delivery) (fst sample_delivery) 9 c1 =
       (Inr (), c2) \<and>
     (folded_in brief_externs evs before (db_events (ha_db (ce_audit c2))) \<or>
      forked_off brief_externs evs before (db_events (ha_db (ce_audit c2))))"
proof -
  let ?c = "sample_side []"
  let ?one = "receive_segment brief_externs (\<lambda>_. 7) ''c'' ''b'' miscounted (fst sample_delivery) 9 ?c"
  let ?two = "receive_segment brief_externs (\<lambda>_. 8) ''c'' ''b'' (snd sample_delivery) (fst sample_delivery) 9 (snd ?one)"
  let ?chk = "check_delivery brief_externs ''c'' (snd sample_delivery) (fst sample_delivery) (Inr ())"
  have a: "fst ?one = Inr ()" "fst ?two = Inr ()" by code_simp+
  have b: "fst (check_delivery brief_externs ''c'' miscounted (fst sample_delivery) (Inr ())) =
      Inl (delivery_reason (DeliveryCount 2 1))" by code_simp
  have g: "fst ?chk = Inr ()" "fst (check_anchor (snd sample_delivery) (fst sample_delivery)) = Inr ()" by code_simp+
  have i: "sd_segment_id (snd sample_delivery) = sd_segment_id miscounted" by (simp add: miscounted_def)
  have n: "segment_db_path_in (ce_dir ?c) (sd_segment_id miscounted) \<noteq> main_path ?c" by code_simp
  have f: "db_events (file_at ?c (segment_db_path_in (ce_dir ?c) (sd_segment_id miscounted))) = []" by code_simp
  have f': "db_next_id (file_at ?c (segment_db_path_in (ce_dir ?c) (sd_segment_id miscounted))) = 1" by code_simp
  have pa: "parseable brief_externs (ha_db (ce_audit ?c))"
    using sample_log_parseable sample_act_printable by (simp add: sample_side_def sample_host_audit_def)
  have l: "int (length (fst sample_delivery)) \<le> i64_max" by code_simp
  have pr: "list_all (\<lambda>e. printable (sg_detail e)) (fst sample_delivery @ fst sample_delivery)"
  proof -
    have "map sg_detail (fst sample_delivery) = [ev_detail (sample_act ''b'')]"
      by code_simp
    then have "\<forall>v \<in> set (map sg_detail (fst sample_delivery)). printable v" by (simp add: sample_act_printable)
    then show ?thesis by (simp add: list_all_iff)
  qed
  from refused_events_are_merged_later [OF pair_of_fst [OF a(1)] b pair_of_fst [OF a(2)] pair_of_fst [OF g(1)]
      g(2) i n f f' brief_text_roundtrips pa l l pr]
  show ?thesis using pair_of_fst [OF a(1)] pair_of_fst [OF a(2)]
    by (intro exI [of _ "snd ?one"] exI [of _ "snd ?two"]) (simp add: Let_def sample_side_def sample_host_audit_def)
qed

definition traversing :: segment_done where
  "traversing = (snd sample_delivery)\<lparr>sd_segment_id := ''../audit''\<rparr>"

theorem traversing_id_writes_the_main_chain_witness:
  "\<exists>rows more. db_events (ha_db (ce_audit (snd (receive_segment brief_externs (\<lambda>_. 7) ''c'' ''b'' traversing
       (fst sample_delivery) 9 (sample_side []))))) = db_events (sample_log []) @ rows @ more \<and>
     list_all2 (\<lambda>e r. same_content (delivered_event e) r brief_externs) (fst sample_delivery) rows"
proof -
  have "fst (receive_segment brief_externs (\<lambda>_. 7) ''c'' ''b'' traversing (fst sample_delivery) 9 (sample_side [])) =
      Inr ()" by code_simp
  from traversing_id_writes_the_main_chain [OF _ pair_of_fst [OF this]] show ?thesis
    by (simp add: traversing_def sample_side_def sample_host_audit_def)
qed

end
