(* ===== verification/Host_Queue.thy ===== *)
theory Host_Queue
  imports Host_Requests
begin

text \<open>
  The request queue and the chain's account of it: a step relation for the operations whose event was
  written, and the agreement of the queue with what \<open>derive_requests_from\<close> reads out of the chain.
\<close>

section \<open>Requests served with their event written\<close>

definition written :: "request_host \<Rightarrow> request_host \<Rightarrow> bool" where
  "written h h' \<longleftrightarrow>
     event_count (ha_db (rh_audit h')) = Suc (event_count (ha_db (rh_audit h)))"

inductive serves :: "externs \<Rightarrow> request_host \<Rightarrow> request_host \<Rightarrow> bool" for X where
  asked: "request_sandbox X requester action sandbox defn reason now stamp h = (v, h') \<Longrightarrow>
    written h h' \<Longrightarrow> serves X h h'"
| approved: "approve_sandbox_request X now stamp sent_at i by_whom h = (r, h') \<Longrightarrow>
    (\<forall>v. r = Inr v \<longrightarrow> written h h') \<Longrightarrow> serves X h h'"
| rejected: "reject_sandbox_request X now stamp sent_at i by_whom h = (r, h') \<Longrightarrow>
    (\<forall>v. r = Inr v \<longrightarrow> written h h') \<Longrightarrow> serves X h h'"

inductive_cases servesE: "serves X h h'"

section \<open>What agreement means\<close>

definition same_request :: "sandbox_request \<Rightarrow> reconciled_request \<Rightarrow> bool" where
  "same_request r c \<longleftrightarrow>
     rq_id r = rc_id c \<and> rq_requester r = rc_requester c \<and> rq_action r = rc_action c \<and>
     rq_sandbox r = rc_sandbox c \<and> rq_status r = rc_status c \<and> rq_decided_by r = rc_decided_by c"

definition numbered :: "sandbox_requests \<Rightarrow> bool" where
  "numbered q \<longleftrightarrow> map rq_id (sq_requests q) = map (request_id (sq_pid q)) [1 ..< Suc (sq_seq q)]"

definition logged :: "externs \<Rightarrow> request_host \<Rightarrow> bool" where
  "logged X h \<longleftrightarrow>
     numbered (rh_queue h) \<and>
     (\<exists>es. all_events X (ha_db (rh_audit h)) = Inr es \<and>
       list_all2 same_request (sq_requests (rh_queue h)) (derive_requests_from es))"

section \<open>Lemmas\<close>

lemma request_id_inj: "request_id p m = request_id p n \<Longrightarrow> m = n"
  by (auto simp: request_id_def dest: show_nat_inj)

lemma list_all2_update_first_in:
  assumes "list_all2 R xs ys" "\<And>x y. R x y \<Longrightarrow> x \<in> set xs \<Longrightarrow> P x \<longleftrightarrow> Q y"
    and "\<And>x y. R x y \<Longrightarrow> x \<in> set xs \<Longrightarrow> P x \<Longrightarrow> find P xs = Some x \<Longrightarrow> R (f x) (g y)"
  shows "rel_option (list_all2 R) (update_first P f xs) (update_first Q g ys)"
  using assms
proof (induction rule: list_all2_induct)
  case (Cons x xs y ys)
  have "\<not> P x \<Longrightarrow> rel_option (list_all2 R) (update_first P f xs) (update_first Q g ys)"
    using Cons.prems by (intro Cons.IH) auto
  then show ?case
    using Cons.hyps(1) Cons.prems(1) [of x y] Cons.prems(2) [of x y] Cons.hyps(2)
    by (cases "update_first P f xs"; cases "update_first Q g ys") auto
qed simp

lemma find_update_first:
  "find P xs = Some x \<Longrightarrow> \<exists>ys. update_first P f xs = Some ys"
  by (induction xs) (auto split: if_splits)

lemma map_update_first:
  "update_first P f xs = Some ys \<Longrightarrow> (\<And>x. P x \<Longrightarrow> k (f x) = k x) \<Longrightarrow> map k ys = map k xs"
  by (induction xs arbitrary: ys) (auto split: if_splits)

lemma derive_requests_snoc: "derive_requests_from (es @ [e]) = derive_request_step e (derive_requests_from es)"
  by (simp add: derive_requests_from_def)

lemma host_record_written:
  assumes "event_count (ha_db (host_record X ev h)) = Suc (event_count (ha_db h))"
  shows "\<exists>s. appended X ev (ha_db h) s (ha_db (host_record X ev h))"
proof (cases "append_event X ev (ha_db h)")
  case (Pair r db)
  show ?thesis
  proof (cases r)
    case (Inl e)
    with Pair same_but_faults_fields [OF append_event_Inl] have "db_events db = db_events (ha_db h)" by blast
    with assms Pair Inl show ?thesis
      by (simp add: host_record_def push_audit_failure_def event_count_def)
  next
    case (Inr s)
    with Pair append_event_Inr show ?thesis by (fastforce simp: host_record_def)
  qed
qed

lemma host_record_read:
  assumes "event_count (ha_db (host_record X ev h)) = Suc (event_count (ha_db h))"
    and "all_events X (ha_db h) = Inr es" "text_roundtrips X" "printable (ev_detail ev)"
  obtains s where "se_event s = ev" "all_events X (ha_db (host_record X ev h)) = Inr (es @ [s])"
proof -
  obtain s where s: "appended X ev (ha_db h) s (ha_db (host_record X ev h))"
    using host_record_written [OF assms(1)] by blast
  from all_events_append [OF assms(2) s] assms(3,4) appended_events(4) [OF s] that
  show thesis by (simp add: text_roundtrips_def)
qed

lemma ask_detail_printable: "printable (ask_detail v)"
  unfolding ask_detail_def by (intro printable_obj) auto

lemma decision_detail_printable: "printable (decision_detail v w)"
  unfolding decision_detail_def by (intro printable_obj) auto

lemma ask_detail_members [codec_simps]:
  "text_member (ask_detail v) ''id'' = Some (rv_id v)"
  "text_member (ask_detail v) ''action'' = Some (rv_action v)"
  "text_member (ask_detail v) ''sandbox'' = rv_sandbox v"
  by (auto simp: text_member_def ask_detail_def codec_simps opt_str_def split: option.split)

lemma decision_detail_members [codec_simps]:
  "text_member (decision_detail v w) ''id'' = Some (rv_id v)"
  "text_member (decision_detail v w) ''decided_by'' = Some w"
  by (simp_all add: text_member_def decision_detail_def codec_simps)

lemma asked_agrees:
  assumes "logged X h" "text_roundtrips X"
    and "request_sandbox X requester action sandbox defn reason now stamp h = (v, h')" "written h h'"
  shows "logged X h'"
proof -
  let ?q = "rh_queue h"
  let ?n = "Suc (sq_seq ?q)"
  obtain es where es: "all_events X (ha_db (rh_audit h)) = Inr es"
    "list_all2 same_request (sq_requests ?q) (derive_requests_from es)" and num: "numbered ?q"
    using assms(1) by (auto simp: logged_def)
  let ?r = "\<lparr>rq_id = request_id (sq_pid ?q) ?n, rq_requester = requester, rq_action = action,
    rq_sandbox = sandbox, rq_definition = defn, rq_reason = reason, rq_requested_at_ms = now,
    rq_status = Pending, rq_decided_by = None, rq_decided_at_ms = None\<rparr>"
  let ?ev = "with_agent (audit_event_new stamp ''host'' ASK (ask_detail (request_view_of ?r))) requester"
  have h': "rh_queue h' = ?q\<lparr>sq_seq := ?n, sq_requests := sq_requests ?q @ [?r]\<rparr>"
    "rh_audit h' = host_record X ?ev (rh_audit h)"
    using assms(3) by (auto simp: request_sandbox_def service_request_def enqueue_def Let_def emit_m_action_def)
  obtain s where s: "se_event s = ?ev" "all_events X (ha_db (rh_audit h')) = Inr (es @ [s])"
    using host_record_read [of X ?ev "rh_audit h" es] assms(2,4) es(1) ask_detail_printable
    by (auto simp: written_def h'(2) with_agent_def audit_event_new_def)
  have ids: "map rc_id (derive_requests_from es) = map rq_id (sq_requests ?q)"
    using es(2) by (auto simp: list_all2_conv_all_nth same_request_def intro!: nth_equalityI)
  have "rc_id ` set (derive_requests_from es) = request_id (sq_pid ?q) ` {1 ..< ?n}"
    using num unfolding numbered_def ids [symmetric]
    by (metis set_map set_upt)
  then have "rq_id ?r \<notin> rc_id ` set (derive_requests_from es)"
    by (auto dest!: request_id_inj)
  then have "\<not> list_ex (\<lambda>r. rc_id r = rq_id ?r) (derive_requests_from es)" by (auto simp: list_ex_iff image_iff)
  then have "derive_requests_from (es @ [s]) = derive_requests_from es @ [asked_record s (rq_id ?r) action]"
    by (simp add: derive_requests_snoc derive_request_step_def Let_def s(1) with_agent_def audit_event_new_def
        codec_simps request_view_of_def)
  moreover have "same_request ?r (asked_record s (rq_id ?r) action)"
    by (simp add: same_request_def asked_record_def s(1) with_agent_def audit_event_new_def codec_simps request_view_of_def)
  ultimately have "list_all2 same_request (sq_requests (rh_queue h')) (derive_requests_from (es @ [s]))"
    using es(2) by (simp add: h'(1) list_all2_appendI)
  moreover have "numbered (rh_queue h')" using num by (simp add: numbered_def h'(1))
  ultimately show ?thesis using s(2) by (auto simp: logged_def)
qed

text \<open>Approving and rejecting differ in three words.\<close>

lemma decided_agrees:
  assumes "logged X h" "text_roundtrips X"
    and "decide_sandbox_request X decision act event word now stamp sent_at i by_whom h = (r, h')"
    and "decision = Approved \<and> act = APPROVE \<or> decision = Rejected \<and> act = REJECT"
    and "\<forall>v. r = Inr v \<longrightarrow> written h h'"
  shows "logged X h'"
proof -
  let ?q = "rh_queue h"
  obtain es where es: "all_events X (ha_db (rh_audit h)) = Inr es"
    "list_all2 same_request (sq_requests ?q) (derive_requests_from es)" and num: "numbered ?q"
    using assms(1) by (auto simp: logged_def)
  let ?P = "\<lambda>r. rq_id r = i" and ?Q = "\<lambda>c. rc_id c = i"
  consider (refused) e where "decide_request i decision by_whom now ?q = (Inl e, ?q)"
    | (taken) old where "find ?P (sq_requests ?q) = Some old" "rq_status old = Pending"
    by (cases "find ?P (sq_requests ?q)") (fastforce simp: decide_request_def)+
  then show ?thesis
  proof cases
    case refused
    with assms(3) have "rh_queue h' = ?q" "rh_audit h' = rh_audit h"
      by (auto simp: decide_sandbox_request_def service_decide_def)
    with assms(1) show ?thesis by (simp add: logged_def)
  next
    case taken
    let ?new = "old\<lparr>rq_status := decision, rq_decided_by := Some by_whom, rq_decided_at_ms := Some now\<rparr>"
    obtain rs where rs: "update_first ?P (\<lambda>_. ?new) (sq_requests ?q) = Some rs"
      using find_update_first [OF taken(1)] by blast
    have old: "rq_id old = i" using find_Some_in [OF taken(1)] by simp
    let ?ev = "with_agent (audit_event_new stamp ''host'' act (decision_detail (request_view_of ?new) by_whom)) by_whom"
    have h': "rh_queue h' = ?q\<lparr>sq_requests := rs\<rparr>" "rh_audit h' = host_record X ?ev (rh_audit h)"
      "r = Inr (request_view_of ?new)"
      using assms(3) taken rs
      by (auto simp: decide_sandbox_request_def service_decide_def decide_request_def Let_def emit_m_action_def
          tell_asker_def split: if_splits)
    have "written h h'" using assms(5) h'(3) by blast
    then obtain s where s: "se_event s = ?ev" "all_events X (ha_db (rh_audit h')) = Inr (es @ [s])"
      using host_record_read [of X ?ev "rh_audit h" es] assms(2) es(1) decision_detail_printable
      by (auto simp: written_def h'(2) with_agent_def audit_event_new_def)
    have step: "derive_requests_from (es @ [s]) =
        (case update_first ?Q (decided_record s) (derive_requests_from es) of
           None \<Rightarrow> derive_requests_from es | Some out \<Rightarrow> out)"
      using assms(4) old
      by (auto simp: derive_requests_snoc derive_request_step_def Let_def s(1) with_agent_def audit_event_new_def
          codec_simps request_view_of_def ASK_def APPROVE_def REJECT_def)
    have "rel_option (list_all2 same_request) (update_first ?P (\<lambda>_. ?new) (sq_requests ?q))
        (update_first ?Q (decided_record s) (derive_requests_from es))"
    proof (rule list_all2_update_first_in [OF es(2)])
      fix x y assume "same_request x y" "x \<in> set (sq_requests ?q)"
      then show "?P x \<longleftrightarrow> ?Q y" by (simp add: same_request_def)
      assume "?P x" "find ?P (sq_requests ?q) = Some x"
      with taken have "x = old" by simp
      with \<open>same_request x y\<close> taken(2) show "same_request ?new (decided_record s y)"
        using assms(4)
        by (auto simp: same_request_def decided_record_def s(1) with_agent_def audit_event_new_def codec_simps
            APPROVE_def REJECT_def)
    qed
    with rs have "list_all2 same_request (sq_requests (rh_queue h')) (derive_requests_from (es @ [s]))"
      unfolding step h'(1) by (auto split: option.split)
    moreover have "map rq_id rs = map rq_id (sq_requests ?q)"
      using map_update_first [OF rs, of rq_id] old by simp
    then have "numbered (rh_queue h')" using num by (simp add: numbered_def h'(1))
    ultimately show ?thesis using s(2) by (auto simp: logged_def)
  qed
qed

lemma serves_logged: "serves X h h' \<Longrightarrow> text_roundtrips X \<Longrightarrow> logged X h \<Longrightarrow> logged X h'"
  by (erule servesE)
    (auto intro: asked_agrees decided_agrees simp: approve_sandbox_request_def reject_sandbox_request_def)

lemma served_logged: "(serves X)\<^sup>*\<^sup>* h h' \<Longrightarrow> text_roundtrips X \<Longrightarrow> logged X h \<Longrightarrow> logged X h'"
  by (induction rule: rtranclp_induct) (auto intro: serves_logged)

lemma restore_loop_pending:
  assumes "distinct (map rc_id cs)" "set (map rc_id cs) \<inter> set (map rq_id rs) = {}"
  shows "restore_loop cs rs (n, fs) =
    ((n + length (filter (\<lambda>c. rc_status c = Pending) cs), fs),
     rs @ map restored_request (filter (\<lambda>c. rc_status c = Pending) cs))"
  using assms
proof (induction cs arbitrary: rs n)
  case (Cons c cs)
  have "\<not> list_ex (\<lambda>r. rq_id r = rc_id c) rs" using Cons.prems(2) by (auto simp: list_ex_iff image_iff)
  moreover have "set (map rc_id cs) \<inter> set (map rq_id (rs @ [restored_request c])) = {}"
    using Cons.prems by (auto simp: restored_request_def)
  ultimately show ?case using Cons by auto
qed simp

text \<open>What a restart brings back of a queue: the waiting requests, without definition and reason.\<close>

definition restarted :: "sandbox_request list \<Rightarrow> (string \<times> string \<times> sandbox_action \<times> string option) list" where
  "restarted rs = map (\<lambda>r. (rq_id r, rq_requester r, rq_action r, rq_sandbox r))
     (filter (\<lambda>r. rq_status r = Pending) rs)"

lemma restart_of_agreeing:
  assumes "list_all2 same_request rs cs" "distinct (map rq_id rs)"
  shows "restarted (sq_requests (snd (restore_requests cs (new_requests current pid)))) = restarted rs"
    and "snd (fst (restore_requests cs (new_requests current pid))) = []"
proof -
  have "map rc_id cs = map rq_id rs"
    using assms(1) by (auto simp: list_all2_conv_all_nth same_request_def intro!: nth_equalityI)
  then have l: "restore_loop cs [] (0, []) =
      ((length (filter (\<lambda>c. rc_status c = Pending) cs), []),
       map restored_request (filter (\<lambda>c. rc_status c = Pending) cs))"
    using restore_loop_pending [of cs "[]" 0 "[]"] assms(2) by simp
  have "restarted (map restored_request (filter (\<lambda>c. rc_status c = Pending) cs)) = restarted rs"
    using assms(1) by (induction rule: list_all2_induct) (auto simp: restarted_def restored_request_def same_request_def)
  with l show "restarted (sq_requests (snd (restore_requests cs (new_requests current pid)))) = restarted rs"
    and "snd (fst (restore_requests cs (new_requests current pid))) = []"
    by (simp_all add: restore_requests_def new_requests_def)
qed

lemma numbered_distinct: "numbered q \<Longrightarrow> distinct (map rq_id (sq_requests q))"
  unfolding numbered_def by (simp add: distinct_map inj_on_def request_id_inj)

end
