(* ===== verification/Host_Standing.thy ===== *)
theory Host_Standing
  imports Host_Segments
begin

text \<open>
  What the ticker does to the rows of the segments table: the segment of a node that has stood down is
  never touched again.
\<close>

definition rows_of :: "string \<Rightarrow> host_audit \<Rightarrow> segment_row list" where
  "rows_of sid h = filter (\<lambda>r. sr_id r = sid) (db_segments (ha_db h))"

text \<open>A segment with a row, and a machine that will not close it.\<close>

definition left_behind :: "string \<Rightarrow> segment_row list \<Rightarrow> stand_in \<Rightarrow> bool" where
  "left_behind sid rows w \<longleftrightarrow>
     rows_of sid (si_audit w) = rows \<and> rows \<noteq> [] \<and>
     (su_phase (si_machine w) = StandingIn \<longrightarrow> \<not> (case si_standing w of None \<Rightarrow> False | Some st \<Rightarrow> st_id st = sid))"

lemma record_host_event_rows [simp]: "rows_of sid (record_host_event X now action detail h) = rows_of sid h"
proof -
  let ?ev = "with_agent (audit_event_new now ''host'' action detail) (ha_agent_id h)"
  obtain r db where ap: "append_event X ?ev (ha_db h) = (r, db)" by force
  then have "db_segments db = db_segments (ha_db h)"
    by (cases r) (auto dest: append_event_Inl append_event_Inr same_but_faults_fields appended_events)
  with ap show ?thesis
    by (cases r) (simp_all add: rows_of_def record_host_event_def host_record_def push_audit_failure_def)
qed

lemma send_out_fields [simp]:
  "si_audit (send_out fs w) = si_audit w" "si_machine (send_out fs w) = si_machine w"
  "si_standing (send_out fs w) = si_standing w"
  by (simp_all add: send_out_def)

lemma deliver_segment_fields [simp]:
  "rows_of sid (si_audit (deliver_segment X stamp st closed_id now w)) = rows_of sid (si_audit w)"
  "si_machine (deliver_segment X stamp st closed_id now w) = si_machine w"
  "si_standing (deliver_segment X stamp st closed_id now w) = si_standing w"
  by (auto simp: deliver_segment_def Let_def split: option.split)

lemma set_segment_state_rows:
  assumes "set_segment_state s state at_ms db = (r, db')" "s \<noteq> sid"
  shows "filter (\<lambda>r. sr_id r = sid) (db_segments db') = filter (\<lambda>r. sr_id r = sid) (db_segments db)"
proof (cases r)
  case (Inl e)
  with assms take_fault_same [of db] show ?thesis
    by (cases "take_fault db") (auto simp: set_segment_state_def update_segment_def and_then_def split: sum.splits)
next
  case (Inr u)
  with assms(1) have "db_segments db' = map (\<lambda>r. if sr_id r = s
      then r\<lparr>sr_state := segment_state_as_str state, sr_closed_at_ms := at_ms\<rparr> else r) (db_segments db)"
    by (simp add: set_segment_state_def update_segment_Inr(3))
  moreover have "filter (\<lambda>r. sr_id r = sid) (map (\<lambda>r. if sr_id r = s
      then r\<lparr>sr_state := segment_state_as_str state, sr_closed_at_ms := at_ms\<rparr> else r) rs) =
      filter (\<lambda>r. sr_id r = sid) rs" for rs
    using assms(2) by (induction rs) auto
  ultimately show ?thesis by simp
qed

lemma close_segment_rows:
  assumes "close_segment X s now now' db = (r, db')" "s \<noteq> sid"
  shows "filter (\<lambda>r. sr_id r = sid) (db_segments db') = filter (\<lambda>r. sr_id r = sid) (db_segments db)"
proof -
  have app: "append_event X ev d = (q, d') \<Longrightarrow> db_segments d' = db_segments d" for ev d q d'
    by (cases q) (auto dest: append_event_Inl append_event_Inr same_but_faults_fields appended_events)
  from assms show ?thesis
    by (auto simp: close_segment_def and_then_def split: sum.splits option.splits prod.splits
        dest!: set_segment_state_rows [OF _ assms(2)] app)
qed

lemma close_standing_rows:
  assumes "st_id st \<noteq> sid"
  shows "rows_of sid (si_audit (close_standing_segment X ck now st w)) = rows_of sid (si_audit w)"
    and "si_machine (close_standing_segment X ck now st w) = si_machine w"
    and "si_standing (close_standing_segment X ck now st w) = si_standing w"
proof -
  obtain r db where cl: "close_segment X (st_id st) (ck 0) (ck 1) (ha_db (si_audit w)) = (r, db)" by force
  note close_segment_rows [OF cl assms]
  then have rows: "rows_of sid ((si_audit w)\<lparr>ha_db := db\<rparr>) = rows_of sid (si_audit w)" by (simp add: rows_of_def)
  show "rows_of sid (si_audit (close_standing_segment X ck now st w)) = rows_of sid (si_audit w)"
    and "si_machine (close_standing_segment X ck now st w) = si_machine w"
    and "si_standing (close_standing_segment X ck now st w) = si_standing w"
    using cl rows by (auto simp: close_standing_segment_def split: sum.splits option.splits)
qed

lemma opened_rows:
  assumes "open_segment_for X Temporary owner t t' db = (r, db')"
    and "filter (\<lambda>r. sr_id r = sid) (db_segments db) \<noteq> []"
  shows "filter (\<lambda>r. sr_id r = sid) (db_segments db') = filter (\<lambda>r. sr_id r = sid) (db_segments db)"
    and "r = Inr s \<Longrightarrow> seg_id s \<noteq> sid"
proof -
  have inside: "sid \<in> sr_id ` set (db_segments db)" using assms(2) by (auto simp: filter_empty_conv)
  have row: "sr_id (segment_to_row (opened_segment k i n d)) = i" for k i n d
    by (simp add: segment_to_row_def opened_segment_def)
  have inner: "open_segment_inner X Temporary (Some owner) t t' db = (r, db')"
    using assms(1) by (simp add: open_segment_for_def)
  have ok: "\<exists>i. free_segment_id X t (Some owner) db = Inr i \<and> s = opened_segment Temporary i t db \<and>
      db_segments db' = db_segments db @ [segment_to_row s]" if "r = Inr s" for s
    using inner [unfolded that] by (rule open_segment_inner_Inr) (auto dest: appended_events(7))
  show "r = Inr s \<Longrightarrow> seg_id s \<noteq> sid"
    using ok inside free_segment_id_fresh by (force simp: opened_segment_def)
  show "filter (\<lambda>r. sr_id r = sid) (db_segments db') = filter (\<lambda>r. sr_id r = sid) (db_segments db)"
  proof (cases r)
    case (Inr s)
    with ok obtain i where "free_segment_id X t (Some owner) db = Inr i" "s = opened_segment Temporary i t db"
      "db_segments db' = db_segments db @ [segment_to_row s]" by blast
    with inside free_segment_id_fresh row show ?thesis by fastforce
  next
    case (Inl e)
    from open_segment_inner_Inl(2) [OF inner [unfolded Inl]] inside free_segment_id_fresh row
    show ?thesis by fastforce
  qed
qed

lemma open_temporary_rows:
  assumes "open_temporary_segment X owner t t' db = (got, db')"
    and "filter (\<lambda>r. sr_id r = sid) (db_segments db) \<noteq> []"
  shows "filter (\<lambda>r. sr_id r = sid) (db_segments db') = filter (\<lambda>r. sr_id r = sid) (db_segments db)"
    and "got = Some (i, n) \<Longrightarrow> i \<noteq> sid"
proof -
  obtain r db1 where op: "open_segment_for X Temporary owner t t' db = (r, db1)" by force
  then have db1: "db' = db1" using assms(1)
    by (auto simp: open_temporary_segment_def split: sum.splits option.splits)
  from opened_rows(1) [OF op assms(2)] show
    "filter (\<lambda>r. sr_id r = sid) (db_segments db') = filter (\<lambda>r. sr_id r = sid) (db_segments db)"
    by (simp add: db1)
  show "got = Some (i, n) \<Longrightarrow> i \<noteq> sid"
    using assms(1) op opened_rows(2) [OF op assms(2)]
    by (auto simp: open_temporary_segment_def split: sum.splits option.splits)
qed

lemma declare_takeover_rows:
  assumes "declare_takeover X ck now w = (got, w')" "rows_of sid (si_audit w) \<noteq> []"
  shows "rows_of sid (si_audit w') = rows_of sid (si_audit w)" "si_machine w' = si_machine w"
    and "got = Some st \<Longrightarrow> st_id st \<noteq> sid"
proof -
  obtain opened db where op: "open_temporary_segment X (si_me w) (ck 0) (ck 1) (ha_db (si_audit w)) = (opened, db)"
    by force
  note r = open_temporary_rows [OF op, of sid]
  have me: "si_me (send_out fs w) = si_me w" for fs by (simp add: send_out_def)
  from r(1) assms(2) have rows: "rows_of sid ((si_audit w)\<lparr>ha_db := db\<rparr>) = rows_of sid (si_audit w)"
    by (simp add: rows_of_def)
  have new: "opened = Some (i, n) \<Longrightarrow> i \<noteq> sid" for i n
    by (rule r(2)) (use assms(2) in \<open>simp_all add: rows_of_def\<close>)
  have "rows_of sid (si_audit w') = rows_of sid (si_audit w) \<and> si_machine w' = si_machine w \<and>
    (\<forall>st. got = Some st \<longrightarrow> st_id st \<noteq> sid)"
  proof (cases opened)
    case None
    with assms(1) op show ?thesis by (auto simp: declare_takeover_def Let_def me rows)
  next
    case (Some p)
    then obtain i n where i: "opened = Some (i, n)" by (cases p) simp
    have "fst (declare_takeover X ck now w) = Some \<lparr>st_id = i, st_opened_id = n\<rparr>"
      "rows_of sid (si_audit (snd (declare_takeover X ck now w))) = rows_of sid (si_audit w)"
      "si_machine (snd (declare_takeover X ck now w)) = si_machine w"
      using op by (simp_all add: declare_takeover_def Let_def me i rows)
    with assms(1) new [OF i] show ?thesis by simp
  qed
  then show "rows_of sid (si_audit w') = rows_of sid (si_audit w)" "si_machine w' = si_machine w"
    and "got = Some st \<Longrightarrow> st_id st \<noteq> sid" by blast+
qed

lemma not_standing_machines:
  "su_phase (snd (sup_observe b now s)) = StandingIn \<Longrightarrow> su_phase s = StandingIn"
  "su_phase (snd (sup_confirm t c now f s)) = StandingIn \<Longrightarrow> su_phase s = StandingIn"
  by (auto simp: sup_observe_def sup_confirm_def Let_def split: if_splits suppression_phase.splits option.splits)

lemma left_behind_step:
  assumes "left_behind sid rows w" "rows_of sid (si_audit w') = rows_of sid (si_audit w)"
    "si_standing w' = si_standing w" "su_phase (si_machine w') = StandingIn \<Longrightarrow> su_phase (si_machine w) = StandingIn"
  shows "left_behind sid rows w'"
  using assms by (auto simp: left_behind_def)

lemma left_behind_react:
  assumes "left_behind sid rows w"
  shows "left_behind sid rows (snd (react_to_centre X ck reachable now w))"
proof -
  define w1 where "w1 = (if reachable \<and> su_phase (si_machine w) = StandingIn then
      (case si_standing w of None \<Rightarrow> w
       | Some standing \<Rightarrow> close_standing_segment X ck now standing (w\<lparr>si_standing := None\<rparr>)) else w)"
  define w2 where "w2 = w1\<lparr>si_machine := snd (sup_observe reachable now (si_machine w1))\<rparr>"
  define w3 where "w3 = (if su_phase (si_machine w2) = Confirming then
      w2\<lparr>si_machine := snd (sup_confirm (si_witnesses w2) (si_centre w2) now
        (List.member (si_peers_reachable w2)) (si_machine w2))\<rparr> else w2)"
  have "left_behind sid rows w1"
  proof (cases "reachable \<and> su_phase (si_machine w) = StandingIn \<and> si_standing w \<noteq> None")
    case True
    then obtain st where st: "si_standing w = Some st" by blast
    with True assms have "st_id st \<noteq> sid" by (auto simp: left_behind_def)
    from close_standing_rows [OF this, of X ck now "w\<lparr>si_standing := None\<rparr>"] True st assms
    show ?thesis by (simp add: w1_def left_behind_def)
  next
    case False
    with assms show ?thesis by (auto simp: w1_def)
  qed
  then have "left_behind sid rows w2" by (rule left_behind_step) (auto simp: w2_def dest: not_standing_machines)
  then have w3: "left_behind sid rows w3" by (rule left_behind_step) (auto simp: w3_def dest: not_standing_machines split: if_splits)
  have "react_to_centre X ck reachable now w = (if is_first_in_line (si_me w3) (si_peers w3) then
      (case maybe_stand_in now (si_machine w3) of
         (True, m) \<Rightarrow> (case declare_takeover X (\<lambda>i. ck (i + 4)) now (w3\<lparr>si_machine := m\<rparr>) of
            (standing, w) \<Rightarrow> (True, w\<lparr>si_standing := standing\<rparr>))
       | (False, m) \<Rightarrow> (False, w3\<lparr>si_machine := m\<rparr>))
     else (False, w3))"
    unfolding react_to_centre_def Let_def w3_def w2_def w1_def by (rule refl)
  moreover obtain yes m where m: "maybe_stand_in now (si_machine w3) = (yes, m)" by force
  moreover obtain got w' where d: "declare_takeover X (\<lambda>i. ck (i + 4)) now (w3\<lparr>si_machine := m\<rparr>) = (got, w')" by force
  moreover have "left_behind sid rows (w3\<lparr>si_machine := m\<rparr>)" if "\<not> yes"
    using m w3 that by (auto simp: maybe_stand_in_def split: if_splits)
  moreover have "left_behind sid rows (w'\<lparr>si_standing := got\<rparr>)"
  proof -
    have "rows_of sid (si_audit (w3\<lparr>si_machine := m\<rparr>)) \<noteq> []" using w3 by (simp add: left_behind_def)
    note r = declare_takeover_rows [OF d this]
    from r w3 show ?thesis by (auto simp: left_behind_def split: option.splits)
  qed
  ultimately show ?thesis using w3 by (cases yes) auto
qed

lemma left_behind_hear: "left_behind sid rows w \<Longrightarrow> left_behind sid rows (hear_takeover X stamp heard w)"
  by (rule left_behind_step)
    (cases "su_phase (si_machine w) = StandingIn"; simp add: hear_takeover_def sup_stand_down_def Let_def)+

lemma left_behind_turn: "left_behind sid rows w \<Longrightarrow> left_behind sid rows (ticker_turn X ck heard reachable now w)"
  by (simp add: ticker_turn_def Let_def left_behind_hear left_behind_react split: option.split)

text \<open>The ticker's loop.\<close>

record turn =
  tn_clock :: "nat \<Rightarrow> int"
  tn_heard :: "int option"
  tn_reachable :: "bool option"
  tn_now :: int

fun ticker_turns :: "externs \<Rightarrow> turn list \<Rightarrow> stand_in \<Rightarrow> stand_in" where
  "ticker_turns X [] w = w"
| "ticker_turns X (t # ts) w =
     ticker_turns X ts (ticker_turn X (tn_clock t) (tn_heard t) (tn_reachable t) (tn_now t) w)"

lemma left_behind_turns: "left_behind sid rows w \<Longrightarrow> left_behind sid rows (ticker_turns X ts w)"
  by (induction ts arbitrary: w) (auto intro: left_behind_turn)

end
