(* ===== verification/Host_Guarantees.thy ===== *)
theory Host_Guarantees
  imports Host_Queue Host_Standing Host_Samples
begin

text \<open>
  Properties of the host over many operations: the request queue against the chain, the failure
  queue's announcements, the runs of an earlier process, and the segment of a node that stood down.
\<close>

section \<open>Requests\<close>

text \<open>A process that has just started: an empty queue over a log without requests.\<close>

definition starts_empty :: "externs \<Rightarrow> request_host \<Rightarrow> bool" where
  "starts_empty X h \<longleftrightarrow>
     sq_requests (rh_queue h) = [] \<and> sq_seq (rh_queue h) = 0 \<and>
     map_sum (\<lambda>_. ()) derive_requests_from (all_events X (ha_db (rh_audit h))) = Inr []"

lemma starts_logged: "starts_empty X h \<Longrightarrow> logged X h"
  by (cases "all_events X (ha_db (rh_audit h))") 
    (auto simp: starts_empty_def logged_def numbered_def)


text \<open>A later process on the same log.\<close>

definition reborn :: "nat \<Rightarrow> request_host \<Rightarrow> request_host" where
  "reborn pid h = h\<lparr>rh_queue := new_requests None pid\<rparr>"

lemma logged_restart:
  assumes "logged X h"
  shows "restarted (sq_requests (rh_queue (restore_pending_requests X stamp (reborn pid h)))) =
    restarted (sq_requests (rh_queue h))"
proof -
  obtain es where es: "all_events X (ha_db (rh_audit h)) = Inr es"
    "list_all2 same_request (sq_requests (rh_queue h)) (derive_requests_from es)" "numbered (rh_queue h)"
    using assms by (auto simp: logged_def)
  have "rh_queue (restore_pending_requests X stamp (reborn pid h)) =
      snd (restore_requests (derive_requests_from es) (new_requests None pid))"
    using es(1) by (auto simp: restore_pending_requests_def reborn_def Let_def split: prod.split)
  with restart_of_agreeing(1) [OF es(2) numbered_distinct [OF es(3)]] show ?thesis by simp
qed


text \<open>
  Deleting a waiting request writes nothing on the chain, so the restart brings it back: the queue
  of the next process again holds the request that was taken away, as pending.
\<close>

theorem deleted_request_returns:
  assumes "(serves X)\<^sup>*\<^sup>* h0 h" "starts_empty X h0" "text_roundtrips X"
    and "delete_sandbox_request i h = (Inr v, h1)" "rv_status v = ''pending''"
  shows "i \<in> (fst ` set (restarted (sq_requests (rh_queue (restore_pending_requests X stamp (reborn pid h1))))))"
proof -
  have l: "logged X h" by (rule served_logged [OF assms(1,3) starts_logged [OF assms(2)]])
  obtain r q where r: "find (\<lambda>r. rq_id r = i) (sq_requests (rh_queue h)) = Some r" "v = request_view_of r"
    "h1 = h\<lparr>rh_queue := q\<rparr>"
    using assms(4) by (auto simp: delete_sandbox_request_def remove_request_def split: option.splits prod.splits)
  have "rq_status r = Pending"
    using assms(5) r(2) by (cases "rq_status r") (simp_all add: request_view_of_def)
  with find_Some_in [OF r(1)] have "i \<in> fst ` set (restarted (sq_requests (rh_queue h)))"
    by (force simp: restarted_def)
  moreover have "reborn pid h1 = reborn pid h" using r(3) by (simp add: reborn_def)
  ultimately show ?thesis using logged_restart [OF l, of stamp pid] by simp
qed

section \<open>Standing down\<close>

text \<open>
  C30. A stand-in that hears another node's takeover forgets the segment it opened: whatever it hears
  and sees afterwards, and even if it stands in again and the centre comes back, the row of that
  segment stays as it was, open.
\<close>

theorem stood_down_segment_stays_open:
  assumes "si_standing w = Some st" "rows_of (st_id st) (si_audit w) = rows" "rows \<noteq> []"
  shows "rows_of (st_id st) (si_audit (ticker_turns X ts (hear_takeover X stamp heard w))) = rows"
proof -
  have "left_behind (st_id st) rows (hear_takeover X stamp heard w)"
    using assms(2,3) by (auto simp: left_behind_def hear_takeover_def sup_stand_down_def Let_def)
  from left_behind_turns [OF this] show ?thesis by (simp add: left_behind_def)
qed

section \<open>Failed writes\<close>

lemma announced_while_room:
  assumes "ha_emitted h = length (ha_failures h)" "length (ha_failures h) \<le> AUDIT_FAILURE_QUEUE_CAP"
  shows "failure_frames (concat (map (\<lambda>m. [PushFailure m, EmitFailures]) ms)) h =
    map (\<lambda>m. (EV_AUDIT_FAILED, audit_failed_payload m))
      (take (AUDIT_FAILURE_QUEUE_CAP - length (ha_failures h)) ms)"
  using assms
proof (induction ms arbitrary: h)
  case (Cons m ms)
  let ?h = "push_audit_failure m h"
  let ?h' = "snd (emit_audit_failures ?h)"
  show ?case
  proof (cases "length (ha_failures h) = AUDIT_FAILURE_QUEUE_CAP")
    case True
    with Cons.prems show ?thesis
      using full_queue_silent [of h "concat (map (\<lambda>m. [PushFailure m, EmitFailures]) (m # ms))"] by simp
  next
    case False
    with Cons.prems have room: "length (ha_failures h) < AUDIT_FAILURE_QUEUE_CAP" by simp
    have fr: "fst (emit_audit_failures ?h) = [(EV_AUDIT_FAILED, audit_failed_payload m)]"
      by (rule push_announced [OF Cons.prems(1) room])
    have h': "ha_emitted ?h' = length (ha_failures ?h')" "length (ha_failures ?h') = Suc (length (ha_failures h))"
      using room by (simp_all add: emit_audit_failures_def push_audit_failure_def push_capped_def Let_def)
    have "AUDIT_FAILURE_QUEUE_CAP - length (ha_failures h) =
        Suc (AUDIT_FAILURE_QUEUE_CAP - length (ha_failures ?h'))" using room h'(2) by simp
    with Cons.IH [OF h'(1)] h'(2) room fr show ?thesis by simp
  qed
qed simp

text \<open>
  However many writes fail, each announced right after, only the first thirty-two are announced:
  once the queue is full its cursor stands at its length, and every later failure is silent.
\<close>

theorem only_the_first_failures_are_announced:
  "failure_frames (concat (map (\<lambda>m. [PushFailure m, EmitFailures]) ms))
     (h\<lparr>ha_failures := [], ha_emitted := 0\<rparr>) =
   map (\<lambda>m. (EV_AUDIT_FAILED, audit_failed_payload m)) (take 32 ms)"
  using announced_while_room [of "h\<lparr>ha_failures := [], ha_emitted := 0\<rparr>" ms]
  by (simp add: AUDIT_FAILURE_QUEUE_CAP_def)

section \<open>Runs of an earlier process\<close>

lemma rebuild_keeps_events: "db_events (snd (rebuild_run_index X db)) = db_events db"
  using take_fault_same [of db]
  by (cases "take_fault db"; auto simp: rebuild_run_index_def and_then_def split: sum.splits option.splits)

text \<open>
  Abandoning marks what an earlier process left open and nothing else: the ids it answers are ids
  of runs that were open before this process began, the runs read from the chain afterwards are the
  runs as they were with exactly those marked abandoned.
\<close>

theorem stale_runs_are_abandoned:
  assumes "text_roundtrips X" "\<forall>k. is_i64 (fst (clock k))"
    and "all_events X (ha_db h) = Inr es"
    and "abandon_stale_runs X clock h = (Inr abandoned, h')"
  shows "set abandoned \<subseteq> rr_run_id ` set (filter (stale_run (ha_startup_seq h)) (fst (derive_runs_from es))) \<and>
    map_sum id fst (derive_runs X (ha_db h')) = Inr (mark_abandoned (set abandoned) (fst (derive_runs_from es)))"
proof -
  let ?rows = "fst (derive_fold es)"
  obtain ids h1 where l: "abandon_loop X clock ?rows [] h = (ids, h1)" by force
  obtain report where "derive_runs_from es = (?rows, report)"
    by (metis derive_runs_from_rows prod.collapse)
  then have d: "audit_to_other (derive_runs X (ha_db h)) = Inr (?rows, report)"
    using assms(3) by (simp add: derive_runs_def audit_to_other_def)
  have ab: "abandoned = ids" "db_events (ha_db h') = db_events (ha_db h1)"
    using assms(4) l d rebuild_keeps_events [of X "ha_db h1"]
    by (auto simp: abandon_stale_runs_def split: if_splits)
  have "\<exists>new es'. ids = [] @ new \<and> all_events X (ha_db h1) = Inr es' \<and>
      set new \<subseteq> rr_run_id ` {r \<in> set ?rows. stale_run (ha_startup_seq h) r} \<and>
      fst (derive_fold es') = mark_abandoned (set new) ?rows"
    using assms(2) by (intro abandon_loop_effect [OF assms(1) _ l assms(3)])
      (auto simp: open_among_def stale_run_def)
  then obtain es' where e: "all_events X (ha_db h1) = Inr es'"
      "set ids \<subseteq> rr_run_id ` {r \<in> set ?rows. stale_run (ha_startup_seq h) r}"
      "fst (derive_fold es') = mark_abandoned (set ids) ?rows" by auto
  have "all_events X (ha_db h') = Inr es'" using e(1) ab(2) by (simp add: all_events_def scan_def)
  with e(2,3) ab(1) show ?thesis by (simp add: derive_runs_def Collect_conj_eq Int_commute)
qed

section \<open>Applied\<close>

text \<open>Two asks, the first approved, on a log with one unrelated row.\<close>

definition host_zero :: request_host where
  "host_zero = \<lparr>rh_audit = sample_host_audit (sample_log [sample_act ''a'']), rh_queue = new_requests None 1,
     rh_server_role = False, rh_sent = [], rh_frames = []\<rparr>"

definition host_one :: request_host where
  "host_one = snd (request_sandbox brief_externs ''n'' Switch (Some ''s'') None None 5 6 host_zero)"

definition host_two :: request_host where
  "host_two = snd (request_sandbox brief_externs ''m'' Define None None None 7 8 host_one)"

definition host_three :: request_host where
  "host_three = snd (approve_sandbox_request brief_externs 9 10 11 ''req-1-1'' ''c'' host_two)"

lemma pair_of_snd: "p = (fst p, snd p)"
  by simp

lemma host_three_served: "(serves brief_externs)\<^sup>*\<^sup>* host_zero host_three"
proof -
  have w: "written host_zero host_one" "written host_one host_two" "written host_two host_three"
    by code_simp+
  have "serves brief_externs host_zero host_one" "serves brief_externs host_one host_two"
    using w(1,2) serves.asked [OF pair_of_snd [of "request_sandbox _ _ _ _ _ _ _ _ _"]]
    by (simp_all only: host_one_def host_two_def)
  moreover have "serves brief_externs host_two host_three"
    using w(3) serves.approved [OF pair_of_snd [of "approve_sandbox_request _ _ _ _ _ _ _"]]
    by (simp only: host_three_def) blast
  ultimately show ?thesis by (meson rtranclp.rtrancl_refl rtranclp.rtrancl_into_rtrancl)
qed

lemma host_zero_starts: "starts_empty brief_externs host_zero"
  by code_simp



theorem deleted_request_returns_witness:
  "''req-1-2'' \<in> fst ` set (restarted (sq_requests (rh_queue
     (restore_pending_requests brief_externs 12
       (reborn 1 (snd (delete_sandbox_request ''req-1-2'' host_three)))))))"
proof -
  have "case fst (delete_sandbox_request ''req-1-2'' host_three) of
      Inl _ \<Rightarrow> False | Inr v \<Rightarrow> rv_status v = ''pending''" by code_simp
  then obtain v where "fst (delete_sandbox_request ''req-1-2'' host_three) = Inr v" "rv_status v = ''pending''"
    by (auto split: sum.splits)
  from deleted_request_returns [OF host_three_served host_zero_starts brief_text_roundtrips
      pair_of_fst [OF this(1)] this(2)] show ?thesis .
qed

definition sample_stand_in :: stand_in where
  "sample_stand_in =
     \<lparr>si_me = ''b'', si_centre = ''c'', si_peers = [''d''], si_client = True,
      si_audit = sample_host_audit ((sample_log [sample_act ''o''])\<lparr>db_segments := [segment_to_row
        \<lparr>seg_id = ''seg-b-1'', seg_kind = Temporary, seg_head_hash = None, seg_head_prev_chain = None,
         seg_head_prev_length = Some 0, seg_opened_at_ms = Some 4, seg_closed_at_ms = None,
         seg_state = Seg_Open, seg_note = None\<rparr>]\<rparr>),
      si_machine = (suppression_new ''b'' 0)\<lparr>su_phase := StandingIn\<rparr>,
      si_standing = Some \<lparr>st_id = ''seg-b-1'', st_opened_id = 1\<rparr>,
      si_witnesses = [], si_peers_reachable = [], si_sent = []\<rparr>"

theorem stood_down_segment_stays_open_witness:
  "map sr_state (rows_of ''seg-b-1'' (si_audit (ticker_turns brief_externs
     [\<lparr>tn_clock = \<lambda>_. 9, tn_heard = None, tn_reachable = Some True, tn_now = 9\<rparr>]
     (hear_takeover brief_externs 8 8 sample_stand_in)))) = [''open'']"
proof -
  let ?rows = "rows_of ''seg-b-1'' (si_audit sample_stand_in)"
  have "si_standing sample_stand_in = Some \<lparr>st_id = ''seg-b-1'', st_opened_id = 1\<rparr>"
    by (simp add: sample_stand_in_def)
  moreover have r: "map sr_state ?rows = [''open'']" by code_simp
  moreover have "rows_of (st_id \<lparr>st_id = ''seg-b-1'', st_opened_id = 1\<rparr>) (si_audit sample_stand_in) = ?rows" by simp
  moreover have "?rows \<noteq> []" using r by auto
  ultimately have "rows_of ''seg-b-1'' (si_audit (ticker_turns brief_externs
     [\<lparr>tn_clock = \<lambda>_. 9, tn_heard = None, tn_reachable = Some True, tn_now = 9\<rparr>]
     (hear_takeover brief_externs 8 8 sample_stand_in))) = ?rows"
    using stood_down_segment_stays_open [of sample_stand_in "\<lparr>st_id = ''seg-b-1'', st_opened_id = 1\<rparr>" ?rows
      brief_externs "[\<lparr>tn_clock = \<lambda>_. 9, tn_heard = None, tn_reachable = Some True, tn_now = 9\<rparr>]" 8 8] by simp
  with r show ?thesis by simp
qed

text \<open>A log with one run that was started and never ended.\<close>

definition stale_host :: host_audit where
  "stale_host = (sample_host_audit (sample_log [audit_event_new 3 ''host'' ACTION_RUN_START
     (run_start_detail brief_externs ''r1'' None None None (JStr ''f''))]))\<lparr>ha_startup_seq := 1\<rparr>"

theorem stale_runs_are_abandoned_witness:
  "\<exists>es. all_events brief_externs (ha_db stale_host) = Inr es \<and>
     map_sum id fst (derive_runs brief_externs
       (ha_db (snd (abandon_stale_runs brief_externs (\<lambda>_. (4, 5)) stale_host)))) =
     Inr (mark_abandoned {''r1''} (fst (derive_runs_from es)))"
proof -
  have "case all_events brief_externs (ha_db stale_host) of Inl _ \<Rightarrow> False | Inr _ \<Rightarrow> True" by code_simp
  then obtain es where es: "all_events brief_externs (ha_db stale_host) = Inr es" by (auto split: sum.splits)
  have a: "fst (abandon_stale_runs brief_externs (\<lambda>_. (4, 5)) stale_host) = Inr [''r1'']" by code_simp
  have "\<forall>k :: string. is_i64 (fst ((\<lambda>_. (4, 5)) k))" by (simp add: i64_bounds)
  from stale_runs_are_abandoned [OF brief_text_roundtrips this es pair_of_fst [OF a]] es show ?thesis by auto
qed

end
