(* ===== verification/File_Tree.thy ===== *)
theory File_Tree
  imports Paths "HOL-Library.Sublist"
begin

text \<open>
  A file system as a tree, with the calls of \<open>std::fs\<close> the host's archives are unpacked with. What
  stands at a path is one view of the tree, and every call is stated by what it does to that view.
  Links stand in a tree so that an export can meet them; the calls below do not follow one.
\<close>

section \<open>Trees and calls\<close>

datatype fnode = FFile string | FLink | FDir "(string \<times> fnode) list"

datatype standing_kind = Content string | Folder | Link

definition NO_SUCH_FILE :: string where "NO_SUCH_FILE = ''No such file or directory (os error 2)''"
definition FILE_EXISTS :: string where "FILE_EXISTS = ''File exists (os error 17)''"
definition NOT_A_DIRECTORY :: string where "NOT_A_DIRECTORY = ''Not a directory (os error 20)''"
definition IS_A_DIRECTORY :: string where "IS_A_DIRECTORY = ''Is a directory (os error 21)''"
definition LINK_MET :: string where "LINK_MET = ''a link''"

fun look :: "string list \<Rightarrow> fnode \<Rightarrow> fnode option" where
  "look [] n = Some n"
| "look (p # ps) (FDir es) = (case map_of es p of None \<Rightarrow> None | Some n \<Rightarrow> look ps n)"
| "look (p # ps) n = None"

fun kind_of :: "fnode \<Rightarrow> standing_kind" where
  "kind_of (FFile c) = Content c"
| "kind_of FLink = Link"
| "kind_of (FDir es) = Folder"

definition kind_at :: "string list \<Rightarrow> fnode \<Rightarrow> standing_kind option" where
  "kind_at p t = map_option kind_of (look p t)"

text \<open>\<open>create_dir_all\<close>.\<close>

fun create_dirs :: "string list \<Rightarrow> fnode \<Rightarrow> string + fnode" where
  "create_dirs [] (FDir es) = Inr (FDir es)"
| "create_dirs [] n = Inl FILE_EXISTS"
| "create_dirs (p # ps) (FDir es) =
     map_sum id (\<lambda>n. FDir (put p n es)) (create_dirs ps (case map_of es p of None \<Rightarrow> FDir [] | Some n \<Rightarrow> n))"
| "create_dirs (p # ps) n = Inl NOT_A_DIRECTORY"

text \<open>\<open>File::create\<close> and what is then written.\<close>

fun put_file :: "string list \<Rightarrow> string \<Rightarrow> fnode \<Rightarrow> string + fnode" where
  "put_file [] content n = Inl IS_A_DIRECTORY"
| "put_file [p] content (FDir es) =
     (case map_of es p of
        Some (FDir _) \<Rightarrow> Inl IS_A_DIRECTORY
      | Some FLink \<Rightarrow> Inl LINK_MET
      | _ \<Rightarrow> Inr (FDir (put p (FFile content) es)))"
| "put_file (p # q # ps) content (FDir es) =
     (case map_of es p of
        None \<Rightarrow> Inl NO_SUCH_FILE
      | Some n \<Rightarrow> map_sum id (\<lambda>n. FDir (put p n es)) (put_file (q # ps) content n))"
| "put_file (p # ps) content n = Inl NOT_A_DIRECTORY"

text \<open>\<open>remove_file\<close>, its refusal passed over.\<close>

fun unlink :: "string list \<Rightarrow> fnode \<Rightarrow> fnode" where
  "unlink [] n = n"
| "unlink [p] (FDir es) = (case map_of es p of Some (FDir _) \<Rightarrow> FDir es | _ \<Rightarrow> FDir (del p es))"
| "unlink (p # q # ps) (FDir es) =
     (case map_of es p of None \<Rightarrow> FDir es | Some n \<Rightarrow> FDir (put p (unlink (q # ps) n) es))"
| "unlink (p # ps) n = n"

text \<open>\<open>rename\<close> of a file.\<close>

definition rename_file :: "string list \<Rightarrow> string list \<Rightarrow> fnode \<Rightarrow> string + fnode" where
  "rename_file a b t =
     (case look a t of
        Some (FFile c) \<Rightarrow> map_sum id (unlink a) (put_file b c t)
      | _ \<Rightarrow> Inl NO_SUCH_FILE)"

section \<open>What stands where\<close>

lemma kind_at_simps [simp]:
  "kind_at [] t = Some (kind_of t)"
  "kind_at (p # ps) (FDir es) = (case map_of es p of None \<Rightarrow> None | Some n \<Rightarrow> kind_at ps n)"
  "kind_at (p # ps) (FFile c) = None" "kind_at (p # ps) FLink = None"
  by (simp_all add: kind_at_def split: option.split)

lemma kind_of_Folder: "kind_of t = Folder \<longleftrightarrow> (\<exists>es. t = FDir es)"
  by (cases t) auto

lemma below_no_folder: "kind_at p t \<noteq> Some Folder \<Longrightarrow> q \<noteq> [] \<Longrightarrow> kind_at (p @ q) t = None"
proof (induction p arbitrary: t)
  case Nil
  then show ?case by (cases t; cases q) auto
next
  case (Cons a p)
  then show ?case by (cases t) (auto split: option.splits)
qed

lemma above_something: "kind_at (p @ q) t \<noteq> None \<Longrightarrow> q \<noteq> [] \<Longrightarrow> kind_at p t = Some Folder"
  by (rule ccontr) (simp add: below_no_folder)

lemma create_dirs_kind:
  "create_dirs a t = Inr u \<Longrightarrow> kind_at p u = (if prefix p a then Some Folder else kind_at p t)"
proof (induction a t arbitrary: u p rule: create_dirs.induct)
  case (3 a as es)
  obtain n where n: "create_dirs as (case map_of es a of None \<Rightarrow> FDir [] | Some n \<Rightarrow> n) = Inr n" "u = FDir (put a n es)"
    using 3(2) by (auto simp: map_sum_def split: sum.splits)
  show ?case
  proof (cases p)
    case (Cons q qs)
    show ?thesis
    proof (cases "q = a")
      case True
      have "kind_at qs (FDir []) = (if qs = [] then Some Folder else None)" by (cases qs) auto
      moreover have "kind_at p t' = kind_at qs n" if "t' = FDir (put a n es)" for t'
        by (simp add: Cons True that)
      ultimately show ?thesis
        using 3(1) [OF n(1), of qs] by (cases "map_of es a"; cases qs) (simp_all add: n(2) Cons True)
    qed (simp add: Cons n(2))
  qed (simp add: n)
next
  case (1 es)
  then show ?case by (cases p) auto
qed simp_all

lemma create_dirs_met:
  "create_dirs a t = Inr u \<Longrightarrow> prefix p a \<Longrightarrow> kind_at p t = None \<or> kind_at p t = Some Folder"
proof (induction a t arbitrary: u p rule: create_dirs.induct)
  case (3 a as es)
  obtain n where n: "create_dirs as (case map_of es a of None \<Rightarrow> FDir [] | Some n \<Rightarrow> n) = Inr n"
    using 3(2) by (auto simp: map_sum_def split: sum.splits)
  show ?case
  proof (cases p)
    case (Cons q qs)
    then have "q = a" "prefix qs as" using 3(3) by auto
    then show ?thesis using 3(1) [OF n, of qs] by (cases "map_of es a") (simp_all add: Cons)
  qed simp
qed auto

lemma create_dirs_works:
  "(\<And>q. prefix q a \<Longrightarrow> kind_at q t = None \<or> kind_at q t = Some Folder) \<Longrightarrow> \<exists>u. create_dirs a t = Inr u"
proof (induction a arbitrary: t)
  case Nil
  then have "kind_at [] t = None \<or> kind_at [] t = Some Folder" by blast
  then show ?case by (cases t) auto
next
  case (Cons a as)
  have "kind_at [] t = None \<or> kind_at [] t = Some Folder" using Cons.prems [of "[]"] by simp
  then obtain es where t: "t = FDir es" by (cases t) auto
  have "\<exists>u. create_dirs as (case map_of es a of None \<Rightarrow> FDir [] | Some n \<Rightarrow> n) = Inr u"
  proof (rule Cons.IH)
    fix q assume "prefix q as"
    then have "kind_at (a # q) t = None \<or> kind_at (a # q) t = Some Folder" using Cons.prems [of "a # q"] by simp
    moreover have "kind_at q (FDir []) = None \<or> kind_at q (FDir []) = Some Folder" by (cases q) auto
    ultimately show "kind_at q (case map_of es a of None \<Rightarrow> FDir [] | Some n \<Rightarrow> n) = None \<or>
        kind_at q (case map_of es a of None \<Rightarrow> FDir [] | Some n \<Rightarrow> n) = Some Folder"
      by (auto simp: t split: option.splits)
  qed
  then show ?case using t by auto
qed

lemma put_file_kind:
  "put_file a c t = Inr u \<Longrightarrow> kind_at p u = (if p = a then Some (Content c) else kind_at p t)"
proof (induction a c t arbitrary: u p rule: put_file.induct)
  case (2 a c es)
  then have u: "u = FDir (put a (FFile c) es)" and old: "\<And>n. map_of es a = Some n \<Longrightarrow> \<exists>d. n = FFile d"
    by (auto split: option.splits fnode.splits)
  show ?case
  proof (cases p)
    case (Cons q qs)
    then show ?thesis using old by (cases qs) (auto simp: u split: option.splits)
  qed (simp add: u)
next
  case (3 a b as c es)
  then obtain n m where "map_of es a = Some n" "put_file (b # as) c n = Inr m" "u = FDir (put a m es)"
    by (auto simp: map_sum_def split: option.splits sum.splits)
  then show ?case using 3(1) [of n m] by (cases p) auto
qed simp_all

lemma put_file_works:
  "a \<noteq> [] \<Longrightarrow> kind_at (butlast a) t = Some Folder \<Longrightarrow> kind_at a t = None \<or> (\<exists>d. kind_at a t = Some (Content d)) \<Longrightarrow>
   \<exists>u. put_file a c t = Inr u"
proof (induction a c t rule: put_file.induct)
  case (2 p c es)
  then show ?case by (auto split: option.splits fnode.splits)
next
  case (3 p q ps c es)
  then show ?case by (auto split: option.splits)
qed (auto split: if_splits)

lemma put_file_fails: "kind_at a t = Some Folder \<Longrightarrow> \<exists>e. put_file a c t = Inl e"
proof (induction a c t rule: put_file.induct)
  case (2 p c es)
  then show ?case by (auto split: option.splits fnode.splits)
next
  case (3 p q ps c es)
  then show ?case by (cases "map_of es p") force+
qed auto

lemma unlink_kind:
  "kind_at p (unlink a t) = (if p = a \<and> a \<noteq> [] \<and> kind_at a t \<noteq> Some Folder then None else kind_at p t)"
proof (induction a t arbitrary: p rule: unlink.induct)
  case (2 a es)
  show ?case
  proof (cases p)
    case (Cons q qs)
    then show ?thesis by (cases qs) (auto split: option.splits fnode.splits)
  qed (auto split: option.splits fnode.splits)
next
  case (3 a b as es)
  then show ?case by (cases p) (auto split: option.splits)
qed (auto simp: split: if_splits)

lemma rename_file_kind:
  assumes "rename_file a b t = Inr u" and "a \<noteq> b"
  shows "\<exists>c. kind_at a t = Some (Content c) \<and>
    (\<forall>p. kind_at p u = (if p = b then Some (Content c) else if p = a then None else kind_at p t))"
proof -
  obtain c v where v: "look a t = Some (FFile c)" "put_file b c t = Inr v" "u = unlink a v"
    using assms(1) by (auto simp: rename_file_def map_sum_def split: option.splits fnode.splits sum.splits)
  have a: "kind_at a t = Some (Content c)" using v(1) by (simp add: kind_at_def)
  then have "kind_at a v = Some (Content c)" using put_file_kind [OF v(2), of a] assms(2) by simp
  moreover have "a \<noteq> []"
  proof
    assume "a = []"
    then have "t = FFile c" using v(1) by simp
    then show False using v(2) by (cases b) auto
  qed
  ultimately have "kind_at p u = (if p = b then Some (Content c) else if p = a then None else kind_at p t)" for p
    using put_file_kind [OF v(2), of p] assms(2) a
    by (auto simp: v(3) unlink_kind)
  then show ?thesis using a by blast
qed

end
