(* ===== verification/Host_Archive.thy ===== *)
theory Host_Archive
  imports File_Tree Host_Audit
begin

text \<open>
  A project leaves and enters as one archive (\<open>host-core/src/workspace_io.rs\<close>). The formats'
  readers and writers are outside: an archive is the list of entries they deliver, and what they
  make of its bytes is a parameter. The file system is a tree without links where one is unpacked.
\<close>

section \<open>Formats\<close>

definition HOST_STATE_DIR :: string where "HOST_STATE_DIR = ''.riscdom''"
definition MAX_ARCHIVE_ENTRIES :: nat where "MAX_ARCHIVE_ENTRIES = 100000"
definition MAX_UNPACKED_BYTES :: nat where "MAX_UNPACKED_BYTES = 512 * 1024 * 1024"

datatype archive_format = Zip | Tar | TarGz

definition format_of_content_type :: "string \<Rightarrow> archive_format option" where
  "format_of_content_type content_type =
     (let essence = map ascii_lower (trim (takeWhile (\<lambda>c. c \<noteq> CHR '';'') content_type))
      in if List.member [''application/zip'', ''application/x-zip-compressed''] essence then Some Zip
         else if List.member [''application/gzip'', ''application/x-gzip'', ''application/x-tar+gzip'',
             ''application/x-compressed-tar''] essence then Some TarGz
         else if List.member [''application/x-tar'', ''application/tar''] essence then Some Tar
         else None)"

definition format_of_magic :: "string \<Rightarrow> archive_format option" where
  "format_of_magic bytes =
     (if starts_with bytes ''PK'' then Some Zip
      else if starts_with bytes (byte_string [31, 139]) then Some TarGz
      else if 262 < length bytes \<and> take 5 (drop 257 bytes) = ''ustar'' then Some Tar
      else None)"

fun content_type_of :: "archive_format \<Rightarrow> string" where
  "content_type_of Zip = ''application/zip''"
| "content_type_of Tar = ''application/gzip''"
| "content_type_of TarGz = ''application/gzip''"

fun default_file_name :: "archive_format \<Rightarrow> string" where
  "default_file_name Zip = ''workspace.zip''"
| "default_file_name Tar = ''workspace.tar''"
| "default_file_name TarGz = ''workspace.tar.gz''"

section \<open>One entry\<close>

record unpack_report =
  up_files :: nat
  up_bytes :: nat

text \<open>Where a name of the archive leads, joined to the destination; its refusals.\<close>

definition safe_relative :: "string \<Rightarrow> string list \<Rightarrow> host_error + string list" where
  "safe_relative raw dest =
     (let normalised = forward_slashes raw
      in if list_ex (\<lambda>c. c = ParentDir \<or> c = RootDir) (components normalised) then
           Inl (Archive (''entry escapes the workspace: '' @ raw))
         else if normalised = [] then Inl (Archive ''entry has no name'')
         else if hd (path_parts normalised []) = HOST_STATE_DIR then
           Inl (Archive (''entry is the host'' @ byte_string [39] @ ''s own state, not project content: '' @ raw))
         else Inr (path_join dest normalised))"

definition ends_as_directory :: "string \<Rightarrow> bool" where
  "ends_as_directory raw \<longleftrightarrow>
     (let ps = path_parts (forward_slashes raw) [] in 1 < length ps \<and> List.member [[], ''.''] (last ps))"

text \<open>The temporary file beside a file: its extension, if it has one, and \<open>part\<close>.\<close>

definition part_name :: "string \<Rightarrow> string" where
  "part_name n = n @ (if extension \<lparr>p_rooted = False, p_names = [n]\<rparr> = None then ''..'' else ''.'') @ ''part''"

definition part_of :: "string list \<Rightarrow> string list" where
  "part_of out = butlast out @ [part_name (last out)]"

text \<open>
  \<open>data\<close> is what reading the entry gives, or the reader's error; \<open>slashed\<close> says that the name ends
  as a directory's, which the system refuses for a file.
\<close>

text \<open>Into the temporary file, then over the entry's own; on a failure the temporary file is removed.\<close>

definition write_through ::
  "string list \<Rightarrow> bool \<Rightarrow> string + string \<Rightarrow> fnode \<Rightarrow> (host_error + unit) \<times> fnode" where
  "write_through out slashed data t =
     (case put_file (part_of out) [] t of
        Inl e \<Rightarrow> (Inl (IoFailed e), t)
      | Inr t \<Rightarrow>
          (case bind_result data (\<lambda>content. put_file (part_of out) content t) of
             Inl e \<Rightarrow> (Inl (IoFailed e), unlink (part_of out) t)
           | Inr t \<Rightarrow>
               (case (if slashed then Inl NOT_A_DIRECTORY else rename_file (part_of out) out t) of
                  Inl e \<Rightarrow> (Inl (IoFailed e), unlink (part_of out) t)
                | Inr t \<Rightarrow> (Inr (), t))))"

definition write_entry ::
  "string list \<Rightarrow> bool \<Rightarrow> string + string \<Rightarrow> bool \<Rightarrow> fnode \<Rightarrow> (host_error + unit) \<times> fnode" where
  "write_entry out slashed data force t =
     (case create_dirs (butlast out) t of
        Inl e \<Rightarrow> (Inl (IoFailed e), t)
      | Inr t \<Rightarrow>
          if (if slashed then kind_at out t = Some Folder else kind_at out t \<noteq> None) \<and> \<not> force then
            (Inl (WorkspaceEntryExists (last out)), t)
          else write_through out slashed data t)"

definition check_unpacked :: "unpack_report \<Rightarrow> host_error + unit" where
  "check_unpacked r =
     (if MAX_UNPACKED_BYTES < up_bytes r then
        Inl (Archive (''the archive unpacks to more than '' @ show_nat MAX_UNPACKED_BYTES @ '' bytes''))
      else Inr ())"

text \<open>A file: written, counted with the size the archive claims, and the sum checked.\<close>

definition take_file ::
  "string list \<Rightarrow> string \<Rightarrow> nat \<Rightarrow> string + string \<Rightarrow> bool \<Rightarrow> unpack_report \<Rightarrow> fnode \<Rightarrow>
   (host_error + unpack_report) \<times> fnode" where
  "take_file dest name claimed data force r t =
     and_then (safe_relative name dest, t) (\<lambda>out t.
     and_then (write_entry out (ends_as_directory name) data force t) (\<lambda>_ t.
       let r = \<lparr>up_files = up_files r + 1, up_bytes = (up_bytes r + claimed) mod 2 ^ 64\<rparr>
       in and_then (check_unpacked r, t) (\<lambda>_ t. (Inr r, t))))"

definition take_directory ::
  "string list \<Rightarrow> string \<Rightarrow> unpack_report \<Rightarrow> fnode \<Rightarrow> (host_error + unpack_report) \<times> fnode" where
  "take_directory dest name r t =
     and_then (safe_relative name dest, t) (\<lambda>out t.
       case create_dirs out t of
         Inl e \<Rightarrow> (Inl (IoFailed e), t)
       | Inr t \<Rightarrow> (Inr r, t))"

section \<open>Unpacking\<close>

record zip_entry =
  ze_name :: string
  ze_is_dir :: bool
  ze_mode :: "nat option"
  ze_size :: nat
  ze_data :: "string + string"

definition is_link_mode :: "nat option \<Rightarrow> bool" where
  "is_link_mode mode = (case mode of None \<Rightarrow> False | Some m \<Rightarrow> m div 4096 mod 16 = 10)"

fun unpack_zip_from ::
  "string list \<Rightarrow> bool \<Rightarrow> nat \<Rightarrow> (string + zip_entry) list \<Rightarrow> unpack_report \<Rightarrow> fnode \<Rightarrow>
   (host_error + unpack_report) \<times> fnode" where
  "unpack_zip_from dest force i [] r t = (Inr r, t)"
| "unpack_zip_from dest force i (Inl e # es) r t =
     (Inl (Archive (''cannot read entry '' @ show_nat i @ '': '' @ e)), t)"
| "unpack_zip_from dest force i (Inr e # es) r t =
     and_then
       (if ze_is_dir e then take_directory dest (ze_name e) r t
        else if is_link_mode (ze_mode e) then
          (Inl (Archive (''entry is a link, which an import does not follow: '' @ ze_name e)), t)
        else take_file dest (ze_name e) (ze_size e) (ze_data e) force r t)
       (unpack_zip_from dest force (i + 1) es)"

definition unpack_zip ::
  "string + (string + zip_entry) list \<Rightarrow> string list \<Rightarrow> bool \<Rightarrow> fnode \<Rightarrow> (host_error + unpack_report) \<times> fnode" where
  "unpack_zip archive dest force t =
     (case archive of
        Inl e \<Rightarrow> (Inl (Archive (''not a readable zip: '' @ e)), t)
      | Inr es \<Rightarrow>
          if MAX_ARCHIVE_ENTRIES < length es then
            (Inl (Archive (''the archive has '' @ show_nat (length es) @ '' entries, more than the '' @
               show_nat MAX_ARCHIVE_ENTRIES @ '' this host accepts'')), t)
          else unpack_zip_from dest force 0 es \<lparr>up_files = 0, up_bytes = 0\<rparr> t)"

datatype entry_kind = Regular | Directory | Symlink | HardLink | OtherKind string

text \<open>A header whose size cannot be read counts as nothing.\<close>

record tar_entry =
  tar_kind :: entry_kind
  tar_name :: "string + string"
  tar_size :: nat
  tar_data :: "string + string"

definition take_tar_entry ::
  "string list \<Rightarrow> bool \<Rightarrow> tar_entry \<Rightarrow> unpack_report \<Rightarrow> fnode \<Rightarrow> (host_error + unpack_report) \<times> fnode" where
  "take_tar_entry dest force e r t =
     (case tar_kind e of
        Symlink \<Rightarrow> (Inl (Archive ''entry is a link, which an import does not follow''), t)
      | HardLink \<Rightarrow> (Inl (Archive ''entry is a link, which an import does not follow''), t)
      | OtherKind k \<Rightarrow> (Inl (Archive (''entry is not a file or a directory ('' @ k @ '')'')), t)
      | Regular \<Rightarrow>
          and_then (map_sum (\<lambda>w. Archive (''cannot read entry path: '' @ w)) id (tar_name e), t)
            (\<lambda>name t. take_file dest name (tar_size e) (tar_data e) force r t)
      | Directory \<Rightarrow>
          and_then (map_sum (\<lambda>w. Archive (''cannot read entry path: '' @ w)) id (tar_name e), t)
            (\<lambda>name t. take_directory dest name r t))"

fun unpack_tar_from ::
  "string list \<Rightarrow> bool \<Rightarrow> (string + tar_entry) list \<Rightarrow> unpack_report \<Rightarrow> fnode \<Rightarrow>
   (host_error + unpack_report) \<times> fnode" where
  "unpack_tar_from dest force [] r t = (Inr r, t)"
| "unpack_tar_from dest force (Inl e # es) r t = (Inl (Archive (''cannot read tar entry: '' @ e)), t)"
| "unpack_tar_from dest force (Inr e # es) r t =
     and_then (take_tar_entry dest force e r t) (unpack_tar_from dest force es)"

definition unpack_tar ::
  "string + (string + tar_entry) list \<Rightarrow> string list \<Rightarrow> bool \<Rightarrow> fnode \<Rightarrow> (host_error + unpack_report) \<times> fnode" where
  "unpack_tar archive dest force t =
     (case archive of
        Inl e \<Rightarrow> (Inl (Archive (''not a readable tar.gz: '' @ e)), t)
      | Inr es \<Rightarrow> unpack_tar_from dest force es \<lparr>up_files = 0, up_bytes = 0\<rparr> t)"

text \<open>The readers and writers of the formats.\<close>

record archive_crates =
  ax_unzip :: "string \<Rightarrow> string + (string + zip_entry) list"
  ax_untar :: "string \<Rightarrow> string + (string + tar_entry) list"
  ax_tar :: "tar_entry list \<Rightarrow> string"
  ax_untargz :: "string \<Rightarrow> string + (string + tar_entry) list"
  ax_gzip :: "string \<Rightarrow> string"

definition unpack_archive ::
  "archive_crates \<Rightarrow> string \<Rightarrow> string list \<Rightarrow> archive_format \<Rightarrow> bool \<Rightarrow> fnode \<Rightarrow>
   (host_error + unpack_report) \<times> fnode" where
  "unpack_archive A archive dest format force t =
     (case create_dirs dest t of
        Inl e \<Rightarrow> (Inl (IoFailed e), t)
      | Inr t \<Rightarrow>
          (case format of
             Zip \<Rightarrow> unpack_zip (ax_unzip A archive) dest force t
           | Tar \<Rightarrow> unpack_tar (ax_untar A archive) dest force t
           | TarGz \<Rightarrow> unpack_tar (ax_untargz A archive) dest force t))"

section \<open>Packing\<close>

lemma traverse_result_cong [fundef_cong]:
  "xs = ys \<Longrightarrow> (\<And>x. x \<in> set ys \<Longrightarrow> f x = g x) \<Longrightarrow> traverse_result f xs = traverse_result g ys"
  by (induction ys arbitrary: xs) auto

definition packed :: "entry_kind \<Rightarrow> string list \<Rightarrow> string \<Rightarrow> tar_entry" where
  "packed kind rel content =
     \<lparr>tar_kind = kind, tar_name = Inr (join_with ''/'' rel), tar_size = length content, tar_data = Inr content\<rparr>"

text \<open>\<open>denied\<close>: the system's refusal to read what stands at a path.\<close>

function pack_node :: "(string list \<Rightarrow> string option) \<Rightarrow> string list \<Rightarrow> fnode \<Rightarrow> host_error + tar_entry list" where
  "pack_node denied rel (FFile c) =
     (case denied rel of Some e \<Rightarrow> Inl (IoFailed e) | None \<Rightarrow> Inr [packed Regular rel c])"
| "pack_node denied rel FLink = Inr []"
| "pack_node denied rel (FDir es) =
     (case denied rel of
        Some e \<Rightarrow> Inl (IoFailed e)
      | None \<Rightarrow>
          bind_result (traverse_result (\<lambda>(n, c). pack_node denied (rel @ [n]) c) (sort_key fst es))
            (\<lambda>ls. Inr (packed Directory rel [] # concat ls)))"
  by pat_completeness auto
termination pack_node
  by (relation "measure (\<lambda>(_, _, n). size n)")
    (auto simp: less_Suc_eq_le dest!: size_list_estimation' [where f = "size_prod (\<lambda>_. 0) size" and y = "size _"])

definition add_dir :: "(string list \<Rightarrow> string option) \<Rightarrow> (string \<times> fnode) list \<Rightarrow> host_error + tar_entry list" where
  "add_dir denied es =
     map_sum id concat (traverse_result (\<lambda>(n, c). pack_node denied [n] c)
       (filter (\<lambda>e. fst e \<noteq> HOST_STATE_DIR) (sort_key fst es)))"

definition pack_workspace ::
  "archive_crates \<Rightarrow> (string list \<Rightarrow> string option) \<Rightarrow> string list \<Rightarrow> fnode \<Rightarrow> host_error + string" where
  "pack_workspace A denied dir t =
     map_sum id (\<lambda>es. ax_gzip A (ax_tar A es))
       (case look dir t of
          None \<Rightarrow> Inr []
        | Some (FDir es) \<Rightarrow>
            (case denied [] of Some e \<Rightarrow> Inl (IoFailed e) | None \<Rightarrow> add_dir denied es)
        | Some _ \<Rightarrow> Inl (IoFailed NOT_A_DIRECTORY))"

end
