(* ===== verification/Host_Containment.thy ===== *)
theory Host_Containment
  imports Host_Archive
begin

text \<open>
  What an import leaves alone. The interface is a predicate on paths an entry does not reach; it is
  provided by the paths outside the destination, by the host's own directory, and by the files an
  import without force finds.
\<close>

section \<open>The names in an archive\<close>

definition tar_names :: "(string + tar_entry) list \<Rightarrow> string list" where
  "tar_names es = concat (map (\<lambda>e. case e of Inl _ \<Rightarrow> [] | Inr e \<Rightarrow> (case tar_name e of Inl _ \<Rightarrow> [] | Inr n \<Rightarrow> [n])) es)"

definition archive_names :: "archive_crates \<Rightarrow> archive_format \<Rightarrow> string \<Rightarrow> string list" where
  "archive_names A format archive =
     (case format of
        Zip \<Rightarrow> (case ax_unzip A archive of Inl _ \<Rightarrow> []
          | Inr es \<Rightarrow> concat (map (\<lambda>e. case e of Inl _ \<Rightarrow> [] | Inr e \<Rightarrow> [ze_name e]) es))
      | Tar \<Rightarrow> (case ax_untar A archive of Inl _ \<Rightarrow> [] | Inr es \<Rightarrow> tar_names es)
      | TarGz \<Rightarrow> (case ax_untargz A archive of Inl _ \<Rightarrow> [] | Inr es \<Rightarrow> tar_names es))"

section \<open>The names of an entry\<close>

text \<open>The names below the destination that an admitted name leads down.\<close>

definition relative_names :: "string \<Rightarrow> host_error + string list" where
  "relative_names raw = map_sum id (\<lambda>_. names_in (components (forward_slashes raw))) (safe_relative raw [])"

lemma resolve_parts_down:
  "''..'' \<notin> set ps \<Longrightarrow> resolve_parts base ps = base @ names_in (concat (map component_of ps))"
  by (induction ps arbitrary: base) (auto simp: names_in_def component_of_def)

lemma path_join_down:
  assumes "\<not> list_ex (\<lambda>c. c = ParentDir \<or> c = RootDir) (components s)"
  shows "path_join base s = base @ names_in (components s)"
proof -
  have "\<not> starts_with s ''/''" "''..'' \<notin> set (path_parts s [])"
    using assms by (force simp: components_def component_of_def list_ex_iff split: if_splits)+
  then show ?thesis by (auto simp: path_join_def resolve_parts_down components_def names_in_def component_of_def)
qed

lemma safe_relative_names: "safe_relative raw dest = map_sum id (\<lambda>rel. dest @ rel) (relative_names raw)"
  by (simp add: relative_names_def safe_relative_def path_join_down Let_def)

lemma relative_names_unfold:
  "relative_names raw =
     (let normalised = forward_slashes raw
      in if list_ex (\<lambda>c. c = ParentDir \<or> c = RootDir) (components normalised) then
           Inl (Archive (''entry escapes the workspace: '' @ raw))
         else if normalised = [] then Inl (Archive ''entry has no name'')
         else if hd (path_parts normalised []) = HOST_STATE_DIR then
           Inl (Archive (''entry is the host'' @ byte_string [39] @ ''s own state, not project content: '' @ raw))
         else Inr (names_in (components normalised)))"
  by (simp add: relative_names_def safe_relative_def Let_def)

lemma take_file_names:
  "take_file dest name claimed data force r t =
     and_then (relative_names name, t) (\<lambda>rel t.
     and_then (write_entry (dest @ rel) (ends_as_directory name) data force t) (\<lambda>_ t.
       let r = \<lparr>up_files = up_files r + 1, up_bytes = (up_bytes r + claimed) mod 2 ^ 64\<rparr>
       in and_then (check_unpacked r, t) (\<lambda>_ t. (Inr r, t))))"
  by (cases "relative_names name") (simp_all add: take_file_def safe_relative_names)

lemma take_directory_names:
  "take_directory dest name r t =
     and_then (relative_names name, t) (\<lambda>rel t.
       case create_dirs (dest @ rel) t of
         Inl e \<Rightarrow> (Inl (IoFailed e), t)
       | Inr t \<Rightarrow> (Inr r, t))"
  by (cases "relative_names name") (simp_all add: take_directory_def safe_relative_names)

section \<open>The interface\<close>

text \<open>
  \<open>kept dest force t u\<close>: from the tree \<open>t\<close> to \<open>u\<close>, what the client relies on is kept; \<open>admits\<close>
  says which names of entries the provider speaks of.
\<close>

locale import_relation =
  fixes kept :: "string list \<Rightarrow> bool \<Rightarrow> fnode \<Rightarrow> fnode \<Rightarrow> bool"
    and admits :: "string \<Rightarrow> bool"
  assumes kept_refl: "kept dest force t t"
    and kept_trans: "kept dest force t u \<Longrightarrow> kept dest force u v \<Longrightarrow> kept dest force t v"
    and kept_directory:
      "relative_names name = Inr rel \<Longrightarrow> admits name \<Longrightarrow> create_dirs (dest @ rel) t = Inr u \<Longrightarrow> kept dest force t u"
    and kept_file:
      "relative_names name = Inr rel \<Longrightarrow> admits name \<Longrightarrow>
       kept dest force t (snd (write_entry (dest @ rel) (ends_as_directory name) data force t))"
begin

lemma take_directory_kept: "admits name \<Longrightarrow> kept dest force t (snd (take_directory dest name r t))"
  by (cases "relative_names name") (auto simp: take_directory_names kept_refl intro: kept_directory split: sum.split)

lemma take_file_kept: "admits name \<Longrightarrow> kept dest force t (snd (take_file dest name claimed data force r t))"
proof -
  assume a: "admits name"
  show ?thesis
  proof (cases "relative_names name")
    case (Inr rel)
    obtain got u where w: "write_entry (dest @ rel) (ends_as_directory name) data force t = (got, u)" by fastforce
    have "kept dest force t u" using kept_file [OF Inr a, of dest force t data] by (simp add: w)
    then show ?thesis
      by (cases got) (auto simp: take_file_names Inr w Let_def check_unpacked_def)
  qed (simp add: take_file_names kept_refl)
qed

lemma take_tar_entry_kept:
  "(\<And>name. tar_name e = Inr name \<Longrightarrow> admits name) \<Longrightarrow> kept dest force t (snd (take_tar_entry dest force e r t))"
  by (cases "tar_name e"; cases "tar_kind e")
    (auto simp: take_tar_entry_def kept_refl take_file_kept take_directory_kept)

lemma and_then_kept:
  "kept dest force t (snd p) \<Longrightarrow> (\<And>r u. kept dest force u (snd (f r u))) \<Longrightarrow> kept dest force t (snd (and_then p f))"
  by (cases p; cases "fst p") (auto intro: kept_trans)

lemma unpack_tar_kept:
  "(\<And>e name. Inr e \<in> set es \<Longrightarrow> tar_name e = Inr name \<Longrightarrow> admits name) \<Longrightarrow>
   kept dest force t (snd (unpack_tar_from dest force es r t))"
proof (induction dest force es r t rule: unpack_tar_from.induct)
  case (3 dest force e es r t)
  have "kept dest force t (snd (take_tar_entry dest force e r t))"
    by (rule take_tar_entry_kept) (use 3(2) in auto)
  then show ?case unfolding unpack_tar_from.simps by (rule and_then_kept) (use 3 in auto)
qed (simp_all add: kept_refl)

lemma unpack_zip_kept:
  "(\<And>e. Inr e \<in> set es \<Longrightarrow> admits (ze_name e)) \<Longrightarrow> kept dest force t (snd (unpack_zip_from dest force i es r t))"
proof (induction dest force i es r t rule: unpack_zip_from.induct)
  case (3 dest force i e es r t)
  then show ?case
    unfolding unpack_zip_from.simps
    by (intro and_then_kept) (auto simp: kept_refl take_file_kept take_directory_kept)
qed (simp_all add: kept_refl)

lemma unpack_archive_kept:
  assumes "\<And>n. n \<in> set (archive_names A format archive) \<Longrightarrow> admits n"
    and "\<And>u. create_dirs dest t = Inr u \<Longrightarrow> kept dest force t u"
  shows "kept dest force t (snd (unpack_archive A archive dest format force t))"
proof (cases "create_dirs dest t")
  case (Inr u)
  have tar: "kept dest force u (snd (unpack_tar (Inr es) dest force u))"
    if "\<And>e name. Inr e \<in> set es \<Longrightarrow> tar_name e = Inr name \<Longrightarrow> admits name" for es
    using that by (simp add: unpack_tar_def unpack_tar_kept)
  have zip: "kept dest force u (snd (unpack_zip (Inr es) dest force u))"
    if "\<And>e. Inr e \<in> set es \<Longrightarrow> admits (ze_name e)" for es
    using that by (simp add: unpack_zip_def kept_refl unpack_zip_kept)
  have "kept dest force u (snd (unpack_archive A archive dest format force t))"
  proof (cases format)
    case Zip
    show ?thesis
    proof (cases "ax_unzip A archive")
      case (Inl e)
      then show ?thesis by (simp add: unpack_archive_def Inr Zip unpack_zip_def kept_refl)
    next
      case read: (Inr es)
      have "admits (ze_name e)" if "Inr e \<in> set es" for e
        by (rule assms(1)) (use that Zip read in \<open>force simp: archive_names_def\<close>)
      from zip [OF this] show ?thesis by (simp add: unpack_archive_def Inr Zip read)
    qed
  next
    case Tar
    show ?thesis
    proof (cases "ax_untar A archive")
      case (Inl e)
      then show ?thesis by (simp add: unpack_archive_def Inr Tar unpack_tar_def kept_refl)
    next
      case read: (Inr es)
      have "admits n" if "Inr e \<in> set es" "tar_name e = Inr n" for e n
        by (rule assms(1)) (use that Tar read in \<open>force simp: archive_names_def tar_names_def\<close>)
      from tar [OF this] show ?thesis by (simp add: unpack_archive_def Inr Tar read)
    qed
  next
    case TarGz
    show ?thesis
    proof (cases "ax_untargz A archive")
      case (Inl e)
      then show ?thesis by (simp add: unpack_archive_def Inr TarGz unpack_tar_def kept_refl)
    next
      case read: (Inr es)
      have "admits n" if "Inr e \<in> set es" "tar_name e = Inr n" for e n
        by (rule assms(1)) (use that TarGz read in \<open>force simp: archive_names_def tar_names_def\<close>)
      from tar [OF this] show ?thesis by (simp add: unpack_archive_def Inr TarGz read)
    qed
  qed
  then show ?thesis using assms(2) [OF Inr] kept_trans by blast
qed (simp add: unpack_archive_def kept_refl)

end

section \<open>One entry's effect\<close>

lemma relative_names_below:
  assumes "relative_names raw = Inr rel"
  shows "rel = names_in (below (forward_slashes raw)) \<and> list_all plain_name rel"
proof -
  have "RootDir \<notin> set (components (forward_slashes raw))"
    using assms by (auto simp: relative_names_unfold Let_def list_ex_iff split: if_splits)
  then have "components (forward_slashes raw) =
      (if hd (path_parts (forward_slashes raw) []) = ''.'' then [CurDir] else []) @ below (forward_slashes raw)"
    by (auto simp: components_def below_def)
  then have "names_in (components (forward_slashes raw)) = names_in (below (forward_slashes raw))"
    by (auto simp: names_in_def)
  moreover have "rel = names_in (components (forward_slashes raw))"
    using assms by (auto simp: relative_names_unfold Let_def split: if_splits)
  ultimately show ?thesis using names_below by (auto simp: list_all_iff)
qed

lemma part_name_longer: "part_name n \<noteq> n" "\<exists>s. s \<noteq> [] \<and> part_name n = n @ s"
  by (auto simp: part_name_def)

lemma part_of_other: "part_of out \<noteq> out" if "out \<noteq> []"
proof
  assume "part_of out = out"
  then have "last (part_of out) = last out" by simp
  then show False using part_name_longer(1) by (simp add: part_of_def)
qed

lemma write_through_kind:
  assumes out: "out \<noteq> []"
  shows "kind_at p (snd (write_through out slashed data t)) =
      (if p = part_of out then None else kind_at p t) \<or>
    write_through out slashed data t = (fst (write_through out slashed data t), t) \<or>
    p = out \<and> \<not> slashed"
proof (cases "put_file (part_of out) [] t")
  case (Inr t2)
  have k2: "kind_at p t2 = (if p = part_of out then Some (Content []) else kind_at p t)" for p
    by (rule put_file_kind [OF Inr])
  have gone: "kind_at p (unlink (part_of out) u) = (if p = part_of out then None else kind_at p t)"
    if "\<And>p. kind_at p u = (if p = part_of out then Some (Content c) else kind_at p t)" for u p c
    using that by (auto simp: unlink_kind part_of_def)
  show ?thesis
  proof (cases "bind_result data (\<lambda>content. put_file (part_of out) content t2)")
    case (Inl e)
    then show ?thesis using gone [OF k2] by (simp add: write_through_def Inr)
  next
    case t3: (Inr t3)
    then obtain c where "put_file (part_of out) c t2 = Inr t3"
      by (auto simp: bind_result_Inr_iff)
    from put_file_kind [OF this] k2
    have k3: "kind_at p t3 = (if p = part_of out then Some (Content c) else kind_at p t)" for p
      by simp
    show ?thesis
    proof (cases "if slashed then Inl NOT_A_DIRECTORY else rename_file (part_of out) out t3")
      case (Inl e)
      then show ?thesis using gone [OF k3] by (simp add: write_through_def Inr t3)
    next
      case t4: (Inr t4)
      then have plain: "\<not> slashed" and r: "rename_file (part_of out) out t3 = Inr t4"
        by (auto split: if_splits)
      have "kind_at p t4 = (if p = out then Some (Content c) else if p = part_of out then None else kind_at p t)" for p
        using rename_file_kind [OF r part_of_other [OF out]] k3 by auto
      then show ?thesis using plain t4 by (simp add: write_through_def Inr t3)
    qed
  qed
qed (simp add: write_through_def)

text \<open>What stands at a path after an entry was written, whatever became of it.\<close>

lemma write_entry_kind:
  assumes out: "out \<noteq> []" and u_def: "snd (write_entry out slashed data force t) = u"
  shows "kind_at p u = kind_at p t \<or> prefix p (butlast out) \<and> kind_at p t = None \<and> kind_at p u = Some Folder \<or>
    p = part_of out \<and> kind_at p u = None \<or> p = out \<and> (force \<or> kind_at out t = None)"
proof (cases "create_dirs (butlast out) t")
  case (Inr t1)
  have k1: "kind_at p t1 = (if prefix p (butlast out) then Some Folder else kind_at p t)" for p
    by (rule create_dirs_kind [OF Inr])
  note met = create_dirs_met [OF Inr, of p]
  have "\<not> prefix out (butlast out)"
    using out prefix_length_le [of out "butlast out"] by (cases out) auto
  then have same: "kind_at out t1 = kind_at out t" by (simp add: k1)
  show ?thesis
  proof (cases "(if slashed then kind_at out t1 = Some Folder else kind_at out t1 \<noteq> None) \<and> \<not> force")
    case True
    then have "u = t1" unfolding u_def [symmetric] write_entry_def by (simp add: Inr)
    then show ?thesis using k1 [of p] met by auto
  next
    case False
    then have u: "u = snd (write_through out slashed data t1)"
      unfolding u_def [symmetric] write_entry_def Inr by (simp only: sum.case if_False)
    from write_through_kind [OF out, of p slashed data t1]
    show ?thesis
    proof (elim disjE)
      assume "kind_at p (snd (write_through out slashed data t1)) = (if p = part_of out then None else kind_at p t1)"
      then show ?thesis using k1 [of p] met by (auto simp: u split: if_splits)
    next
      assume "write_through out slashed data t1 = (fst (write_through out slashed data t1), t1)"
      then have "u = t1" using u by (metis snd_conv)
      then show ?thesis using k1 [of p] met by auto
    next
      assume "p = out \<and> \<not> slashed"
      then show ?thesis using False same by auto
    qed
  qed
qed (simp add: u_def [symmetric] write_entry_def)

section \<open>Three providers\<close>

definition outside_kept :: "string list \<Rightarrow> bool \<Rightarrow> fnode \<Rightarrow> fnode \<Rightarrow> bool" where
  "outside_kept dest force t u \<longleftrightarrow>
     (dest \<noteq> [] \<longrightarrow>
      (\<forall>p. \<not> prefix dest p \<and> \<not> prefix p dest \<and> p \<noteq> part_of dest \<longrightarrow> kind_at p u = kind_at p t))"

lemma part_of_append: "rel \<noteq> [] \<Longrightarrow> part_of (dest @ rel) = dest @ part_of rel"
  by (simp add: part_of_def butlast_append)

lemma prefix_butlast_append: "prefix p (butlast (dest @ rel)) \<Longrightarrow> prefix p dest \<or> prefix dest p"
  by (metis prefix_order.trans prefixI prefix_same_cases prefixeq_butlast)

interpretation outside: import_relation outside_kept "\<lambda>_. True"
proof unfold_locales
  fix name rel and dest :: "string list" and force t u
  assume "create_dirs (dest @ rel) t = Inr u"
  then show "outside_kept dest force t u"
    using create_dirs_kind [of "dest @ rel" t u]
    by (auto simp: outside_kept_def) (metis prefix_same_cases prefixI)
next
  fix name rel dest force t data
  show "outside_kept dest force t (snd (write_entry (dest @ rel) (ends_as_directory name) data force t))"
    unfolding outside_kept_def
  proof (intro impI allI, elim conjE)
    fix p :: "string list"
    assume d: "dest \<noteq> []" and p: "\<not> prefix dest p" "\<not> prefix p dest" "p \<noteq> part_of dest"
    have "p \<noteq> part_of (dest @ rel)"
      using p by (cases "rel = []") (auto simp: part_of_append)
    moreover have "p \<noteq> dest @ rel" "\<not> prefix p (butlast (dest @ rel))"
      using p prefix_butlast_append by auto
    ultimately show "kind_at p (snd (write_entry (dest @ rel) (ends_as_directory name) data force t)) = kind_at p t"
      using write_entry_kind [of "dest @ rel" _ _ _ _ _ p] d by fastforce
  qed
qed (auto simp: outside_kept_def)

text \<open>The host's own directory, as long as no name begins with a dot's piece.\<close>

definition begins_plainly :: "string \<Rightarrow> bool" where
  "begins_plainly name \<longleftrightarrow> hd (path_parts (forward_slashes name) []) \<noteq> ''.''"

definition host_state_kept :: "string list \<Rightarrow> bool \<Rightarrow> fnode \<Rightarrow> fnode \<Rightarrow> bool" where
  "host_state_kept dest force t u \<longleftrightarrow>
     (\<forall>q. kind_at (dest @ HOST_STATE_DIR # q) u = kind_at (dest @ HOST_STATE_DIR # q) t)"

lemma path_parts_hd: "hd (path_parts s acc) = rev acc @ takeWhile (\<lambda>c. c \<noteq> CHR ''/'') s"
  by (induction s acc rule: path_parts.induct) auto

lemma safe_first:
  assumes "relative_names name = Inr rel" and "begins_plainly name"
  shows "rel \<noteq> [] \<and> hd rel \<noteq> HOST_STATE_DIR"
proof -
  let ?n = "forward_slashes name"
  obtain p ps where parts: "path_parts ?n [] = p # ps" by (cases "path_parts ?n []") auto
  have "RootDir \<notin> set (components ?n)" "ParentDir \<notin> set (components ?n)" "?n \<noteq> []" "p \<noteq> HOST_STATE_DIR"
    using assms(1) parts by (auto simp: relative_names_unfold Let_def list_ex_iff split: if_splits)
  moreover have "p \<noteq> ''.''" using assms(2) parts by (simp add: begins_plainly_def)
  moreover have "p \<noteq> []"
  proof
    assume "p = []"
    then have "starts_with ?n ''/''" using parts \<open>?n \<noteq> []\<close> path_parts_hd [of ?n "[]"]
      by (cases ?n) (auto simp: starts_with_def split: if_splits)
    then show False using \<open>RootDir \<notin> set (components ?n)\<close> components_root by blast
  qed
  moreover have "p \<noteq> ''..''"
  proof
    assume "p = ''..''"
    then have "ParentDir \<in> set (below ?n)" by (simp add: below_def parts component_of_def)
    then show False using \<open>ParentDir \<notin> set (components ?n)\<close> parent_below by blast
  qed
  ultimately have "hd (names_in (below ?n)) = p \<and> names_in (below ?n) \<noteq> []"
    by (simp add: below_def parts component_of_def names_in_def)
  then show ?thesis using relative_names_below [OF assms(1)] \<open>p \<noteq> HOST_STATE_DIR\<close> by simp
qed

interpretation host_state: import_relation host_state_kept begins_plainly
proof unfold_locales
  fix name rel and dest :: "string list" and force t u
  assume "relative_names name = Inr rel" "begins_plainly name" and u: "create_dirs (dest @ rel) t = Inr u"
  then have "rel \<noteq> []" "hd rel \<noteq> HOST_STATE_DIR" using safe_first by auto
  then have "\<not> prefix (dest @ HOST_STATE_DIR # q) (dest @ rel)" for q by (cases rel) auto
  then show "host_state_kept dest force t u"
    using create_dirs_kind [OF u] by (simp add: host_state_kept_def)
next
  fix name rel dest force t data
  assume "relative_names name = Inr rel" "begins_plainly name"
  then have r: "rel \<noteq> []" "hd rel \<noteq> HOST_STATE_DIR" using safe_first by auto
  have "kind_at (dest @ HOST_STATE_DIR # q) (snd (write_entry (dest @ rel) (ends_as_directory name) data force t)) =
      kind_at (dest @ HOST_STATE_DIR # q) t" for q
  proof -
    have "HOST_STATE_DIR \<noteq> part_name n" for n
    proof
      assume "HOST_STATE_DIR = part_name n"
      then have "last (part_name n) = last HOST_STATE_DIR" by simp
      then show False by (simp add: part_name_def HOST_STATE_DIR_def split: if_splits)
    qed
    then have "dest @ HOST_STATE_DIR # q \<noteq> part_of (dest @ rel)"
      using r by (cases rel) (auto simp: part_of_append, auto simp: part_of_def split: if_splits)
    moreover have "dest @ HOST_STATE_DIR # q \<noteq> dest @ rel" "\<not> prefix (dest @ HOST_STATE_DIR # q) (butlast (dest @ rel))"
      using r by (cases rel; auto simp: butlast_append)+
    ultimately show ?thesis
      using write_entry_kind [of "dest @ rel" _ _ _ _ _ "dest @ HOST_STATE_DIR # q"] r by fastforce
  qed
  then show "host_state_kept dest force t (snd (write_entry (dest @ rel) (ends_as_directory name) data force t))"
    by (simp add: host_state_kept_def)
qed (auto simp: host_state_kept_def)

text \<open>Without force, every file but one named as a temporary file is.\<close>

definition ends_with :: "string \<Rightarrow> string \<Rightarrow> bool" where
  "ends_with s tail \<longleftrightarrow> length tail \<le> length s \<and> drop (length s - length tail) s = tail"

definition files_held :: "string list \<Rightarrow> bool \<Rightarrow> fnode \<Rightarrow> fnode \<Rightarrow> bool" where
  "files_held dest force t u \<longleftrightarrow>
     (dest \<noteq> [] \<and> \<not> force \<longrightarrow>
      (\<forall>p c. kind_at p t = Some (Content c) \<and> \<not> ends_with (last p) ''.part'' \<longrightarrow> kind_at p u = Some (Content c)))"

interpretation held: import_relation files_held "\<lambda>_. True"
proof unfold_locales
  fix name rel and dest :: "string list" and force t u
  assume "create_dirs (dest @ rel) t = Inr u"
  then show "files_held dest force t u"
    using create_dirs_kind [of "dest @ rel" t u] create_dirs_met [of "dest @ rel" t u]
    by (fastforce simp: files_held_def)
next
  fix name rel dest force t data
  have "ends_with (last (part_of out)) ''.part''" for out
    by (simp add: part_of_def part_name_def ends_with_def)
  then show "files_held dest force t (snd (write_entry (dest @ rel) (ends_as_directory name) data force t))"
    unfolding files_held_def using write_entry_kind [of "dest @ rel" _ data force t]
    by (smt (verit) Nil_is_append_conv option.distinct(1))
qed (auto simp: files_held_def)

end
