(* ===== verification/Host_Roundtrip.thy ===== *)
theory Host_Roundtrip
  imports Host_Containment
begin

text \<open>What an exported project is when it is imported again: the proof walks the entries in their order.\<close>

section \<open>The entries of a tree\<close>

text \<open>A tree whose names survive the archive: no backslash, which an import reads as a separator.\<close>

fun portable :: "fnode \<Rightarrow> bool" where
  "portable (FFile c) = True"
| "portable FLink = True"
| "portable (FDir es) =
     (ordered es \<and> list_all (\<lambda>(n, c). plain_name n \<and> CHR 0x5C \<notin> set n \<and> portable c) es)"

fun entries_of :: "string list \<Rightarrow> fnode \<Rightarrow> (string list \<times> string option) list" where
  "entries_of rel (FFile c) = [(rel, Some c)]"
| "entries_of rel FLink = []"
| "entries_of rel (FDir es) = (rel, None) # concat (map (\<lambda>(n, c). entries_of (rel @ [n]) c) es)"

definition packed_entry :: "string list \<times> string option \<Rightarrow> tar_entry" where
  "packed_entry e = (case snd e of None \<Rightarrow> packed Directory (fst e) [] | Some c \<Rightarrow> packed Regular (fst e) c)"

definition entry_kind_of :: "string option \<Rightarrow> standing_kind" where
  "entry_kind_of k = (case k of None \<Rightarrow> Folder | Some c \<Rightarrow> Content c)"

lemma pack_node_entries: "portable n \<Longrightarrow> pack_node (\<lambda>_. None) rel n = Inr (map packed_entry (entries_of rel n))"
proof (induction rel n rule: entries_of.induct)
  case (3 rel es)
  have "traverse_result (\<lambda>(n, c). pack_node (\<lambda>_. None) (rel @ [n]) c) es =
      Inr (map (\<lambda>(n, c). map packed_entry (entries_of (rel @ [n]) c)) es)"
    by (rule traverse_result_all) (use 3 in \<open>auto simp: list_all_iff\<close>)
  moreover have "sort_key fst es = es" using 3(2) by (simp add: sort_key_ordered)
  moreover have "packed_entry (rel, None) = packed Directory rel []" by (simp add: packed_entry_def)
  ultimately show ?case
    by (simp add: map_concat comp_def case_prod_unfold)
qed (simp_all add: packed_entry_def)

lemma entries_prefix: "(p, k) \<in> set (entries_of rel n) \<Longrightarrow> \<exists>q. p = rel @ q"
  by (induction rel n rule: entries_of.induct) fastforce+

lemma entries_set:
  "portable n \<Longrightarrow> (rel @ q, k) \<in> set (entries_of rel n) \<longleftrightarrow> kind_at q n = Some (entry_kind_of k)"
proof (induction rel n arbitrary: q rule: entries_of.induct)
  case (1 rel c)
  then show ?case by (cases q; cases k) (auto simp: entry_kind_of_def)
next
  case (2 rel)
  then show ?case by (cases q; cases k) (auto simp: entry_kind_of_def)
next
  case (3 rel es)
  have no: "(rel, k) \<notin> set (entries_of (rel @ [n]) c)" for n c k
    using entries_prefix [of rel k "rel @ [n]" c] by auto
  show ?case
  proof (cases q)
    case Nil
    then show ?thesis using no by (cases k) (auto simp: entry_kind_of_def)
  next
    case (Cons m ms)
    have at: "(rel @ m # ms, k) \<in> set (entries_of (rel @ [n]) c) \<longleftrightarrow> n = m \<and> kind_at ms c = Some (entry_kind_of k)"
      if "(n, c) \<in> set es" for n c
      using 3(1) [OF that refl, of ms] 3(2) that entries_prefix [of "rel @ m # ms" k "rel @ [n]" c]
      by (auto simp: list_all_iff)
    have "distinct (map fst es)" using 3(2) ordered_distinct by auto
    then have lookup: "map_of es m = Some c \<longleftrightarrow> (m, c) \<in> set es" for c by simp
    have "(rel @ m # ms, k) \<in> set (entries_of rel (FDir es)) \<longleftrightarrow>
        (\<exists>c. (m, c) \<in> set es \<and> kind_at ms c = Some (entry_kind_of k))"
      using at by fastforce
    also have "\<dots> \<longleftrightarrow> kind_at (m # ms) (FDir es) = Some (entry_kind_of k)"
      by (auto simp: lookup [symmetric] split: option.split)
    finally show ?thesis by (simp add: Cons)
  qed
qed

lemma sorted_concat:
  "sorted_wrt R (map f xs) \<Longrightarrow> (\<And>x. x \<in> set xs \<Longrightarrow> sorted_wrt S (g x)) \<Longrightarrow>
   (\<And>x y a b. x \<in> set xs \<Longrightarrow> y \<in> set xs \<Longrightarrow> R (f x) (f y) \<Longrightarrow> a \<in> set (g x) \<Longrightarrow> b \<in> set (g y) \<Longrightarrow> S a b) \<Longrightarrow>
   sorted_wrt S (concat (map g xs))"
proof (induction xs)
  case (Cons x xs)
  have "sorted_wrt S (concat (map g xs))"
  proof (rule Cons.IH)
    fix u y a b
    assume "u \<in> set xs" "y \<in> set xs" "R (f u) (f y)" "a \<in> set (g u)" "b \<in> set (g y)"
    then show "S a b" using Cons.prems(3) [of u y a b] by simp
  qed (use Cons.prems(1,2) in simp_all)
  moreover have "S a b" if "a \<in> set (g x)" "y \<in> set xs" "b \<in> set (g y)" for a b y
    using Cons.prems(1) Cons.prems(3) [of x y a b] that by simp
  ultimately show ?case using Cons.prems(2) by (auto simp: sorted_wrt_append)
qed simp

lemma lex_append [simp]: "(xs @ ys < xs @ zs) = (ys < (zs :: 'a::linorder list))"
  by (induction xs) auto

lemma less_longer: "ys \<noteq> [] \<Longrightarrow> xs < xs @ (ys :: 'a::linorder list)"
  by (induction xs) (auto simp: neq_Nil_conv)

lemma entries_sorted: "portable n \<Longrightarrow> sorted_wrt (<) (map fst (entries_of rel n))"
proof (induction rel n rule: entries_of.induct)
  case (3 rel es)
  have "sorted_wrt (<) (concat (map (\<lambda>e. map fst (entries_of (rel @ [fst e]) (snd e))) es))"
  proof (rule sorted_concat [where f = fst and R = "(<)"])
    show "sorted_wrt (<) (map fst es)" using 3(2) by (simp add: ordered_def)
    show "sorted_wrt (<) (map fst (entries_of (rel @ [fst e]) (snd e)))" if "e \<in> set es" for e
      using 3(1) [OF that, of "fst e" "snd e"] 3(2) that by (auto simp: list_all_iff)
  next
    fix x y a b
    assume "fst x < fst y" "a \<in> set (map fst (entries_of (rel @ [fst x]) (snd x)))" "b \<in> set (map fst (entries_of (rel @ [fst y]) (snd y)))"
    then obtain p q where "a = rel @ fst x # p" "b = rel @ fst y # q"
      using entries_prefix by fastforce
    then show "a < b" using \<open>fst x < fst y\<close> by simp
  qed
  moreover have "rel < p" if "p \<in> fst ` set (entries_of (rel @ [n]) c)" for p n c
    using that entries_prefix [of p _ "rel @ [n]" c] by (fastforce simp: less_longer)
  ultimately show ?case
    by (auto simp: map_concat comp_def case_prod_unfold)
qed simp_all

section \<open>Names of the archive\<close>

text \<open>A path whose names the archive carries, none of them of the host's own directory.\<close>

definition portable_path :: "string list \<Rightarrow> bool" where
  "portable_path p \<longleftrightarrow> p \<noteq> [] \<and> list_all (\<lambda>n. plain_name n \<and> CHR 0x5C \<notin> set n) p \<and> hd p \<noteq> HOST_STATE_DIR"

lemma path_parts_plain: "CHR ''/'' \<notin> set n \<Longrightarrow> path_parts (n @ rest) acc = path_parts rest (rev n @ acc)"
  by (induction n arbitrary: acc) auto

lemma path_parts_joined:
  "list_all plain_name p \<Longrightarrow> p \<noteq> [] \<Longrightarrow> path_parts (join_with ''/'' p) [] = p"
proof (induction p rule: induct_list012)
  case (2 n)
  then show ?case using path_parts_plain [of n "[]" "[]"] by (simp add: plain_name_def)
next
  case (3 n m ns)
  then show ?case
    using path_parts_plain [of n "CHR ''/'' # join_with ''/'' (m # ns)" "[]"] by (simp add: plain_name_def)
qed simp

lemma join_no_backslash: "list_all (\<lambda>n. CHR 0x5C \<notin> set n) p \<Longrightarrow> CHR 0x5C \<notin> set (join_with ''/'' p)"
  by (induction p rule: induct_list012) auto

lemma relative_names_joined:
  assumes "portable_path p"
  shows "relative_names (join_with ''/'' p) = Inr p \<and> \<not> ends_as_directory (join_with ''/'' p)"
proof -
  let ?s = "join_with ''/'' p"
  have plain: "list_all plain_name p" and "CHR 0x5C \<notin> set ?s" and ne: "p \<noteq> []"
    using assms join_no_backslash [of p] by (auto simp: portable_path_def list_all_iff)
  then have s: "forward_slashes ?s = ?s"
    by (auto simp: forward_slashes_def intro: map_idI)
  have parts: "path_parts ?s [] = p" by (rule path_parts_joined [OF plain ne])
  have "hd p \<noteq> []" using plain ne by (cases p) (auto simp: plain_name_def)
  then have "\<not> starts_with ?s ''/''" and "?s \<noteq> []"
    using path_parts_hd [of ?s "[]"] parts by (cases ?s; auto simp: starts_with_def)+
  moreover have "concat (map component_of p) = map Normal p"
    using plain by (induction p) (auto simp: component_of_def plain_name_def)
  moreover have "hd p \<noteq> ''.''" using plain ne by (cases p) (auto simp: plain_name_def)
  ultimately have "components ?s = map Normal p"
    by (simp add: components_def parts)
  moreover have "names_in (map Normal p) = p" by (induction p) (auto simp: names_in_def)
  moreover have "last p \<noteq> [] \<and> last p \<noteq> ''.''"
    using plain ne by (simp add: list_all_iff plain_name_def)
  ultimately show ?thesis
    using assms \<open>?s \<noteq> []\<close>
    by (auto simp: relative_names_unfold ends_as_directory_def Let_def s parts portable_path_def list_ex_iff)
qed

section \<open>Walking the entries\<close>

definition below_kinds :: "string list \<Rightarrow> (string list \<times> string option) list \<Rightarrow> fnode \<Rightarrow> bool" where
  "below_kinds dest es t \<longleftrightarrow>
     kind_at dest t = Some Folder \<and>
     (\<forall>p. p \<noteq> [] \<longrightarrow> kind_at (dest @ p) t = map_option entry_kind_of (map_of es p))"

lemma rename_file_works:
  "kind_at a t = Some (Content c) \<Longrightarrow> put_file b c t = Inr u \<Longrightarrow> \<exists>v. rename_file a b t = Inr v"
  by (cases "look a t"; cases "the (look a t)") (auto simp: rename_file_def kind_at_def)

lemma prefix_dest_append:
  "prefix q (dest @ p) \<Longrightarrow> prefix q dest \<or> (\<exists>r. r \<noteq> [] \<and> q = dest @ r \<and> prefix r p)"
  by (metis append_Nil2 prefix_append prefix_order.refl)

text \<open>Everything above and at a path whose parents stand is a directory, or nothing yet.\<close>

lemma parents_stand:
  assumes t: "below_kinds dest es t" and par: "\<forall>q. strict_prefix q p \<and> q \<noteq> [] \<longrightarrow> map_of es q = Some None"
    and q: "prefix q (dest @ p)" and p: "p \<noteq> []"
  shows "q = dest @ p \<or> kind_at q t = Some Folder"
proof -
  have dest: "kind_at dest t = Some Folder" using t by (simp add: below_kinds_def)
  from prefix_dest_append [OF q] show ?thesis
  proof (elim disjE exE conjE)
    assume "prefix q dest"
    then obtain r where "dest = q @ r" by (auto simp: prefix_def)
    then show ?thesis using dest above_something [of q r t] by (cases "r = []") auto
  next
    fix r assume r: "r \<noteq> []" "q = dest @ r" "prefix r p"
    then show ?thesis
      using par t by (cases "r = p") (auto simp: below_kinds_def entry_kind_of_def strict_prefix_def)
  qed
qed

lemma take_directory_walk:
  assumes t: "below_kinds dest es t" and p: "portable_path p" and new: "map_of es p = None"
    and par: "\<forall>q. strict_prefix q p \<and> q \<noteq> [] \<longrightarrow> map_of es q = Some None"
  shows "\<exists>u. take_directory dest (join_with ''/'' p) r t = (Inr r, u) \<and> below_kinds dest (es @ [(p, None)]) u"
proof -
  have ne: "p \<noteq> []" using p by (simp add: portable_path_def)
  have "\<exists>u. create_dirs (dest @ p) t = Inr u"
  proof (rule create_dirs_works)
    fix q assume "prefix q (dest @ p)"
    then have "q = dest @ p \<or> kind_at q t = Some Folder" by (rule parents_stand [OF t par _ ne])
    then show "kind_at q t = None \<or> kind_at q t = Some Folder"
      using t new ne by (auto simp: below_kinds_def)
  qed
  then obtain u where u: "create_dirs (dest @ p) t = Inr u" by blast
  have "kind_at q u = (if q = dest @ p then Some Folder else kind_at q t)" for q
    using create_dirs_kind [OF u, of q] parents_stand [OF t par _ ne, of q] by auto
  then have "below_kinds dest (es @ [(p, None)]) u"
    using t new ne by (auto simp: below_kinds_def map_add_def entry_kind_of_def split: option.split)
  then show ?thesis
    using relative_names_joined [OF p] u by (auto simp: take_directory_names)
qed

lemma take_file_walk:
  assumes t: "below_kinds dest es t" and p: "portable_path p" and new: "map_of es p = None"
    and part: "map_of es (part_of p) = None"
    and par: "\<forall>q. strict_prefix q p \<and> q \<noteq> [] \<longrightarrow> map_of es q = Some None"
    and room: "up_bytes r + length c \<le> MAX_UNPACKED_BYTES"
  shows "\<exists>u. take_file dest (join_with ''/'' p) (length c) (Inr c) False r t =
      (Inr \<lparr>up_files = up_files r + 1, up_bytes = up_bytes r + length c\<rparr>, u) \<and>
    below_kinds dest (es @ [(p, Some c)]) u"
proof -
  have ne: "p \<noteq> []" using p by (simp add: portable_path_def)
  let ?out = "dest @ p"
  have partne: "part_of p \<noteq> []" by (simp add: part_of_def)
  have above: "kind_at q t = Some Folder" if "prefix q (butlast ?out)" for q
  proof -
    have "prefix q ?out" using that prefixeq_butlast prefix_order.trans by blast
    moreover have "q \<noteq> ?out" using that ne prefix_length_le [OF that] by (cases p) auto
    ultimately show ?thesis using parents_stand [OF t par _ ne] by blast
  qed
  then obtain t1 where t1: "create_dirs (butlast ?out) t = Inr t1"
    using create_dirs_works [of "butlast ?out" t] by blast
  have k1: "kind_at q t1 = kind_at q t" for q
    using create_dirs_kind [OF t1, of q] above by simp
  have outp: "part_of ?out = dest @ part_of p" by (rule part_of_append [OF ne])
  have b: "butlast (part_of ?out) = butlast ?out" by (simp add: part_of_def)
  have "kind_at (part_of ?out) t1 = None" using t part partne by (simp add: k1 outp below_kinds_def)
  then obtain t2 where t2: "put_file (part_of ?out) [] t1 = Inr t2"
    using put_file_works [of "part_of ?out" t1] above [of "butlast ?out"] b k1 by (auto simp: part_of_def)
  have k2: "kind_at q t2 = (if q = part_of ?out then Some (Content []) else kind_at q t)" for q
    using put_file_kind [OF t2, of q] k1 by simp
  have bo: "butlast ?out \<noteq> part_of ?out"
    by (metis b append_butlast_last_id append_self_conv list.distinct(1) outp append_is_Nil_conv partne)
  then obtain t3 where t3: "put_file (part_of ?out) c t2 = Inr t3"
    using put_file_works [of "part_of ?out" t2 c] above [of "butlast ?out"] b k2 by (auto simp: part_of_def)
  have k3: "kind_at q t3 = (if q = part_of ?out then Some (Content c) else kind_at q t)" for q
    using put_file_kind [OF t3, of q] k2 by simp
  have other: "part_of ?out \<noteq> ?out" by (rule part_of_other) (simp add: ne)
  have none: "kind_at ?out t = None" using t new ne by (simp add: below_kinds_def)
  then have "\<exists>v. put_file ?out c t3 = Inr v"
    using put_file_works [of ?out t3 c] k3 other bo above [of "butlast ?out"] ne by auto
  then obtain u where u: "rename_file (part_of ?out) ?out t3 = Inr u"
    using rename_file_works [of "part_of ?out" t3 c ?out] k3 by auto
  have k4: "kind_at q u = (if q = ?out then Some (Content c) else kind_at q t)" for q
    using rename_file_kind [OF u other] k3 t part partne by (auto simp: outp below_kinds_def)
  have "write_entry ?out False (Inr c) False t = (Inr (), u)"
    using t2 t3 u none k1 by (simp add: write_entry_def write_through_def t1)
  moreover have "below_kinds dest (es @ [(p, Some c)]) u"
    using t new ne k4 by (auto simp: below_kinds_def map_add_def entry_kind_of_def split: option.split)
  moreover have "(up_bytes r + length c) mod 2 ^ 64 = up_bytes r + length c"
    using room by (intro mod_less) (simp add: MAX_UNPACKED_BYTES_def)
  ultimately show ?thesis
    using relative_names_joined [OF p] room by (auto simp: take_file_names check_unpacked_def)
qed

definition entries_size :: "(string list \<times> string option) list \<Rightarrow> nat" where
  "entries_size es = sum_list (map (\<lambda>e. case snd e of None \<Rightarrow> 0 | Some c \<Rightarrow> length c) es)"

definition well_listed :: "(string list \<times> string option) list \<Rightarrow> bool" where
  "well_listed es \<longleftrightarrow>
     sorted_wrt (<) (map fst es) \<and>
     (\<forall>e \<in> set es. portable_path (fst e) \<and>
        (\<forall>q. strict_prefix q (fst e) \<and> q \<noteq> [] \<longrightarrow> (q, None) \<in> set es))"

lemma part_of_later: "p \<noteq> [] \<Longrightarrow> p < part_of p"
proof -
  assume "p \<noteq> []"
  then have "part_of p = butlast p @ [part_name (last p)]" "p = butlast p @ [last p]" by (simp_all add: part_of_def)
  moreover obtain s where "s \<noteq> []" "part_name (last p) = last p @ s"
    using part_name_longer(2) by blast
  then have "[last p] < [part_name (last p)]" by (simp add: less_longer)
  ultimately show "p < part_of p" by (metis lex_append)
qed

lemma strict_prefix_less: "strict_prefix q p \<Longrightarrow> q < (p :: 'a::linorder list)"
  by (metis append_Nil2 less_longer prefixE strict_prefix_def)

lemma well_listed_head:
  assumes w: "well_listed (es @ (p, k) # rest)"
  shows "map_of es p = None" "map_of es (part_of p) = None"
    "\<forall>q. strict_prefix q p \<and> q \<noteq> [] \<longrightarrow> map_of es q = Some None" "portable_path p"
proof -
  have before: "\<And>e. e \<in> set es \<Longrightarrow> fst e < p" and after: "\<And>e. e \<in> set rest \<Longrightarrow> p < fst e"
    and dist: "distinct (map fst es)"
    using w by (auto simp: well_listed_def sorted_wrt_append strict_sorted_iff)
  show "portable_path p" using w by (simp add: well_listed_def)
  then have "p < part_of p" by (intro part_of_later) (simp add: portable_path_def)
  then show "map_of es p = None" "map_of es (part_of p) = None"
    using before by (fastforce simp: map_of_eq_None_iff)+
  show "\<forall>q. strict_prefix q p \<and> q \<noteq> [] \<longrightarrow> map_of es q = Some None"
  proof (intro allI impI, elim conjE)
    fix q assume q: "strict_prefix q p" "q \<noteq> []"
    then have "(q, None) \<in> set (es @ (p, k) # rest)" using w by (simp add: well_listed_def)
    moreover have "q < p" by (rule strict_prefix_less [OF q(1)])
    ultimately have "(q, None) \<in> set es" using after by fastforce
    then show "map_of es q = Some None" using dist by simp
  qed
qed

lemma walk_entries:
  "well_listed (es @ rest) \<Longrightarrow> below_kinds dest es t \<Longrightarrow> up_bytes r + entries_size rest \<le> MAX_UNPACKED_BYTES \<Longrightarrow>
   \<exists>r' u. unpack_tar_from dest False (map (\<lambda>e. Inr (packed_entry e)) rest) r t = (Inr r', u) \<and>
     below_kinds dest (es @ rest) u"
proof (induction rest arbitrary: es r t)
  case (Cons e rest)
  obtain p k where e: "e = (p, k)" by force
  note h = well_listed_head [of es p k rest]
  have "\<exists>r' u. take_tar_entry dest False (packed_entry e) r t = (Inr r', u) \<and> below_kinds dest (es @ [e]) u \<and>
      up_bytes r' + entries_size rest \<le> MAX_UNPACKED_BYTES"
  proof (cases k)
    case None
    then show ?thesis
      using take_directory_walk [OF Cons.prems(2) h(4) h(1) h(3), of r] Cons.prems
      by (auto simp: e take_tar_entry_def packed_entry_def packed_def entries_size_def)
  next
    case (Some c)
    have "up_bytes r + length c \<le> MAX_UNPACKED_BYTES"
      using Cons.prems(3) by (simp add: e Some entries_size_def)
    from take_file_walk [OF Cons.prems(2) h(4) h(1) h(2) h(3) this] show ?thesis
      using Cons.prems by (auto simp: e Some take_tar_entry_def packed_entry_def packed_def entries_size_def)
  qed
  then obtain r' u where one: "take_tar_entry dest False (packed_entry e) r t = (Inr r', u)"
      "below_kinds dest (es @ [e]) u" "up_bytes r' + entries_size rest \<le> MAX_UNPACKED_BYTES" by blast
  then show ?case using Cons.IH [of "es @ [e]" u r'] Cons.prems(1) by simp
qed simp

section \<open>A workspace and its entries\<close>

definition project_entries :: "(string \<times> fnode) list \<Rightarrow> (string list \<times> string option) list" where
  "project_entries es =
     concat (map (\<lambda>(n, c). entries_of [n] c) (filter (\<lambda>e. fst e \<noteq> HOST_STATE_DIR) es))"

lemma add_dir_entries:
  assumes "portable (FDir es)"
  shows "add_dir (\<lambda>_. None) es = Inr (map packed_entry (project_entries es))"
proof -
  have "sort_key fst es = es" using assms by (simp add: sort_key_ordered)
  moreover have "traverse_result (\<lambda>(n, c). pack_node (\<lambda>_. None) [n] c) (filter (\<lambda>e. fst e \<noteq> HOST_STATE_DIR) es) =
      Inr (map (\<lambda>(n, c). map packed_entry (entries_of [n] c)) (filter (\<lambda>e. fst e \<noteq> HOST_STATE_DIR) es))"
    by (rule traverse_result_all) (use assms in \<open>auto simp: list_all_iff pack_node_entries\<close>)
  ultimately show ?thesis
    by (simp add: add_dir_def project_entries_def map_concat comp_def case_prod_unfold)
qed

lemma project_entries_in:
  "entries_of [] (FDir es) = ([], None) # concat (map (\<lambda>(n, c). entries_of [n] c) es)"
  by simp

lemma project_entries_set:
  assumes "portable (FDir es)"
  shows "(p, k) \<in> set (project_entries es) \<longleftrightarrow>
    p \<noteq> [] \<and> hd p \<noteq> HOST_STATE_DIR \<and> kind_at p (FDir es) = Some (entry_kind_of k)"
proof -
  have "(p, k) \<in> set (project_entries es) \<longleftrightarrow> p \<noteq> [] \<and> hd p \<noteq> HOST_STATE_DIR \<and> (p, k) \<in> set (entries_of [] (FDir es))"
    using entries_prefix by (fastforce simp: project_entries_def)
  then show ?thesis using entries_set [OF assms, of "[]" p k] by simp
qed

lemma portable_names:
  "portable n \<Longrightarrow> kind_at p n \<noteq> None \<Longrightarrow> list_all (\<lambda>n. plain_name n \<and> CHR 0x5C \<notin> set n) p"
proof (induction p arbitrary: n)
  case (Cons m p)
  then show ?case
    by (cases n) (auto simp: list_all_iff split: option.splits dest!: map_of_SomeD)
qed simp

lemma project_well_listed:
  assumes "portable (FDir es)"
  shows "well_listed (project_entries es)"
  unfolding well_listed_def
proof (intro conjI ballI allI impI)
  have "sorted_wrt (<) (map fst (entries_of [] (FDir (filter (\<lambda>e. fst e \<noteq> HOST_STATE_DIR) es))))"
  proof (rule entries_sorted)
    show "portable (FDir (filter (\<lambda>e. fst e \<noteq> HOST_STATE_DIR) es))"
      using assms by (auto simp: ordered_def list_all_iff sorted_wrt_map intro: sorted_wrt_filter)
  qed
  then show "sorted_wrt (<) (map fst (project_entries es))" by (simp add: project_entries_def)
next
  fix e assume "e \<in> set (project_entries es)"
  then show "portable_path (fst e)"
    using project_entries_set [OF assms, of "fst e" "snd e"] portable_names [OF assms, of "fst e"]
    by (simp add: portable_path_def)
next
  fix e q assume e: "e \<in> set (project_entries es)" and q: "strict_prefix q (fst e) \<and> q \<noteq> []"
  then obtain s where s: "fst e = q @ s" "s \<noteq> []" by (auto simp: strict_prefix_def prefix_def)
  then have "kind_at q (FDir es) = Some Folder"
    using project_entries_set [OF assms, of "q @ s" "snd e"] e by (intro above_something [of q s]) (simp_all flip: s(1))
  moreover have "hd q = hd (fst e)" using s q by simp
  ultimately show "(q, None) \<in> set (project_entries es)"
    using project_entries_set [OF assms, of q None] project_entries_set [OF assms, of "fst e" "snd e"] e q
    by (simp add: entry_kind_of_def)
qed

lemma project_kinds:
  assumes "portable (FDir es)" and "p \<noteq> []"
  shows "map_option entry_kind_of (map_of (project_entries es) p) =
    (if hd p = HOST_STATE_DIR \<or> kind_at p (FDir es) = Some Link then None else kind_at p (FDir es))"
proof -
  have "distinct (map fst (project_entries es))"
    using project_well_listed [OF assms(1)] by (simp add: well_listed_def strict_sorted_iff)
  then have at: "map_of (project_entries es) p = Some k \<longleftrightarrow>
      hd p \<noteq> HOST_STATE_DIR \<and> kind_at p (FDir es) = Some (entry_kind_of k)" for k
    using project_entries_set [OF assms(1), of p k] assms(2) by simp
  show ?thesis
  proof (cases "map_of (project_entries es) p")
    case (Some k)
    then show ?thesis using at [of k] by (auto simp: entry_kind_of_def split: option.splits)
  next
    case None
    show ?thesis
    proof (cases "kind_at p (FDir es)")
      case (Some s)
      have "hd p = HOST_STATE_DIR \<or> s \<noteq> entry_kind_of k" for k using at [of k] None Some by auto
      from this [of None] this [of "case s of Content c \<Rightarrow> Some c | _ \<Rightarrow> None"] show ?thesis
        using None Some by (cases s) (auto simp: entry_kind_of_def)
    qed (simp add: None)
  qed
qed

end
