(* ===== verification/Host_Project.thy ===== *)
theory Host_Project
  imports Host_Roundtrip
begin

text \<open>What exporting and importing a project guarantee, and where the host's own directory is reached.\<close>

section \<open>Imports\<close>


definition sample_crates :: "(string + tar_entry) list \<Rightarrow> archive_crates" where
  "sample_crates es =
     \<lparr>ax_unzip = (\<lambda>_. Inl ''no zip''), ax_untar = (\<lambda>_. Inr es), ax_tar = (\<lambda>_. ''t''),
      ax_untargz = (\<lambda>_. Inr es), ax_gzip = (\<lambda>s. CHR ''z'' # s)\<rparr>"

definition sample_entry :: "string \<Rightarrow> string \<Rightarrow> tar_entry" where
  "sample_entry name c = \<lparr>tar_kind = Regular, tar_name = Inr name, tar_size = length c, tar_data = Inr c\<rparr>"

definition sample_tree :: "string \<Rightarrow> fnode" where
  "sample_tree db =
     FDir [(''b'', FFile ''y''), (''w'', FDir [(HOST_STATE_DIR, FDir [(''audit.db'', FFile db)]), (''a.c'', FFile ''x'')])]"






text \<open>
  C18. A name that begins with a dot's piece reaches it: the entry \<open>./.riscdom/audit.db\<close> is not
  refused as the host's own state, and a forced import replaces the audit log by what the archive holds.
\<close>

theorem dotted_entry_replaces_the_audit_log:
  assumes "length c \<le> MAX_UNPACKED_BYTES"
  shows "unpack_archive (sample_crates [Inr (sample_entry ''./.riscdom/audit.db'' c)]) archive [''w''] Tar True (sample_tree db) =
    (Inr \<lparr>up_files = 1, up_bytes = length c\<rparr>, sample_tree c)"
proof -
  have "relative_names ''./.riscdom/audit.db'' = Inr [HOST_STATE_DIR, ''audit.db'']"
    "\<not> ends_as_directory ''./.riscdom/audit.db''" "part_of [''w'', HOST_STATE_DIR, ''audit.db''] = [''w'', HOST_STATE_DIR, ''audit.db.part'']"
    by code_simp+
  moreover have "length c mod 2 ^ 64 = length c"
    using assms by (intro mod_less) (simp add: MAX_UNPACKED_BYTES_def)
  ultimately show ?thesis
    using assms
    by (simp add: unpack_archive_def sample_crates_def sample_entry_def unpack_tar_def take_tar_entry_def take_file_names
        write_entry_def write_through_def rename_file_def sample_tree_def check_unpacked_def Let_def HOST_STATE_DIR_def del_def)
qed

theorem dotted_entry_replaces_the_audit_log_witness:
  "snd (unpack_archive (sample_crates [Inr (sample_entry ''./.riscdom/audit.db'' ''forged'')]) [] [''w''] Tar True (sample_tree ''db'')) =
   sample_tree ''forged''"
  using dotted_entry_replaces_the_audit_log [of "''forged''"] by (simp add: MAX_UNPACKED_BYTES_def)

section \<open>Exports\<close>

text \<open>
  C16. A project that leaves by an export and enters by an import is the same project: when the names
  are portable and the contents fit the limit, both succeed, and below an empty destination stands
  what stood in the workspace, file for file and directory for directory, without the host's own
  directory and without links.
\<close>

theorem project_survives_the_archive:
  assumes "look dir w = Some (FDir es)" and "portable (FDir es)"
    and "entries_size (project_entries es) \<le> MAX_UNPACKED_BYTES"
    and "ax_untargz A (ax_gzip A (ax_tar A (map packed_entry (project_entries es)))) =
      Inr (map Inr (map packed_entry (project_entries es)))"
    and "\<And>p. kind_at (dest @ p) t = (if p = [] then Some Folder else None)"
  shows "\<exists>archive r u. pack_workspace A (\<lambda>_. None) dir w = Inr archive \<and>
    unpack_archive A archive dest TarGz False t = (Inr r, u) \<and>
    (\<forall>p. p \<noteq> [] \<longrightarrow> kind_at (dest @ p) u =
       (if hd p = HOST_STATE_DIR \<or> kind_at p (FDir es) = Some Link then None else kind_at p (FDir es)))"
proof -
  let ?es = "project_entries es"
  let ?archive = "ax_gzip A (ax_tar A (map packed_entry ?es))"
  have packed: "pack_workspace A (\<lambda>_. None) dir w = Inr ?archive"
    using assms(1) add_dir_entries [OF assms(2)] by (simp add: pack_workspace_def)
  have dest: "kind_at dest t = Some Folder" using assms(5) [of "[]"] by simp
  have above: "kind_at q t = Some Folder" if "prefix q dest" for q
    using that dest above_something [of q _ t] by (metis append_Nil2 option.distinct(1) prefixE)
  then obtain t1 where t1: "create_dirs dest t = Inr t1" using create_dirs_works [of dest t] by blast
  have k1: "kind_at q t1 = kind_at q t" for q using create_dirs_kind [OF t1, of q] above by simp
  have "below_kinds dest [] t1" using assms(5) by (simp add: below_kinds_def k1 dest)
  moreover have "well_listed ([] @ ?es)" using project_well_listed [OF assms(2)] by simp
  ultimately obtain r u where walk: "unpack_tar_from dest False (map (\<lambda>e. Inr (packed_entry e)) ?es)
      \<lparr>up_files = 0, up_bytes = 0\<rparr> t1 = (Inr r, u)" "below_kinds dest ([] @ ?es) u"
    using walk_entries [of "[]" ?es dest t1 "\<lparr>up_files = 0, up_bytes = 0\<rparr>"] assms(3) by auto
  have "unpack_archive A ?archive dest TarGz False t = (Inr r, u)"
    using walk(1) assms(4) by (simp add: unpack_archive_def t1 unpack_tar_def comp_def)
  moreover have "kind_at (dest @ p) u =
      (if hd p = HOST_STATE_DIR \<or> kind_at p (FDir es) = Some Link then None else kind_at p (FDir es))" if "p \<noteq> []" for p
    using walk(2) that project_kinds [OF assms(2) that] by (simp add: below_kinds_def)
  ultimately show ?thesis using packed by blast
qed

definition sample_project :: "(string \<times> fnode) list" where
  "sample_project = [(HOST_STATE_DIR, FDir [(''audit.db'', FFile ''db'')]), (''a.c'', FFile ''x''), (''d'', FDir [(''b.h'', FFile ''y'')])]"

theorem project_survives_the_archive_witness:
  "\<exists>archive r u. pack_workspace (sample_crates (map Inr (map packed_entry (project_entries sample_project)))) (\<lambda>_. None) []
       (FDir sample_project) = Inr archive \<and>
     unpack_archive (sample_crates (map Inr (map packed_entry (project_entries sample_project)))) archive [] TarGz False (FDir []) =
       (Inr r, u) \<and>
     kind_at [''d'', ''b.h''] u = Some (Content ''y'')"
proof -
  let ?A = "sample_crates (map Inr (map packed_entry (project_entries sample_project)))"
  have "portable (FDir sample_project)" "entries_size (project_entries sample_project) \<le> MAX_UNPACKED_BYTES"
    by (code_simp, simp add: sample_project_def project_entries_def entries_size_def HOST_STATE_DIR_def MAX_UNPACKED_BYTES_def)
  moreover have "ax_untargz ?A s = Inr (map Inr (map packed_entry (project_entries sample_project)))" for s
    by (simp add: sample_crates_def)
  moreover have "kind_at ([] @ p) (FDir []) = (if p = [] then Some Folder else None)" for p by (cases p) auto
  ultimately obtain archive r u where "pack_workspace ?A (\<lambda>_. None) [] (FDir sample_project) = Inr archive"
    "unpack_archive ?A archive [] TarGz False (FDir []) = (Inr r, u)"
    and k: "\<forall>p. p \<noteq> [] \<longrightarrow> kind_at ([] @ p) u = (if hd p = HOST_STATE_DIR \<or> kind_at p (FDir sample_project) = Some Link then None
       else kind_at p (FDir sample_project))"
    using project_survives_the_archive [of "[]" "FDir sample_project" sample_project ?A "[]" "FDir []"] by auto
  moreover have "kind_at [''d'', ''b.h''] u = Some (Content ''y'')"
    using k [rule_format, of "[''d'', ''b.h'']"] by (simp add: sample_project_def HOST_STATE_DIR_def)
  ultimately show ?thesis by blast
qed

end
