(* ===== verification/Agent_Policy.thy ===== *)
theory Agent_Policy
  imports Paths Json
begin

text \<open>
  What the model may touch: the workspace policy of \<open>agent/src/policy.rs\<close>, the errors of
  \<open>agent/src/error.rs\<close>, and the configuration and identity checks of \<open>agent/src/config.rs\<close>,
  \<open>agent/src/identity.rs\<close> and \<open>agent/src/audit_hook.rs\<close> that keep secrets and addresses apart.
\<close>

section \<open>Errors\<close>

text \<open>An error of another crate is its text.\<close>

datatype agent_error =
    ConfigError string
  | HttpError string
  | ApiError string
  | JsonError string
  | IoError string
  | PolicyDenied string
  | ToolError string
  | SandboxError string
  | AgentOther string

fun agent_error_text :: "agent_error \<Rightarrow> string" where
  "agent_error_text (ConfigError s) = ''config error: '' @ s"
| "agent_error_text (HttpError s) = ''http error: '' @ s"
| "agent_error_text (ApiError s) = ''api error: '' @ s"
| "agent_error_text (JsonError s) = ''json error: '' @ s"
| "agent_error_text (IoError s) = ''io error: '' @ s"
| "agent_error_text (PolicyDenied s) = ''policy denied: '' @ s"
| "agent_error_text (ToolError s) = ''tool error: '' @ s"
| "agent_error_text (SandboxError s) = ''sandbox error: '' @ s"
| "agent_error_text (AgentOther s) = s"

section \<open>The policy\<close>

record workspace_policy =
  wp_root :: fspath
  wp_extensions :: "string list"

definition policy_new :: "string \<Rightarrow> workspace_policy" where
  "policy_new dir =
     \<lparr>wp_root = normalize dir, wp_extensions = [''.c'', ''.h'', ''.S'', ''.s'', ''.zig'', ''.rs'']\<rparr>"

definition looks_absolute :: "string \<Rightarrow> bool" where
  "looks_absolute s \<longleftrightarrow> starts_with s ''/''"

definition policy_resolve :: "workspace_policy \<Rightarrow> string \<Rightarrow> agent_error + fspath" where
  "policy_resolve p s =
     (if ParentDir \<in> set (components s) then Inl (PolicyDenied (''path traversal not allowed: '' @ s))
      else
        let abs = (if looks_absolute s then normalize s else push_all (components s) (wp_root p))
        in if starts_with_path abs (wp_root p) then Inr abs
           else Inl (PolicyDenied (''path outside workspace: '' @ show_path abs)))"

definition dotted_extension :: "fspath \<Rightarrow> string" where
  "dotted_extension p = (case extension p of None \<Rightarrow> [] | Some e \<Rightarrow> ''.'' @ e)"

definition check_write :: "workspace_policy \<Rightarrow> string \<Rightarrow> agent_error + fspath" where
  "check_write p s =
     bind_result (policy_resolve p s) (\<lambda>abs.
       let ext = dotted_extension abs
       in if list_ex (\<lambda>allowed. eq_ignore_ascii_case allowed ext) (wp_extensions p) then Inr abs
          else Inl (PolicyDenied (''extension not allowed: '' @ (if ext = [] then ''(none)'' else ext))))"

definition check_read :: "workspace_policy \<Rightarrow> string \<Rightarrow> agent_error + fspath" where
  "check_read p s = policy_resolve p s"

section \<open>Addresses\<close>

definition authority_of :: "string \<Rightarrow> string" where
  "authority_of url =
     takeWhile (\<lambda>c. c \<notin> {CHR ''/'', CHR ''?'', CHR ''#''})
       (case split_once ''://'' url of Some (_, r) \<Rightarrow> r | None \<Rightarrow> url)"

definition after_userinfo :: "string \<Rightarrow> string" where
  "after_userinfo authority = (case rsplit_once CHR ''@'' authority of Some (_, h) \<Rightarrow> h | None \<Rightarrow> authority)"

definition host_of :: "string \<Rightarrow> string" where
  "host_of url = after_userinfo (authority_of url)"

definition is_local_url :: "string \<Rightarrow> bool" where
  "is_local_url url =
     (let hostport = after_userinfo (authority_of url);
          host = (case rsplit_once CHR '':'' hostport of Some (h, _) \<Rightarrow> h | None \<Rightarrow> hostport);
          host = dropWhile (\<lambda>c. c = CHR ''['') host;
          host = rev (dropWhile (\<lambda>c. c = CHR '']'') (rev host))
      in List.member [''localhost'', ''127.0.0.1'', ''::1'', ''0.0.0.0''] host)"

section \<open>Configuration\<close>

definition DEFAULT_PRESET_ID :: string where "DEFAULT_PRESET_ID = ''deepseek''"

record agent_config =
  ac_api_key :: string
  ac_base_url :: string
  ac_model :: string
  ac_provider_id :: string
  ac_max_iterations :: nat
  ac_request_timeout_secs :: nat

definition default_config_with :: "string \<Rightarrow> agent_config" where
  "default_config_with key =
     \<lparr>ac_api_key = key, ac_base_url = ''https://api.deepseek.com'', ac_model = ''deepseek-chat'',
      ac_provider_id = DEFAULT_PRESET_ID, ac_max_iterations = 10, ac_request_timeout_secs = 120\<rparr>"

definition deepseek_default :: agent_config where
  "deepseek_default = default_config_with []"

text \<open>\<open>str::parse\<close> of an unsigned number: an optional plus, digits, and no overflow.\<close>

definition parse_uint :: "nat \<Rightarrow> string \<Rightarrow> nat option" where
  "parse_uint bits s =
     (let ds = (if starts_with s ''+'' then tl s else s)
      in if ds \<noteq> [] \<and> list_all (\<lambda>c. CHR ''0'' \<le> c \<and> c \<le> CHR ''9'') ds \<and> read_nat ds 0 < 2 ^ bits
         then Some (read_nat ds 0) else None)"

definition config_from_env :: "(string \<Rightarrow> string option) \<Rightarrow> agent_error + agent_config" where
  "config_from_env env =
     (case env ''DEEPSEEK_API_KEY'' of
        None \<Rightarrow> Inl (ConfigError ''DEEPSEEK_API_KEY is not set'')
      | Some key \<Rightarrow>
          if trim key = [] then Inl (ConfigError ''DEEPSEEK_API_KEY is empty'')
          else
            let d = default_config_with key;
                number = (\<lambda>bits name otherwise.
                  case Option.bind (env name) (parse_uint bits) of None \<Rightarrow> otherwise | Some n \<Rightarrow> n)
            in Inr (d\<lparr>ac_base_url := (case env ''DEEPSEEK_BASE_URL'' of None \<Rightarrow> ac_base_url d | Some u \<Rightarrow> u),
                      ac_model := (case env ''DEEPSEEK_MODEL'' of None \<Rightarrow> ac_model d | Some m \<Rightarrow> m),
                      ac_max_iterations := number 32 ''RISCDOM_MAX_ITERATIONS'' 10,
                      ac_request_timeout_secs := number 64 ''RISCDOM_REQUEST_TIMEOUT'' 120\<rparr>))"

definition endpoint :: "agent_config \<Rightarrow> string" where
  "endpoint c = rev (dropWhile (\<lambda>d. d = CHR ''/'') (rev (ac_base_url c))) @ ''/chat/completions''"

text \<open>\<open>quoted\<close>: the debug form of a text, which the message carries.\<close>

definition validate_config :: "(string \<Rightarrow> string) \<Rightarrow> agent_config \<Rightarrow> agent_error + unit" where
  "validate_config quoted c =
     (let base = trim (ac_base_url c)
      in if \<not> (starts_with base ''http://'' \<or> starts_with base ''https://'') then
           Inl (ConfigError (''base_url must start with http:// or https:// (got '' @ quoted base @ '')''))
         else if trim (ac_model c) = [] then Inl (ConfigError ''model must not be empty'')
         else if \<not> is_local_url base \<and> trim (ac_api_key c) = [] then
           Inl (ConfigError ''api_key is required for non-local base_url'')
         else Inr ())"

record provider_preset =
  pp_id :: string
  pp_display_name :: string
  pp_base_url :: string
  pp_default_model :: string
  pp_requires_key :: bool
  pp_is_local :: bool

definition LOCAL_MARK :: string where
  "LOCAL_MARK = byte_string [239, 188, 136, 230, 156, 172, 229, 156, 176, 239, 188, 137]"

definition builtin_presets :: "provider_preset list" where
  "builtin_presets =
     [\<lparr>pp_id = ''deepseek'', pp_display_name = ''DeepSeek'', pp_base_url = ''https://api.deepseek.com'',
       pp_default_model = ''deepseek-chat'', pp_requires_key = True, pp_is_local = False\<rparr>,
      \<lparr>pp_id = ''openai'', pp_display_name = ''OpenAI'', pp_base_url = ''https://api.openai.com/v1'',
       pp_default_model = ''gpt-4o-mini'', pp_requires_key = True, pp_is_local = False\<rparr>,
      \<lparr>pp_id = ''ollama'', pp_display_name = ''Ollama'' @ LOCAL_MARK,
       pp_base_url = ''http://localhost:11434/v1'', pp_default_model = ''qwen2.5-coder'',
       pp_requires_key = False, pp_is_local = True\<rparr>,
      \<lparr>pp_id = ''lmstudio'', pp_display_name = ''LM Studio'' @ LOCAL_MARK,
       pp_base_url = ''http://localhost:1234/v1'', pp_default_model = [],
       pp_requires_key = False, pp_is_local = True\<rparr>,
      \<lparr>pp_id = ''custom'', pp_display_name = byte_string [232, 135, 170, 229, 174, 154, 228, 185, 137],
       pp_base_url = [], pp_default_model = [], pp_requires_key = False, pp_is_local = False\<rparr>]"

definition find_preset :: "string \<Rightarrow> provider_preset option" where
  "find_preset i = find (\<lambda>p. pp_id p = i) builtin_presets"

definition config_from_preset ::
  "(string \<Rightarrow> string) \<Rightarrow> provider_preset \<Rightarrow> string option \<Rightarrow> agent_error + agent_config" where
  "config_from_preset quoted preset api_key =
     (let key = (case api_key of None \<Rightarrow> [] | Some k \<Rightarrow> k)
      in if pp_requires_key preset \<and> trim key = [] then
           Inl (ConfigError (''provider '' @ byte_string [39] @ pp_id preset @ byte_string [39] @ '' requires an api_key''))
         else
           let c = \<lparr>ac_api_key = key, ac_base_url = pp_base_url preset, ac_model = pp_default_model preset,
                    ac_provider_id = pp_id preset, ac_max_iterations = 10, ac_request_timeout_secs = 120\<rparr>
           in bind_result (validate_config quoted c) (\<lambda>_. Inr c))"

definition mask_key :: "string \<Rightarrow> string" where
  "mask_key key =
     (let chars = utf8_chars key; n = length chars
      in if n \<le> 8 then replicate (max n 1) CHR ''*''
         else concat (take 4 chars) @ ''****'' @ concat (drop (n - 4) chars))"

section \<open>Identities\<close>

definition DEFAULT_DEVICE :: string where "DEFAULT_DEVICE = ''local''"

record identity_state =
  id_device :: "string option"
  id_pid :: nat
  id_seq :: nat

definition device :: "identity_state \<Rightarrow> string" where
  "device s = (case id_device s of None \<Rightarrow> DEFAULT_DEVICE | Some d \<Rightarrow> d)"

definition set_device :: "string \<Rightarrow> identity_state \<Rightarrow> string \<times> identity_state" where
  "set_device name s = (device s, if trim name = [] then s else s\<lparr>id_device := Some name\<rparr>)"

definition mint_identity :: "string \<Rightarrow> nat \<Rightarrow> nat \<Rightarrow> string" where
  "mint_identity dev pid seq = dev @ ''-'' @ show_nat pid @ ''-'' @ show_nat seq"

definition next_seq :: "identity_state \<Rightarrow> nat \<times> identity_state" where
  "next_seq s = (id_seq s + 1, s\<lparr>id_seq := id_seq s + 1\<rparr>)"

definition next_agent_id :: "identity_state \<Rightarrow> string \<times> identity_state" where
  "next_agent_id s = (case next_seq s of (n, s) \<Rightarrow> (mint_identity (device s) (id_pid s) n, s))"

definition next_instance_id :: "identity_state \<Rightarrow> string \<times> identity_state" where
  "next_instance_id s = (case next_seq s of (n, s) \<Rightarrow> (mint_identity (device s) (id_pid s) n, s))"

end
