(* ===== verification/Agent_Stream.thy ===== *)
theory Agent_Stream
  imports Agent_Policy
begin

text \<open>
  What the model says: chat messages and responses (\<open>agent/src/message.rs\<close>), the lines of an event
  stream (\<open>agent/src/sse.rs\<close>) and the response assembled from them (\<open>agent/src/llm.rs\<close>). HTTP is
  outside: a reply is its status and body, or the lines read from it. The error texts of the JSON
  parser are the parameter \<open>x_json_error\<close>.
\<close>

section \<open>Messages\<close>

record function_call =
  fc_name :: string
  fc_arguments :: string

record tool_call =
  tc_id :: string
  tc_kind :: string
  tc_function :: function_call

record chat_message =
  cm_role :: string
  cm_content :: "string option"
  cm_tool_calls :: "tool_call list option"
  cm_tool_call_id :: "string option"

definition message_text :: "string \<Rightarrow> string \<Rightarrow> chat_message" where
  "message_text role content =
     \<lparr>cm_role = role, cm_content = Some content, cm_tool_calls = None, cm_tool_call_id = None\<rparr>"

definition tool_result_message :: "string \<Rightarrow> string \<Rightarrow> chat_message" where
  "tool_result_message call_id content =
     \<lparr>cm_role = ''tool'', cm_content = Some content, cm_tool_calls = None, cm_tool_call_id = Some call_id\<rparr>"

record choice =
  ch_index :: "nat option"
  ch_message :: chat_message
  ch_finish_reason :: "string option"

record usage =
  us_prompt_tokens :: "nat option"
  us_completion_tokens :: "nat option"
  us_total_tokens :: "nat option"

record chat_response =
  cr_id :: "string option"
  cr_model :: "string option"
  cr_choices :: "choice list"
  cr_usage :: "usage option"

definition first_message :: "chat_response \<Rightarrow> chat_message option" where
  "first_message r = (case cr_choices r of [] \<Rightarrow> None | c # _ \<Rightarrow> Some (ch_message c))"

definition response_tool_calls :: "chat_response \<Rightarrow> tool_call list option" where
  "response_tool_calls r = Option.bind (first_message r) cm_tool_calls"

definition response_content :: "chat_response \<Rightarrow> string option" where
  "response_content r = Option.bind (first_message r) cm_content"

section \<open>Wire form\<close>

definition skip_none :: "string \<Rightarrow> ('a \<Rightarrow> json) \<Rightarrow> 'a option \<Rightarrow> (string \<times> json) list" where
  "skip_none k f v = (case v of None \<Rightarrow> [] | Some a \<Rightarrow> [(k, f a)])"

definition tool_call_to_json :: "tool_call \<Rightarrow> json" where
  "tool_call_to_json c =
     json_obj [(''id'', JStr (tc_id c)), (''type'', JStr (tc_kind c)),
       (''function'', json_obj [(''name'', JStr (fc_name (tc_function c))),
                              (''arguments'', JStr (fc_arguments (tc_function c)))])]"

definition chat_message_to_json :: "chat_message \<Rightarrow> json" where
  "chat_message_to_json m =
     json_obj ((''role'', JStr (cm_role m)) # skip_none ''content'' JStr (cm_content m) @
       skip_none ''tool_calls'' (\<lambda>cs. JArr (map tool_call_to_json cs)) (cm_tool_calls m) @
       skip_none ''tool_call_id'' JStr (cm_tool_call_id m))"

definition de_option :: "(json \<Rightarrow> 'a option) \<Rightarrow> json \<Rightarrow> 'a option option" where
  "de_option f v = (case v of JNull \<Rightarrow> Some None | _ \<Rightarrow> map_option Some (f v))"

definition de_function_call :: "json \<Rightarrow> function_call option" where
  "de_function_call v =
     Option.bind (struct_fields [''name'', ''arguments''] v) (\<lambda>fs.
     Option.bind (de_required fs ''name'' as_str) (\<lambda>name.
     Option.bind (de_required fs ''arguments'' as_str) (\<lambda>args.
     Some \<lparr>fc_name = name, fc_arguments = args\<rparr>)))"

definition de_tool_call :: "json \<Rightarrow> tool_call option" where
  "de_tool_call v =
     Option.bind (struct_fields [''id'', ''type'', ''function''] v) (\<lambda>fs.
     Option.bind (de_required fs ''id'' as_str) (\<lambda>i.
     Option.bind (de_required fs ''type'' as_str) (\<lambda>kind.
     Option.bind (de_required fs ''function'' de_function_call) (\<lambda>f.
     Some \<lparr>tc_id = i, tc_kind = kind, tc_function = f\<rparr>))))"

text \<open>A missing \<open>Option\<close> field of a derived struct is \<open>None\<close>.\<close>

definition de_message :: "json \<Rightarrow> chat_message option" where
  "de_message v =
     Option.bind (struct_fields [''role'', ''content'', ''tool_calls'', ''tool_call_id''] v) (\<lambda>fs.
     Option.bind (de_required fs ''role'' as_str) (\<lambda>role.
     Option.bind (de_default fs ''content'' (de_option as_str) None) (\<lambda>content.
     Option.bind (de_default fs ''tool_calls'' (de_option (de_vec de_tool_call)) None) (\<lambda>calls.
     Option.bind (de_default fs ''tool_call_id'' (de_option as_str) None) (\<lambda>i.
     Some \<lparr>cm_role = role, cm_content = content, cm_tool_calls = calls, cm_tool_call_id = i\<rparr>)))))"

definition de_choice :: "json \<Rightarrow> choice option" where
  "de_choice v =
     Option.bind (struct_fields [''index'', ''message'', ''finish_reason''] v) (\<lambda>fs.
     Option.bind (de_default fs ''index'' (de_option de_u32) None) (\<lambda>i.
     Option.bind (de_required fs ''message'' de_message) (\<lambda>m.
     Option.bind (de_default fs ''finish_reason'' (de_option as_str) None) (\<lambda>why.
     Some \<lparr>ch_index = i, ch_message = m, ch_finish_reason = why\<rparr>))))"

definition de_usage :: "json \<Rightarrow> usage option" where
  "de_usage v =
     Option.bind (struct_fields [''prompt_tokens'', ''completion_tokens'', ''total_tokens''] v) (\<lambda>fs.
     Option.bind (de_default fs ''prompt_tokens'' (de_option as_u64) None) (\<lambda>p.
     Option.bind (de_default fs ''completion_tokens'' (de_option as_u64) None) (\<lambda>c.
     Option.bind (de_default fs ''total_tokens'' (de_option as_u64) None) (\<lambda>t.
     Some \<lparr>us_prompt_tokens = p, us_completion_tokens = c, us_total_tokens = t\<rparr>))))"

definition de_response :: "json \<Rightarrow> chat_response option" where
  "de_response v =
     Option.bind (struct_fields [''id'', ''model'', ''choices'', ''usage''] v) (\<lambda>fs.
     Option.bind (de_default fs ''id'' (de_option as_str) None) (\<lambda>i.
     Option.bind (de_default fs ''model'' (de_option as_str) None) (\<lambda>m.
     Option.bind (de_default fs ''choices'' (de_vec de_choice) []) (\<lambda>cs.
     Option.bind (de_default fs ''usage'' (de_option de_usage) None) (\<lambda>u.
     Some \<lparr>cr_id = i, cr_model = m, cr_choices = cs, cr_usage = u\<rparr>)))))"

section \<open>Event streams\<close>

datatype sse_event = SseData string | SseDone | SseIgnore

definition trim_end_of :: "char set \<Rightarrow> string \<Rightarrow> string" where
  "trim_end_of cs s = rev (dropWhile (\<lambda>c. c \<in> cs) (rev s))"

definition trim_start :: "string \<Rightarrow> string" where
  "trim_start s = concat (dropWhile is_whitespace (utf8_chars s))"

definition parse_sse_line :: "string \<Rightarrow> sse_event" where
  "parse_sse_line line =
     (let without_eol = trim_end_of {CHR 0x0D, CHR 0x0A} line
      in if trim without_eol = [] then SseIgnore
         else
           let trimmed = trim_start without_eol
           in if starts_with trimmed '':'' then SseIgnore
              else if starts_with trimmed ''data:'' then
                let rest = drop 5 trimmed;
                    payload = (if starts_with rest '' '' then tl rest else rest)
                in if trim payload = ''[DONE]'' then SseDone else SseData payload
              else SseIgnore)"

record sse_accumulator =
  sa_parts :: "string list"
  sa_done :: bool

definition sse_new :: sse_accumulator where
  "sse_new = \<lparr>sa_parts = [], sa_done = False\<rparr>"

fun join_lines :: "string list \<Rightarrow> string" where
  "join_lines [] = []"
| "join_lines [s] = s"
| "join_lines (s # ss) = s @ newline @ join_lines ss"

definition sse_flush :: "sse_accumulator \<Rightarrow> string option \<times> sse_accumulator" where
  "sse_flush a =
     (if sa_parts a = [] then (None, a) else (Some (join_lines (sa_parts a)), a\<lparr>sa_parts := []\<rparr>))"

definition sse_feed :: "string \<Rightarrow> sse_accumulator \<Rightarrow> string option \<times> sse_accumulator" where
  "sse_feed line a =
     (case parse_sse_line line of
        SseDone \<Rightarrow> (None, a\<lparr>sa_done := True\<rparr>)
      | SseData payload \<Rightarrow> (None, a\<lparr>sa_parts := sa_parts a @ [payload]\<rparr>)
      | SseIgnore \<Rightarrow> sse_flush a)"

section \<open>Assembling a streamed response\<close>

datatype stream_event =
    Delta string
  | ToolCallDelta nat "string option" "string option" string
  | StreamDone

record stream_tool_call =
  sc_index :: nat
  sc_id :: "string option"
  sc_function :: "(string option \<times> string option) option"

record stream_delta =
  sd_content :: "string option"
  sd_tool_calls :: "stream_tool_call list option"

definition de_usize :: "json \<Rightarrow> nat option" where
  "de_usize = as_u64"

definition de_stream_function :: "json \<Rightarrow> (string option \<times> string option) option" where
  "de_stream_function v =
     Option.bind (struct_fields [''name'', ''arguments''] v) (\<lambda>fs.
     Option.bind (de_default fs ''name'' (de_option as_str) None) (\<lambda>name.
     Option.bind (de_default fs ''arguments'' (de_option as_str) None) (\<lambda>args.
     Some (name, args))))"

definition de_stream_tool_call :: "json \<Rightarrow> stream_tool_call option" where
  "de_stream_tool_call v =
     Option.bind (struct_fields [''index'', ''id'', ''function''] v) (\<lambda>fs.
     Option.bind (de_default fs ''index'' de_usize 0) (\<lambda>i.
     Option.bind (de_default fs ''id'' (de_option as_str) None) (\<lambda>sid.
     Option.bind (de_default fs ''function'' (de_option de_stream_function) None) (\<lambda>f.
     Some \<lparr>sc_index = i, sc_id = sid, sc_function = f\<rparr>))))"

definition de_stream_delta :: "json \<Rightarrow> stream_delta option" where
  "de_stream_delta v =
     Option.bind (struct_fields [''content'', ''tool_calls''] v) (\<lambda>fs.
     Option.bind (de_default fs ''content'' (de_option as_str) None) (\<lambda>c.
     Option.bind (de_default fs ''tool_calls'' (de_option (de_vec de_stream_tool_call)) None) (\<lambda>ts.
     Some \<lparr>sd_content = c, sd_tool_calls = ts\<rparr>)))"

definition de_stream_choice :: "json \<Rightarrow> stream_delta option" where
  "de_stream_choice v =
     Option.bind (struct_fields [''delta''] v) (\<lambda>fs.
     de_default fs ''delta'' de_stream_delta \<lparr>sd_content = None, sd_tool_calls = None\<rparr>)"

definition de_stream_chunk :: "json \<Rightarrow> stream_delta list option" where
  "de_stream_chunk v =
     Option.bind (struct_fields [''choices''] v) (\<lambda>fs. de_default fs ''choices'' (de_vec de_stream_choice) [])"

record partial_call =
  pc_index :: nat
  pc_id :: "string option"
  pc_name :: "string option"
  pc_args :: string

definition nonempty :: "string option \<Rightarrow> string option" where
  "nonempty s = (case s of Some (c # t) \<Rightarrow> Some (c # t) | _ \<Rightarrow> None)"

definition extend_call :: "stream_tool_call \<Rightarrow> partial_call \<Rightarrow> partial_call" where
  "extend_call t p =
     (let name = Option.bind (sc_function t) (\<lambda>f. nonempty (fst f));
          args = Option.bind (sc_function t) (\<lambda>f. nonempty (snd f))
      in p\<lparr>pc_id := (case nonempty (sc_id t) of None \<Rightarrow> pc_id p | Some i \<Rightarrow> Some i),
           pc_name := (case name of None \<Rightarrow> pc_name p | Some n \<Rightarrow> Some n),
           pc_args := pc_args p @ (case args of None \<Rightarrow> [] | Some a \<Rightarrow> a)\<rparr>)"

fun with_slot :: "nat \<Rightarrow> partial_call list \<Rightarrow> partial_call list" where
  "with_slot i [] = [\<lparr>pc_index = i, pc_id = None, pc_name = None, pc_args = []\<rparr>]"
| "with_slot i (p # ps) = (if pc_index p = i then p # ps else p # with_slot i ps)"

fun update_slot :: "nat \<Rightarrow> (partial_call \<Rightarrow> partial_call) \<Rightarrow> partial_call list \<Rightarrow> partial_call list" where
  "update_slot i f [] = []"
| "update_slot i f (p # ps) = (if pc_index p = i then f p # ps else p # update_slot i f ps)"

record stream_state =
  st_content :: string
  st_calls :: "partial_call list"
  st_events :: "stream_event list"

definition take_tool_delta :: "stream_tool_call \<Rightarrow> stream_state \<Rightarrow> stream_state" where
  "take_tool_delta t s =
     (let calls = update_slot (sc_index t) (extend_call t) (with_slot (sc_index t) (st_calls s));
          entry = find (\<lambda>p. pc_index p = sc_index t) calls
      in s\<lparr>st_calls := calls,
           st_events := st_events s @
             [ToolCallDelta (sc_index t) (Option.bind entry pc_id)
                (Option.bind (sc_function t) (\<lambda>f. nonempty (fst f)))
                (case Option.bind (sc_function t) (\<lambda>f. nonempty (snd f)) of None \<Rightarrow> [] | Some a \<Rightarrow> a)]\<rparr>)"

definition take_delta :: "stream_delta \<Rightarrow> stream_state \<Rightarrow> stream_state" where
  "take_delta d s =
     (let s = (case nonempty (sd_content d) of
                 None \<Rightarrow> s
               | Some t \<Rightarrow> s\<lparr>st_content := st_content s @ t, st_events := st_events s @ [Delta t]\<rparr>)
      in foldl (\<lambda>s t. take_tool_delta t s) s (case sd_tool_calls d of None \<Rightarrow> [] | Some ts \<Rightarrow> ts))"

definition handle_stream_payload ::
  "externs \<Rightarrow> string \<Rightarrow> stream_state \<Rightarrow> (agent_error + unit) \<times> stream_state" where
  "handle_stream_payload X payload s =
     (if trim payload = [] then (Inr (), s)
      else case Option.bind (x_parse X payload) de_stream_chunk of
        None \<Rightarrow> (Inl (JsonError (x_json_error X payload)), s)
      | Some ds \<Rightarrow> (Inr (), foldl (\<lambda>s d. take_delta d s) s ds))"

definition finished_call :: "partial_call \<Rightarrow> tool_call" where
  "finished_call c =
     \<lparr>tc_id = (case pc_id c of None \<Rightarrow> ''call-'' @ show_nat (pc_index c) | Some i \<Rightarrow> i),
      tc_kind = ''function'',
      tc_function = \<lparr>fc_name = (case pc_name c of None \<Rightarrow> [] | Some n \<Rightarrow> n), fc_arguments = pc_args c\<rparr>\<rparr>"

definition build_stream_response :: "string \<Rightarrow> partial_call list \<Rightarrow> chat_response" where
  "build_stream_response content calls =
     (let tool_calls = map finished_call
            (filter (\<lambda>c. pc_name c \<noteq> None \<or> pc_args c \<noteq> []) (sort_key pc_index calls))
      in \<lparr>cr_id = None, cr_model = None,
          cr_choices =
            [\<lparr>ch_index = Some 0,
              ch_message =
                \<lparr>cm_role = ''assistant'',
                 cm_content = (if content = [] then None else Some content),
                 cm_tool_calls = (if tool_calls = [] then None else Some tool_calls),
                 cm_tool_call_id = None\<rparr>,
              ch_finish_reason = None\<rparr>],
          cr_usage = None\<rparr>)"

text \<open>The reading loop: a line that could not be read ends it with the transport's error.\<close>

fun read_stream ::
  "externs \<Rightarrow> (string + string) list \<Rightarrow> sse_accumulator \<Rightarrow> stream_state \<Rightarrow>
   (agent_error + unit) \<times> stream_state" where
  "read_stream X [] a s =
     (case sse_flush a of
        (None, _) \<Rightarrow> (Inr (), s)
      | (Some payload, _) \<Rightarrow> handle_stream_payload X payload s)"
| "read_stream X (Inl e # ls) a s = (Inl (HttpError e), s)"
| "read_stream X (Inr line # ls) a s =
     (case sse_feed line a of
        (got, a) \<Rightarrow>
          (case (case got of None \<Rightarrow> (Inr (), s) | Some payload \<Rightarrow> handle_stream_payload X payload s) of
             (Inl e, s) \<Rightarrow> (Inl e, s)
           | (Inr _, s) \<Rightarrow> if sa_done a then read_stream X [] a s else read_stream X ls a s))"

definition ELLIPSIS :: string where "ELLIPSIS = byte_string [226, 128, 166]"

text \<open>The longest prefix of at most \<open>n\<close> bytes that ends between two characters.\<close>

fun char_floor :: "nat \<Rightarrow> string list \<Rightarrow> string" where
  "char_floor n [] = []"
| "char_floor n (c # cs) = (if length c \<le> n then c @ char_floor (n - length c) cs else [])"

definition shorten :: "nat \<Rightarrow> string \<Rightarrow> string" where
  "shorten n s = (if length s \<le> n then s else char_floor n (utf8_chars s) @ ELLIPSIS)"

text \<open>A reply of the service: a transport failure, or a status and its body.\<close>

record http_reply =
  hr_status :: nat
  hr_body :: string
  hr_lines :: "(string + string) list"

definition is_success :: "nat \<Rightarrow> bool" where
  "is_success status \<longleftrightarrow> 200 \<le> status \<and> status < 300"

definition api_error :: "nat \<Rightarrow> string \<Rightarrow> agent_error" where
  "api_error status body = ApiError (''HTTP '' @ show_nat status @ '': '' @ shorten 512 body)"

definition chat :: "externs \<Rightarrow> string + http_reply \<Rightarrow> agent_error + chat_response" where
  "chat X reply =
     (case reply of
        Inl e \<Rightarrow> Inl (HttpError e)
      | Inr r \<Rightarrow>
          if \<not> is_success (hr_status r) then Inl (api_error (hr_status r) (hr_body r))
          else case Option.bind (x_parse X (hr_body r)) de_response of
            None \<Rightarrow> Inl (ApiError (''failed to parse response: '' @ x_json_error X (hr_body r) @
                   ''; body: '' @ shorten 512 (hr_body r)))
          | Some resp \<Rightarrow> Inr resp)"

definition chat_stream ::
  "externs \<Rightarrow> string + http_reply \<Rightarrow> (agent_error + chat_response) \<times> stream_event list" where
  "chat_stream X reply =
     (case reply of
        Inl e \<Rightarrow> (Inl (HttpError e), [])
      | Inr r \<Rightarrow>
          if \<not> is_success (hr_status r) then (Inl (api_error (hr_status r) (hr_body r)), [])
          else case read_stream X (hr_lines r) sse_new \<lparr>st_content = [], st_calls = [], st_events = []\<rparr> of
            (Inl e, s) \<Rightarrow> (Inl e, st_events s)
          | (Inr _, s) \<Rightarrow> (Inr (build_stream_response (st_content s) (st_calls s)), st_events s @ [StreamDone]))"

end
