(* ===== verification/Agent_Tools.thy ===== *)
theory Agent_Tools
  imports Agent_Stream Audit_Chain
begin

text \<open>
  The tools the model may call (\<open>agent/src/tools.rs\<close>) and the audit events around them
  (\<open>agent/src/audit_hook.rs\<close>). The files of the workspace, whether a VM runs and what its serial
  line has said are the world; an event is what was handed to the sink. The compiler, QEMU, the
  file system's refusals, the clock and the host's request surface are the environment.
\<close>

section \<open>The world and its environment\<close>

record agent_world =
  aw_files :: "(string list \<times> string) list"
  aw_vm :: bool
  aw_events :: "audit_event list"
  aw_seq :: nat

record compile_output =
  co_ok :: bool
  co_stdout :: string
  co_stderr :: string
  co_elf :: "string option"

text \<open>
  \<open>te_ports n\<close>: the two leased ports of attempt \<open>n\<close>; \<open>te_boot n elf\<close>: what starting QEMU answers;
  \<open>te_samples\<close>: the serial output at each look of the waiting loop, with the milliseconds since it
  began; \<open>te_refuse\<close>: the file system's error for writing a path.
\<close>

record tool_env =
  te_policy :: workspace_policy
  te_agent_id :: string
  te_now :: int
  te_refuse :: "fspath \<Rightarrow> string option"
  te_listing :: "string option"
  te_compile :: "fspath \<Rightarrow> fspath \<Rightarrow> agent_error + compile_output"
  te_ports :: "nat \<Rightarrow> string + nat \<times> nat"
  te_boot :: "nat \<Rightarrow> fspath \<Rightarrow> string option"
  te_samples :: "(nat \<times> string) list"
  te_stop :: "string option"
  te_requester :: "((string \<Rightarrow> string option \<Rightarrow> string option \<Rightarrow> string + string) \<times> (string + string)) option"

definition write_at :: "string list \<Rightarrow> string \<Rightarrow> agent_world \<Rightarrow> agent_world" where
  "write_at p content w = w\<lparr>aw_files := (p, content) # filter (\<lambda>e. fst e \<noteq> p) (aw_files w)\<rparr>"

section \<open>Audit events\<close>

definition AUDIT_ACTOR :: string where "AUDIT_ACTOR = ''agent''"
definition MAX_DETAIL_STR :: nat where "MAX_DETAIL_STR = 4096"

definition agent_emit :: "tool_env \<Rightarrow> string \<Rightarrow> json \<Rightarrow> agent_world \<Rightarrow> agent_world" where
  "agent_emit E action detail w =
     w\<lparr>aw_events := aw_events w @
       [with_agent (audit_event_new (te_now E) AUDIT_ACTOR action detail) (te_agent_id E)]\<rparr>"

definition truncated :: "nat \<Rightarrow> string \<Rightarrow> string" where
  "truncated n s =
     (if length s \<le> n then s
      else char_floor n (utf8_chars s) @ ELLIPSIS @ ''[truncated '' @ show_nat (length s) @ '' bytes]'')"

definition record_tool_call :: "tool_env \<Rightarrow> tool_call \<Rightarrow> agent_world \<Rightarrow> agent_world" where
  "record_tool_call E c =
     agent_emit E ''agent.tool.call''
       (json_obj [(''id'', JStr (tc_id c)), (''name'', JStr (fc_name (tc_function c))),
         (''arguments'', JStr (truncated MAX_DETAIL_STR (fc_arguments (tc_function c)))),
         (''arguments_len'', JInt (int (length (fc_arguments (tc_function c)))))])"

definition record_tool_result :: "tool_env \<Rightarrow> string \<Rightarrow> string \<Rightarrow> bool \<Rightarrow> agent_world \<Rightarrow> agent_world" where
  "record_tool_result E call_id result ok =
     agent_emit E ''agent.tool.result''
       (json_obj [(''call_id'', JStr call_id), (''ok'', JBool ok), (''result_len'', JInt (int (length result))),
         (''result'', JStr (truncated MAX_DETAIL_STR result))])"

definition record_file_write :: "tool_env \<Rightarrow> string \<Rightarrow> nat \<Rightarrow> agent_world \<Rightarrow> agent_world" where
  "record_file_write E path bytes =
     agent_emit E ''agent.file.write'' (json_obj [(''path'', JStr path), (''bytes'', JInt (int bytes))])"

definition record_policy_deny :: "tool_env \<Rightarrow> string \<Rightarrow> json \<Rightarrow> agent_world \<Rightarrow> agent_world" where
  "record_policy_deny E reason detail =
     agent_emit E ''agent.policy.deny'' (json_obj [(''reason'', JStr reason), (''detail'', detail)])"

section \<open>The tools\<close>

definition MAX_TOOL_RESULT :: nat where "MAX_TOOL_RESULT = 8 * 1024"
definition SERIAL_READ_WAIT_MS :: nat where "SERIAL_READ_WAIT_MS = 5000"
definition SERIAL_SETTLE_QUIET_MS :: nat where "SERIAL_SETTLE_QUIET_MS = 150"

type_synonym tool_answer = "(agent_error + string) \<times> agent_world"

definition arg_str :: "json \<Rightarrow> string \<Rightarrow> agent_error + string" where
  "arg_str args key =
     (case Option.bind (json_get key args) as_str of
        None \<Rightarrow> Inl (ToolError (''missing string argument: '' @ key))
      | Some s \<Rightarrow> Inr s)"

definition deny :: "tool_env \<Rightarrow> string \<Rightarrow> string \<Rightarrow> agent_error \<Rightarrow> agent_world \<Rightarrow> tool_answer" where
  "deny E tool path err w =
     (Inl err,
      record_policy_deny E (agent_error_text err) (json_obj [(''tool'', JStr tool), (''path'', JStr path)]) w)"

definition tool_write_source :: "tool_env \<Rightarrow> json \<Rightarrow> agent_world \<Rightarrow> tool_answer" where
  "tool_write_source E args w =
     (case (arg_str args ''path'', arg_str args ''content'') of
        (Inl e, _) \<Rightarrow> (Inl e, w)
      | (Inr _, Inl e) \<Rightarrow> (Inl e, w)
      | (Inr path, Inr content) \<Rightarrow>
          (case check_write (te_policy E) path of
             Inl e \<Rightarrow> deny E ''write_source'' path e w
           | Inr target \<Rightarrow>
               (case te_refuse E target of
                  Some why \<Rightarrow> (Inl (IoError why), w)
                | None \<Rightarrow>
                    (Inr (''wrote '' @ show_nat (length content) @ '' bytes to '' @ path),
                     record_file_write E path (length content) (write_at (p_names target) content w)))))"

definition tool_compile :: "tool_env \<Rightarrow> json \<Rightarrow> agent_world \<Rightarrow> tool_answer" where
  "tool_compile E args w =
     (case (arg_str args ''source_path'', arg_str args ''output_elf'') of
        (Inl e, _) \<Rightarrow> (Inl e, w)
      | (Inr _, Inl e) \<Rightarrow> (Inl e, w)
      | (Inr src_rel, Inr out_rel) \<Rightarrow>
          (case check_read (te_policy E) src_rel of
             Inl e \<Rightarrow> deny E ''compile'' src_rel e w
           | Inr src \<Rightarrow>
               (case check_read (te_policy E) out_rel of
                  Inl e \<Rightarrow> deny E ''compile'' out_rel e w
                | Inr out \<Rightarrow>
                    if extension out \<noteq> Some ''elf'' then (Inl (ToolError ''output_elf must end in .elf''), w)
                    else case te_refuse E out of
                      Some why \<Rightarrow> (Inl (IoError why), w)
                    | None \<Rightarrow>
                        let w = agent_emit E ''agent.compile.start''
                              (json_obj [(''source'', JStr src_rel), (''output'', JStr out_rel)]) w
                        in case te_compile E src out of
                             Inl e \<Rightarrow> (Inl e, w)
                           | Inr res \<Rightarrow>
                               let w = (case co_elf res of None \<Rightarrow> w | Some elf \<Rightarrow> write_at (p_names out) elf w);
                                   w = agent_emit E ''agent.compile.result''
                                     (json_obj [(''ok'', JBool (co_ok res)),
                                       (''stderr'', JStr (truncated MAX_TOOL_RESULT (co_stderr res))),
                                       (''stdout'', JStr (truncated MAX_TOOL_RESULT (co_stdout res)))]) w
                               in if co_ok res then
                                    (Inr (''compiled '' @ src_rel @ '' -> '' @ out_rel @ '' (ok)''), w)
                                  else
                                    (Inl (ToolError (''compile failed:'' @ newline @
                                       (if trim (co_stderr res) = [] then trim (co_stdout res)
                                        else trim (co_stderr res)))), w))))"

definition START_ATTEMPTS :: nat where "START_ATTEMPTS = 3"

fun start_attempts :: "tool_env \<Rightarrow> fspath \<Rightarrow> nat list \<Rightarrow> string \<Rightarrow> agent_world \<Rightarrow> tool_answer" where
  "start_attempts E elf [] last_error w =
     (Inl (ToolError (''failed to start the VM after '' @ show_nat START_ATTEMPTS @ '' attempts: '' @ last_error)), w)"
| "start_attempts E elf (n # ns) last_error w =
     (case te_ports E n of
        Inl e \<Rightarrow> (Inl (ToolError e), w)
      | Inr (qmp, serial) \<Rightarrow>
          (case te_boot E n elf of
             None \<Rightarrow>
               (Inr (''VM started (qmp='' @ show_nat qmp @ '', serial='' @ show_nat serial @ '')''),
                w\<lparr>aw_vm := True\<rparr>)
           | Some e \<Rightarrow> start_attempts E elf ns (''attempt '' @ show_nat n @ '': '' @ e) w))"

definition ALREADY_RUNNING :: string where
  "ALREADY_RUNNING =
     ''a VM is already running; reuse it (compile and read_serial) instead of starting '' @
     ''another one; call stop_vm only if the user asks to stop the VM''"

definition tool_start_vm :: "tool_env \<Rightarrow> json \<Rightarrow> agent_world \<Rightarrow> tool_answer" where
  "tool_start_vm E args w =
     (if aw_vm w then (Inl (ToolError ALREADY_RUNNING), w)
      else case arg_str args ''elf_path'' of
        Inl e \<Rightarrow> (Inl e, w)
      | Inr elf_rel \<Rightarrow>
          (case check_read (te_policy E) elf_rel of
             Inl e \<Rightarrow> deny E ''start_vm'' elf_rel e w
           | Inr elf \<Rightarrow> start_attempts E elf [1 ..< Suc START_ATTEMPTS] ''unknown error'' w))"

definition NO_OUTPUT_YET :: string where
  "NO_OUTPUT_YET =
     ''No serial output yet: the guest may still be booting. '' @
     ''You can call read_serial again in a moment.''"

text \<open>One look per sample, until the output has settled or the time is up; then what there is.\<close>

fun serial_wait :: "(nat \<times> string) list \<Rightarrow> nat \<Rightarrow> nat option \<Rightarrow> string" where
  "serial_wait [] seen quiet_since = NO_OUTPUT_YET"
| "serial_wait ((now, out) # samples) seen quiet_since =
     (let quiet_since = (if seen < length out then Some now else quiet_since);
          seen = (if seen < length out then length out else seen)
      in if out \<noteq> [] \<and> (case quiet_since of None \<Rightarrow> False | Some t \<Rightarrow> SERIAL_SETTLE_QUIET_MS \<le> now - t) then out
         else if SERIAL_READ_WAIT_MS \<le> now then (if out \<noteq> [] then out else NO_OUTPUT_YET)
         else serial_wait samples seen quiet_since)"

definition tool_read_serial :: "tool_env \<Rightarrow> agent_world \<Rightarrow> tool_answer" where
  "tool_read_serial E w =
     (if \<not> aw_vm w then (Inl (ToolError ''no VM running; call start_vm first''), w)
      else (Inr (serial_wait (te_samples E) 0 None), w))"

definition tool_stop_vm :: "tool_env \<Rightarrow> agent_world \<Rightarrow> tool_answer" where
  "tool_stop_vm E w =
     (if \<not> aw_vm w then (Inl (ToolError ''no VM running''), w)
      else case te_stop E of
        Some why \<Rightarrow> (Inl (SandboxError why), w)
      | None \<Rightarrow> (Inr ''VM stopped'', w\<lparr>aw_vm := False\<rparr>))"

text \<open>Every file below the root on no hidden way, by its path from the root, sorted.\<close>

definition hidden :: "string \<Rightarrow> bool" where
  "hidden name \<longleftrightarrow> starts_with name ''.''"

definition collect_files :: "string list \<Rightarrow> agent_world \<Rightarrow> string list" where
  "collect_files dir w =
     map (\<lambda>names. forward_slashes (join_with ''/'' names))
       (filter (\<lambda>names. names \<noteq> [] \<and> \<not> list_ex hidden names)
         (map (drop (length dir)) (filter (\<lambda>p. take (length dir) p = dir) (map fst (aw_files w)))))"

definition tool_list_workspace :: "tool_env \<Rightarrow> agent_world \<Rightarrow> tool_answer" where
  "tool_list_workspace E w =
     (case te_listing E of
        Some why \<Rightarrow> (Inl (IoError why), w)
      | None \<Rightarrow>
          let files = sort (collect_files (p_names (wp_root (te_policy E))) w)
          in (Inr (if files = [] then ''(workspace is empty)'' else join_lines files), w))"

definition NO_SURFACE :: string where
  "NO_SURFACE =
     ''this host exposes no sandbox request surface; the user has to make the change '' @
     ''through the interface''"

text \<open>\<open>quoted\<close>: the debug form of a text.\<close>

definition tool_request_sandbox ::
  "(string \<Rightarrow> string) \<Rightarrow> tool_env \<Rightarrow> json \<Rightarrow> agent_world \<Rightarrow> tool_answer" where
  "tool_request_sandbox quoted E args w =
     (case arg_str args ''action'' of
        Inl e \<Rightarrow> (Inl e, w)
      | Inr action \<Rightarrow>
          if \<not> List.member [''switch'', ''define'', ''assemble''] action then
            (Inl (ToolError (''unknown action '' @ quoted action @ '': expected switch, define or assemble'')), w)
          else case te_requester E of
            None \<Rightarrow> (Inl (ToolError NO_SURFACE), w)
          | Some (request, _) \<Rightarrow>
              (case request action (Option.bind (json_get ''sandbox'' args) as_str)
                     (Option.bind (json_get ''reason'' args) as_str) of
                 Inl e \<Rightarrow> (Inl (ToolError e), w)
               | Inr i \<Rightarrow>
                   (Inr (''requested '' @ action @ ''; the id is '' @ i @ '' '' @ byte_string [226, 128, 148] @
                      '' it is waiting for approval''), w)))"

definition tool_sandbox_status :: "tool_env \<Rightarrow> agent_world \<Rightarrow> tool_answer" where
  "tool_sandbox_status E w =
     (case te_requester E of
        None \<Rightarrow> (Inl (ToolError NO_SURFACE), w)
      | Some (_, status) \<Rightarrow> (map_sum ToolError id status, w))"

definition run_tool ::
  "(string \<Rightarrow> string) \<Rightarrow> tool_env \<Rightarrow> string \<Rightarrow> json \<Rightarrow> agent_world \<Rightarrow> tool_answer" where
  "run_tool quoted E name args w =
     (if name = ''write_source'' then tool_write_source E args w
      else if name = ''compile'' then tool_compile E args w
      else if name = ''start_vm'' then tool_start_vm E args w
      else if name = ''read_serial'' then tool_read_serial E w
      else if name = ''stop_vm'' then tool_stop_vm E w
      else if name = ''list_workspace'' then tool_list_workspace E w
      else if name = ''request_sandbox'' then tool_request_sandbox quoted E args w
      else if name = ''sandbox_status'' then tool_sandbox_status E w
      else (Inl (ToolError (''unknown tool: '' @ name)), w))"

definition call_record :: "nat \<Rightarrow> string \<Rightarrow> string \<Rightarrow> tool_call" where
  "call_record n name args =
     \<lparr>tc_id = ''tool-'' @ show_nat n @ ''-'' @ name, tc_kind = ''function'',
      tc_function = \<lparr>fc_name = name, fc_arguments = args\<rparr>\<rparr>"

definition execute_tool ::
  "externs \<Rightarrow> (string \<Rightarrow> string) \<Rightarrow> tool_env \<Rightarrow> string \<Rightarrow> string \<Rightarrow> agent_world \<Rightarrow> tool_answer" where
  "execute_tool X quoted E name args w =
     (case (if trim args = [] then Some (JObj []) else x_parse X args) of
        None \<Rightarrow> (Inl (ToolError (''invalid tool arguments JSON: '' @ x_json_error X args)), w)
      | Some parsed \<Rightarrow>
          let c = call_record (aw_seq w) name args;
              w = record_tool_call E c (w\<lparr>aw_seq := aw_seq w + 1\<rparr>)
          in case run_tool quoted E name parsed w of
               (r, w) \<Rightarrow>
                 (map_sum id (truncated MAX_TOOL_RESULT) r,
                  (case r of
                     Inr text \<Rightarrow> record_tool_result E (tc_id c) text True w
                   | Inl e \<Rightarrow> record_tool_result E (tc_id c) (agent_error_text e) False w)))"

end
