(* ===== verification/Agent_Loop.thy ===== *)
theory Agent_Loop
  imports Agent_Tools
begin

text \<open>
  The agent's loop (\<open>agent/src/agent.rs\<close>) and the dispatch of tasks to executors
  (\<open>agent/src/dispatch.rs\<close>). The model is a function of the request and of how many it has
  answered: whatever a service could say.
\<close>

section \<open>State\<close>

definition MAX_MESSAGE_BYTES :: nat where "MAX_MESSAGE_BYTES = 8 * 1024"
definition CONTEXT_MAX :: nat where "CONTEXT_MAX = 40"
definition CONTEXT_KEEP :: nat where "CONTEXT_KEEP = 30"

datatype agent_outcome =
    Final string nat
  | MaxIterations string nat
  | Failed string nat

record chat_request =
  rq_model :: string
  rq_messages :: "chat_message list"
  rq_tools :: "json list option"
  rq_tool_choice :: "string option"
  rq_temperature :: "rat option"
  rq_stream :: "bool option"

text \<open>\<open>ae_hash\<close>: the request's digest in the log; \<open>ae_tools\<close>: the catalogue as JSON.\<close>

record agent_env =
  ae_config :: agent_config
  ae_quoted :: "string \<Rightarrow> string"
  ae_tool_env :: "nat \<Rightarrow> tool_env"
  ae_hash :: "chat_request \<Rightarrow> string"
  ae_tools :: "json list"
  ae_duration_ms :: "nat \<Rightarrow> nat"

type_synonym llm = "chat_request \<Rightarrow> nat \<Rightarrow> (agent_error + chat_response) \<times> stream_event list"

record agent_state =
  as_messages :: "chat_message list"
  as_world :: agent_world

definition agent_new :: "string \<Rightarrow> agent_world \<Rightarrow> agent_state" where
  "agent_new system_prompt w = \<lparr>as_messages = [message_text ''system'' system_prompt], as_world = w\<rparr>"

definition push_message :: "chat_message \<Rightarrow> agent_state \<Rightarrow> agent_state" where
  "push_message m s = s\<lparr>as_messages := as_messages s @ [m]\<rparr>"

definition push_history :: "chat_message list \<Rightarrow> agent_state \<Rightarrow> agent_state" where
  "push_history ms s = s\<lparr>as_messages := as_messages s @ ms\<rparr>"

section \<open>The context\<close>

definition truncation_note :: chat_message where
  "truncation_note = message_text ''system''
     (''[context truncated: earlier messages omitted, most recent '' @ show_nat CONTEXT_KEEP @ '' kept]'')"

definition trim_messages :: "chat_message list \<Rightarrow> chat_message list" where
  "trim_messages ms =
     (if length ms \<le> CONTEXT_MAX then ms
      else (if cm_role (hd ms) = ''system'' then [hd ms] else []) @
        truncation_note # drop (length ms - CONTEXT_KEEP) ms)"

section \<open>One turn\<close>

definition loop_emit :: "agent_env \<Rightarrow> nat \<Rightarrow> string \<Rightarrow> json \<Rightarrow> agent_state \<Rightarrow> agent_state" where
  "loop_emit E n action detail s = s\<lparr>as_world := agent_emit (ae_tool_env E n) action detail (as_world s)\<rparr>"

definition record_llm_request :: "agent_env \<Rightarrow> nat \<Rightarrow> chat_request \<Rightarrow> agent_state \<Rightarrow> agent_state" where
  "record_llm_request E n req =
     loop_emit E n ''agent.llm.request''
       (json_obj [(''model'', JStr (ac_model (ae_config E))),
         (''base_url_host'', JStr (host_of (ac_base_url (ae_config E)))),
         (''messages'', JInt (int (length (rq_messages req)))),
         (''tools'', JInt (int (case rq_tools req of None \<Rightarrow> 0 | Some ts \<Rightarrow> length ts))),
         (''request_hash'', JStr (ae_hash E req))])"

definition record_llm_response :: "agent_env \<Rightarrow> nat \<Rightarrow> chat_response \<Rightarrow> agent_state \<Rightarrow> agent_state" where
  "record_llm_response E n r =
     loop_emit E n ''agent.llm.response''
       (json_obj [(''id'', opt_str (cr_id r)), (''model'', opt_str (cr_model r)),
         (''finish_reason'', opt_str (case cr_choices r of [] \<Rightarrow> None | c # _ \<Rightarrow> ch_finish_reason c)),
         (''tool_calls'', JInt (int (case response_tool_calls r of None \<Rightarrow> 0 | Some cs \<Rightarrow> length cs))),
         (''prompt_tokens'', opt_nat (Option.bind (cr_usage r) us_prompt_tokens)),
         (''completion_tokens'', opt_nat (Option.bind (cr_usage r) us_completion_tokens)),
         (''total_tokens'', opt_nat (Option.bind (cr_usage r) us_total_tokens))])"

definition chunk_count :: "stream_event list \<Rightarrow> nat" where
  "chunk_count es = length (filter (\<lambda>e. e \<noteq> StreamDone) es)"

text \<open>One call: executed, and its answer or its error told to the model.\<close>

definition answer_call :: "externs \<Rightarrow> agent_env \<Rightarrow> nat \<Rightarrow> tool_call \<Rightarrow> agent_state \<Rightarrow> agent_state" where
  "answer_call X E n c s =
     (case execute_tool X (ae_quoted E) (ae_tool_env E n) (fc_name (tc_function c))
             (fc_arguments (tc_function c)) (as_world s) of
        (r, w) \<Rightarrow>
          push_message
            (tool_result_message (tc_id c)
              (truncated MAX_MESSAGE_BYTES
                (case r of Inl e \<Rightarrow> ''error: '' @ agent_error_text e | Inr text \<Rightarrow> text)))
            (s\<lparr>as_world := w\<rparr>))"

definition assistant_message :: "chat_message \<Rightarrow> chat_message" where
  "assistant_message m =
     \<lparr>cm_role = ''assistant'', cm_content = cm_content m,
      cm_tool_calls = (case cm_tool_calls m of None \<Rightarrow> None | Some [] \<Rightarrow> None | Some cs \<Rightarrow> Some cs),
      cm_tool_call_id = None\<rparr>"

definition last_said :: "chat_message list \<Rightarrow> string" where
  "last_said ms =
     (case Option.bind (find (\<lambda>m. cm_role m = ''assistant'') (rev ms)) cm_content of None \<Rightarrow> [] | Some c \<Rightarrow> c)"

definition request_of :: "agent_env \<Rightarrow> chat_message list \<Rightarrow> chat_request" where
  "request_of E ms =
     \<lparr>rq_model = ac_model (ae_config E), rq_messages = ms, rq_tools = Some (ae_tools E),
      rq_tool_choice = Some ''auto'', rq_temperature = Some 0, rq_stream = None\<rparr>"

text \<open>Up to the model's message: \<open>Inl\<close> ends the run.\<close>

definition ask_model ::
  "agent_env \<Rightarrow> llm \<Rightarrow> nat \<Rightarrow> agent_state \<Rightarrow> (agent_outcome + chat_message) \<times> agent_state" where
  "ask_model E llm n s =
     (let s = s\<lparr>as_messages := trim_messages (as_messages s)\<rparr>;
          req = request_of E (as_messages s);
          s = record_llm_request E n req s;
          s = loop_emit E n ''agent.llm.stream.start''
                (json_obj [(''model'', JStr (ac_model (ae_config E))),
                  (''base_url_host'', JStr (host_of (ac_base_url (ae_config E))))]) s
      in case llm req n of
        (Inl e, _) \<Rightarrow> (Inl (Failed (agent_error_text e) (n + 1)), s)
      | (Inr r, events) \<Rightarrow>
          let s = loop_emit E n ''agent.llm.stream.end''
                (json_obj [(''chunks'', JInt (int (chunk_count events))),
                  (''duration_ms'', JInt (int (ae_duration_ms E n))),
                  (''has_tool_calls'', JBool (response_tool_calls r \<noteq> None))]) s;
              s = record_llm_response E n r s
          in (case first_message r of
                None \<Rightarrow> (Inl (Failed ''model returned no choices'' (n + 1)), s)
              | Some m \<Rightarrow> (Inr m, s)))"

function agent_loop ::
  "externs \<Rightarrow> agent_env \<Rightarrow> llm \<Rightarrow> nat \<Rightarrow> agent_state \<Rightarrow> agent_outcome \<times> agent_state" where
  "agent_loop X E llm n s =
     (case ask_model E llm n s of
        (Inl out, s) \<Rightarrow> (out, s)
      | (Inr m, s) \<Rightarrow>
          let calls = (case cm_tool_calls m of None \<Rightarrow> [] | Some cs \<Rightarrow> cs);
              s = push_message (assistant_message m) s
          in if calls = [] then
               (Final (case cm_content m of None \<Rightarrow> [] | Some c \<Rightarrow> c) (n + 1), s)
             else
               let s = foldl (\<lambda>s c. answer_call X E n c s) s calls
               in if ac_max_iterations (ae_config E) \<le> n + 1 then
                    (MaxIterations (last_said (as_messages s)) (n + 1), s)
                  else agent_loop X E llm (n + 1) s)"
  by pat_completeness auto
termination agent_loop
  by (relation "measure (\<lambda>(X, E, llm, n, s). ac_max_iterations (ae_config E) - n)") auto

declare agent_loop.simps [simp del]

definition agent_run ::
  "externs \<Rightarrow> agent_env \<Rightarrow> llm \<Rightarrow> string \<Rightarrow> agent_state \<Rightarrow> agent_outcome \<times> agent_state" where
  "agent_run X E llm input s =
     (case validate_config (ae_quoted E) (ae_config E) of
        Inl e \<Rightarrow> (Failed (agent_error_text e) 0, s)
      | Inr _ \<Rightarrow>
          let user = truncated MAX_MESSAGE_BYTES input;
              s = loop_emit E 0 ''agent.user.input''
                    (json_obj [(''chars'', JInt (int (length input))), (''text'', JStr user)]) s
          in agent_loop X E llm 0 (push_message (message_text ''user'' user) s))"

section \<open>Dispatch\<close>

record task =
  tk_id :: string
  tk_target :: string
  tk_input :: string
  tk_sandbox :: "string option"
  tk_instance :: "string option"

definition next_task_id :: "identity_state \<Rightarrow> nat \<Rightarrow> string \<times> nat" where
  "next_task_id s seq = (''task-'' @ mint_identity (device s) (id_pid s) (seq + 1), seq + 1)"

definition task_new :: "string \<Rightarrow> string \<Rightarrow> string \<Rightarrow> task" where
  "task_new i target input =
     \<lparr>tk_id = i, tk_target = target, tk_input = input, tk_sandbox = None, tk_instance = None\<rparr>"

record task_outcome =
  to_task_id :: string
  to_agent_id :: string
  to_outcome :: agent_outcome

datatype dispatch_error = NoSuchAgent string | DispatchFailed string

text \<open>An executor: its identity and what it makes of a task.\<close>

record agent_handle =
  ah_agent_id :: string
  ah_run :: "task \<Rightarrow> dispatch_error + task_outcome"

definition local_dispatch :: "agent_handle list \<Rightarrow> task \<Rightarrow> dispatch_error + task_outcome" where
  "local_dispatch handles t =
     (case find (\<lambda>h. ah_agent_id h = tk_target t) handles of
        None \<Rightarrow> Inl (NoSuchAgent (tk_target t))
      | Some h \<Rightarrow> ah_run h t)"

definition local_agent ::
  "externs \<Rightarrow> agent_env \<Rightarrow> llm \<Rightarrow> string \<Rightarrow> agent_state \<Rightarrow> task \<Rightarrow>
   (dispatch_error + task_outcome) \<times> agent_state" where
  "local_agent X E llm agent_id s t =
     (case agent_run X E llm (tk_input t) s of
        (out, s) \<Rightarrow>
          (Inr \<lparr>to_task_id = tk_id t, to_agent_id = agent_id, to_outcome = out\<rparr>, s))"

end
