(* ===== verification/Agent_Facts.thy ===== *)
theory Agent_Facts
  imports Agent_Loop
begin

text \<open>
  What every step of an agent keeps. The interface is a relation between the world before and after
  that a tool call and an emitted event respect; a whole run then respects it. It is provided
  three times: by the files a run may touch, by the log it only adds to, and by the calls it brackets.
\<close>

section \<open>One turn of the loop\<close>

definition calls_of :: "chat_message \<Rightarrow> tool_call list" where
  "calls_of m = (case cm_tool_calls m of None \<Rightarrow> [] | Some cs \<Rightarrow> cs)"

definition answered :: "externs \<Rightarrow> agent_env \<Rightarrow> nat \<Rightarrow> chat_message \<Rightarrow> agent_state \<Rightarrow> agent_state" where
  "answered X E n m s = foldl (\<lambda>s c. answer_call X E n c s) (push_message (assistant_message m) s) (calls_of m)"

lemma loop_failed: "ask_model E llm n s = (Inl out, v) \<Longrightarrow> agent_loop X E llm n s = (out, v)"
  by (simp add: agent_loop.simps)

lemma loop_turn:
  "ask_model E llm n s = (Inr m, v) \<Longrightarrow>
   agent_loop X E llm n s =
     (if calls_of m = [] then
        (Final (case cm_content m of None \<Rightarrow> [] | Some c \<Rightarrow> c) (n + 1), push_message (assistant_message m) v)
      else if ac_max_iterations (ae_config E) \<le> n + 1 then
        (MaxIterations (last_said (as_messages (answered X E n m v))) (n + 1), answered X E n m v)
      else agent_loop X E llm (n + 1) (answered X E n m v))"
  by (subst agent_loop.simps) (simp add: Let_def calls_of_def answered_def)

lemma loop_induct:
  assumes "\<And>n s. (\<And>m v. ask_model E llm n s = (Inr m, v) \<Longrightarrow> calls_of m \<noteq> [] \<Longrightarrow>
      n + 1 < ac_max_iterations (ae_config E) \<Longrightarrow> P (n + 1) (answered X E n m v)) \<Longrightarrow> P n s"
  shows "P n s"
proof (induction "ac_max_iterations (ae_config E) - n" arbitrary: n s rule: less_induct)
  case less
  show ?case by (rule assms, rule less) simp
qed

section \<open>The interface\<close>

definition LOOP_ACTIONS :: "string list" where
  "LOOP_ACTIONS = [''agent.user.input'', ''agent.llm.request'', ''agent.llm.response'',
     ''agent.llm.stream.start'', ''agent.llm.stream.end'']"

lemma loop_actions:
  "''agent.user.input'' \<in> set LOOP_ACTIONS" "''agent.llm.request'' \<in> set LOOP_ACTIONS"
  "''agent.llm.response'' \<in> set LOOP_ACTIONS" "''agent.llm.stream.start'' \<in> set LOOP_ACTIONS"
  "''agent.llm.stream.end'' \<in> set LOOP_ACTIONS"
  by (simp_all add: LOOP_ACTIONS_def)

locale agent_relation =
  fixes related :: "agent_env \<Rightarrow> agent_world \<Rightarrow> agent_world \<Rightarrow> bool"
  assumes related_refl: "related E w w"
    and related_trans: "related E u v \<Longrightarrow> related E v w \<Longrightarrow> related E u w"
    and related_emit:
      "action \<in> set LOOP_ACTIONS \<Longrightarrow> related E w (agent_emit (ae_tool_env E n) action detail w)"
    and related_tool:
      "related E w (snd (execute_tool X (ae_quoted E) (ae_tool_env E n) name args w))"
begin

definition step_related :: "agent_env \<Rightarrow> agent_state \<Rightarrow> agent_state \<Rightarrow> bool" where
  "step_related E s t \<longleftrightarrow> related E (as_world s) (as_world t)"

lemma step_trans: "step_related E s t \<Longrightarrow> step_related E t u \<Longrightarrow> step_related E s u"
  by (auto simp: step_related_def intro: related_trans)

lemma step_same [simp]:
  "step_related E s s"
  "step_related E s (push_message m t) = step_related E s t"
  "step_related E (push_message m s) t = step_related E s t"
  "step_related E (s\<lparr>as_messages := ms\<rparr>) t = step_related E s t"
  by (simp_all add: step_related_def push_message_def related_refl)

lemma step_emit:
  "action \<in> set LOOP_ACTIONS \<Longrightarrow> step_related E s (loop_emit E n action detail s)"
  by (simp add: step_related_def loop_emit_def related_emit)

lemma step_records:
  "step_related E s (record_llm_request E n req s)"
  "step_related E s (record_llm_response E n r s)"
  unfolding record_llm_request_def record_llm_response_def by (rule step_emit, rule loop_actions)+

lemma step_answer: "step_related E s (answer_call X E n c s)"
proof -
  obtain r w where x: "execute_tool X (ae_quoted E) (ae_tool_env E n) (fc_name (tc_function c))
      (fc_arguments (tc_function c)) (as_world s) = (r, w)"
    by fastforce
  then have "related E (as_world s) w"
    using related_tool [of E "as_world s" X n] by (metis snd_conv)
  then show ?thesis
    by (simp add: answer_call_def x) (simp add: step_related_def)
qed

lemma step_answers: "step_related E s (foldl (\<lambda>s c. answer_call X E n c s) s cs)"
  by (induction cs arbitrary: s) (auto intro: step_answer step_trans)

lemma step_ask: "step_related E s (snd (ask_model E llm n s))"
proof -
  have start: "step_related E s (loop_emit E n ''agent.llm.stream.start'' d
      (record_llm_request E n req (s\<lparr>as_messages := ms\<rparr>)))" for d req ms
    using step_records(1) [of E "s\<lparr>as_messages := ms\<rparr>" n req]
    by (intro step_trans [OF _ step_emit [OF loop_actions(4)]]) simp
  have finish: "step_related E t (record_llm_response E n r (loop_emit E n ''agent.llm.stream.end'' d t))" for t r d
    by (rule step_trans [OF step_emit [OF loop_actions(5)] step_records(2)])
  show ?thesis
    unfolding ask_model_def Let_def
    by (auto split: prod.splits sum.splits option.splits intro: start step_trans [OF start finish])
qed

lemma step_answered: "step_related E s (answered X E n m s)"
  using step_answers [of E "push_message (assistant_message m) s"] by (simp add: answered_def)

lemma step_loop: "step_related E s (snd (agent_loop X E llm n s))"
proof (induction n s rule: loop_induct [where E = E and llm = llm and X = X])
  case (1 n s)
  obtain got v where ask: "ask_model E llm n s = (got, v)" by fastforce
  then have v: "step_related E s v" using step_ask [of E s llm n] by simp
  show ?case
  proof (cases got)
    case (Inl out)
    then show ?thesis using v ask by (simp add: loop_failed)
  next
    case (Inr m)
    then show ?thesis
      using ask 1 [of m v] v step_trans [OF v step_answered] step_trans [OF step_trans [OF v step_answered]]
      by (auto simp: loop_turn)
  qed
qed

lemma run_related: "related E (as_world s) (as_world (snd (agent_run X E llm input s)))"
proof -
  have heard: "step_related E s (snd (agent_loop X E llm 0 (push_message m
      (loop_emit E 0 ''agent.user.input'' d s))))" for m d
  proof (rule step_trans [OF step_emit [OF loop_actions(1)]])
    show "step_related E (loop_emit E 0 ''agent.user.input'' d s)
        (snd (agent_loop X E llm 0 (push_message m (loop_emit E 0 ''agent.user.input'' d s))))"
      by (subst step_same(3) [symmetric], rule step_loop)
  qed
  have "step_related E s (snd (agent_run X E llm input s))"
    unfolding agent_run_def Let_def by (cases "validate_config (ae_quoted E) (ae_config E)") (simp_all add: heard)
  then show ?thesis by (simp add: step_related_def)
qed

end

end
