(* ===== verification/Agent_Effects.thy ===== *)
theory Agent_Effects
  imports Agent_Facts
begin

text \<open>
  The interface of \<open>agent_relation\<close> on the model: the files a run may touch, the log it adds to
  with its calls bracketed, and what the key of the service has to do with either.
\<close>

section \<open>Files\<close>

text \<open>Below the root by plain names, with the extension of a source the policy allows or of an ELF.\<close>

definition in_workspace :: "workspace_policy \<Rightarrow> string list \<Rightarrow> bool" where
  "in_workspace P p \<longleftrightarrow>
     (let depth = length (p_names (wp_root P));
          ext = dotted_extension \<lparr>p_rooted = True, p_names = p\<rparr>
      in take depth p = p_names (wp_root P) \<and> list_all plain_name (drop depth p) \<and>
         (ext = ''.elf'' \<or> list_ex (\<lambda>allowed. eq_ignore_ascii_case allowed ext) (wp_extensions P)))"

lemma resolve_inside:
  assumes "policy_resolve P s = Inr q" and "p_rooted (wp_root P)"
  shows "p_rooted q \<and> take (length (p_names (wp_root P))) (p_names q) = p_names (wp_root P) \<and>
    list_all plain_name (drop (length (p_names (wp_root P))) (p_names q))"
proof -
  have par: "ParentDir \<notin> set (below s)" and start: "starts_with_path q (wp_root P)"
    using assms(1) by (auto simp: policy_resolve_def parent_below Let_def split: if_splits)
  have plain: "list_all plain_name (names_in (below s))"
    using names_below by (auto simp: list_all_iff)
  have down: "push_all (below s) r = r\<lparr>p_names := p_names r @ names_in (below s)\<rparr>" for r
    by (rule push_all_down) (use par below_no_root in auto)
  have inside: "p_rooted q \<and> take (length (p_names (wp_root P))) (p_names q) = p_names (wp_root P)"
    using start assms(2) by (simp add: starts_with_path_def)
  have q: "q = (if looks_absolute s then normalize s else push_all (components s) (wp_root P))"
    using assms(1) by (auto simp: policy_resolve_def Let_def split: if_splits)
  have "list_all plain_name (drop (length (p_names (wp_root P))) (p_names q))"
  proof (cases "starts_with s ''/''")
    case True
    then have "p_names q = names_in (below s)"
      by (simp add: q looks_absolute_def normalize_def components_below down)
    then show ?thesis using plain by (auto simp: list_all_iff dest: in_set_dropD)
  next
    case False
    then have "p_names q = p_names (wp_root P) @ names_in (below s)"
      by (simp add: q looks_absolute_def components_below down)
    then show ?thesis using plain by simp
  qed
  then show ?thesis using inside by blast
qed

lemma dotted_extension_names: "dotted_extension \<lparr>p_rooted = True, p_names = p_names q\<rparr> = dotted_extension q"
  by (simp add: dotted_extension_def extension_def)

lemma written_in_workspace:
  assumes "check_write P s = Inr q" and "p_rooted (wp_root P)"
  shows "in_workspace P (p_names q)"
proof -
  have r: "policy_resolve P s = Inr q"
    and x: "list_ex (\<lambda>allowed. eq_ignore_ascii_case allowed (dotted_extension q)) (wp_extensions P)"
    using assms(1) by (auto simp: check_write_def Let_def bind_result_def split: sum.splits if_splits)
  show ?thesis
    using resolve_inside [OF r assms(2)] x by (simp add: in_workspace_def Let_def dotted_extension_names)
qed

lemma built_in_workspace:
  assumes "check_read P s = Inr q" and "p_rooted (wp_root P)" and "extension q = Some ''elf''"
  shows "in_workspace P (p_names q)"
proof -
  have r: "policy_resolve P s = Inr q"
    using assms(1) by (simp add: check_read_def)
  have "dotted_extension q = ''.elf''"
    using assms(3) by (simp add: dotted_extension_def)
  then show ?thesis
    using resolve_inside [OF r assms(2)] by (simp add: in_workspace_def Let_def dotted_extension_names)
qed

definition other_files :: "workspace_policy \<Rightarrow> agent_world \<Rightarrow> (string list \<times> string) list" where
  "other_files P w = filter (\<lambda>e. p_rooted (wp_root P) \<and> \<not> in_workspace P (fst e)) (aw_files w)"

lemma other_files_write:
  "(p_rooted (wp_root P) \<Longrightarrow> in_workspace P p) \<Longrightarrow> other_files P (write_at p content w) = other_files P w"
  by (auto simp: other_files_def write_at_def intro: filter_cong)

lemma other_files_cong [simp]:
  "other_files P (agent_emit E a d w) = other_files P w"
  "other_files P (w\<lparr>aw_vm := b\<rparr>) = other_files P w"
  "other_files P (w\<lparr>aw_seq := n\<rparr>) = other_files P w"
  by (simp_all add: other_files_def agent_emit_def)

lemma start_attempts_keeps [simp]:
  "other_files P (snd (start_attempts E elf ns e w)) = other_files P w"
  "aw_events (snd (start_attempts E elf ns e w)) = aw_events w"
  "aw_seq (snd (start_attempts E elf ns e w)) = aw_seq w"
  by (induction ns arbitrary: e) (auto split: sum.splits prod.splits option.splits)

lemma run_tool_files: "other_files (te_policy E) (snd (run_tool quoted E name args w)) = other_files (te_policy E) w"
proof -
  have "other_files (te_policy E) (snd (tool_write_source E args w)) = other_files (te_policy E) w"
    by (auto simp: tool_write_source_def deny_def record_policy_deny_def record_file_write_def
        intro!: other_files_write [THEN trans] written_in_workspace split: sum.splits option.splits)
  moreover have "other_files (te_policy E) (snd (tool_compile E args w)) = other_files (te_policy E) w"
    by (auto simp: tool_compile_def deny_def record_policy_deny_def Let_def
        intro!: other_files_write [THEN trans] built_in_workspace split: sum.splits option.splits)
  moreover have "other_files (te_policy E) (snd (tool_start_vm E args w)) = other_files (te_policy E) w"
    by (auto simp: tool_start_vm_def deny_def record_policy_deny_def split: sum.splits)
  moreover have "other_files P (snd (tool_read_serial E w)) = other_files P w"
    "other_files P (snd (tool_stop_vm E w)) = other_files P w"
    "other_files P (snd (tool_list_workspace E w)) = other_files P w"
    "other_files P (snd (tool_request_sandbox quoted E args w)) = other_files P w"
    "other_files P (snd (tool_sandbox_status E w)) = other_files P w" for P
    by (auto simp: tool_read_serial_def tool_stop_vm_def tool_list_workspace_def Let_def
        tool_request_sandbox_def tool_sandbox_status_def split: sum.splits option.splits prod.splits)
  ultimately show ?thesis by (simp add: run_tool_def)
qed

text \<open>A call that is run: recorded, run, its result recorded.\<close>

lemma execute_tool_cases:
  obtains (malformed) "snd (execute_tool X quoted E name args w) = w"
  | (ran) parsed said ok where
    "snd (execute_tool X quoted E name args w) =
       record_tool_result E (tc_id (call_record (aw_seq w) name args)) said ok
         (snd (run_tool quoted E name parsed
            (record_tool_call E (call_record (aw_seq w) name args) (w\<lparr>aw_seq := aw_seq w + 1\<rparr>))))"
proof -
  show ?thesis
  proof (cases "if trim args = [] then Some (JObj []) else x_parse X args")
    case None
    then show ?thesis by (intro that(1)) (simp add: execute_tool_def)
  next
    case (Some parsed)
    obtain r v where run: "run_tool quoted E name parsed (record_tool_call E (call_record (aw_seq w) name args)
        (w\<lparr>aw_seq := aw_seq w + 1\<rparr>)) = (r, v)" by fastforce
    show ?thesis
    proof (rule that(2) [of "case r of Inr said \<Rightarrow> said | Inl e \<Rightarrow> agent_error_text e"
          "case r of Inr _ \<Rightarrow> True | Inl _ \<Rightarrow> False" parsed])
      show "snd (execute_tool X quoted E name args w) =
          record_tool_result E (tc_id (call_record (aw_seq w) name args))
            (case r of Inr said \<Rightarrow> said | Inl e \<Rightarrow> agent_error_text e) (case r of Inr _ \<Rightarrow> True | Inl _ \<Rightarrow> False)
            (snd (run_tool quoted E name parsed
               (record_tool_call E (call_record (aw_seq w) name args) (w\<lparr>aw_seq := aw_seq w + 1\<rparr>))))"
        using run Some by (cases r) (simp_all add: execute_tool_def Let_def)
    qed
  qed
qed

lemma execute_tool_files:
  "other_files (te_policy E) (snd (execute_tool X quoted E name args w)) = other_files (te_policy E) w"
proof (cases rule: execute_tool_cases [of X quoted E name args w])
  case (ran parsed said ok)
  then show ?thesis
    by (simp add: record_tool_result_def run_tool_files) (simp add: record_tool_call_def)
qed simp

definition files_kept :: "agent_env \<Rightarrow> agent_world \<Rightarrow> agent_world \<Rightarrow> bool" where
  "files_kept E w v \<longleftrightarrow> (\<forall>P. (\<forall>n. te_policy (ae_tool_env E n) = P) \<longrightarrow> other_files P v = other_files P w)"

interpretation kept_files: agent_relation files_kept
proof unfold_locales
  show "files_kept E w (snd (execute_tool X (ae_quoted E) (ae_tool_env E n) name args w))" for E X n name args w
    unfolding files_kept_def using execute_tool_files [of "ae_tool_env E n" X "ae_quoted E" name args w] by metis
qed (auto simp: files_kept_def)

section \<open>The log\<close>

definition TOOL_ACTIONS :: "string list" where
  "TOOL_ACTIONS = [''agent.file.write'', ''agent.policy.deny'', ''agent.compile.start'', ''agent.compile.result'']"

definition adds_only :: "string list \<Rightarrow> agent_world \<Rightarrow> agent_world \<Rightarrow> bool" where
  "adds_only actions w v \<longleftrightarrow>
     aw_seq v = aw_seq w \<and>
     (\<exists>es. aw_events v = aw_events w @ es \<and> (\<forall>e \<in> set es. ev_action e \<in> set actions))"

lemma adds_refl [simp]: "adds_only actions w w"
  by (simp add: adds_only_def)

lemma adds_trans: "adds_only actions u v \<Longrightarrow> adds_only actions v w \<Longrightarrow> adds_only actions u w"
  unfolding adds_only_def by (metis Un_iff append_assoc set_append)

lemma adds_emit: "a \<in> set actions \<Longrightarrow> adds_only actions w (agent_emit E a d w)"
  by (simp add: adds_only_def agent_emit_def audit_event_new_def with_agent_def)

lemma adds_same [simp]:
  "adds_only actions w (write_at p c v) = adds_only actions w v"
  "adds_only actions (write_at p c v) w = adds_only actions v w"
  "adds_only actions w (v\<lparr>aw_vm := b\<rparr>) = adds_only actions w v"
  "adds_only actions w (snd (start_attempts E elf ns e v)) = adds_only actions w v"
  by (simp_all add: adds_only_def write_at_def)

lemma tool_emits:
  "adds_only TOOL_ACTIONS w (record_file_write E p n w)"
  "adds_only TOOL_ACTIONS w (record_policy_deny E r d w)"
  "adds_only TOOL_ACTIONS w (agent_emit E ''agent.compile.start'' d w)"
  "adds_only TOOL_ACTIONS w (agent_emit E ''agent.compile.result'' d w)"
  unfolding record_file_write_def record_policy_deny_def by (rule adds_emit, simp add: TOOL_ACTIONS_def)+

lemma run_tool_adds: "adds_only TOOL_ACTIONS w (snd (run_tool quoted E name args w))"
proof -
  have "adds_only TOOL_ACTIONS w (record_file_write E p n (write_at q c w))" for p n q c
    using tool_emits(1) [of "write_at q c w"] by simp
  then have "adds_only TOOL_ACTIONS w (snd (tool_write_source E args w))"
    by (auto simp: tool_write_source_def deny_def tool_emits split: sum.splits option.splits)
  moreover have "adds_only TOOL_ACTIONS w (agent_emit E ''agent.compile.result'' d
      (write_at q c (agent_emit E ''agent.compile.start'' d' w)))" for d d' q c
    using adds_trans [OF tool_emits(3) tool_emits(4) [of "write_at q c _", unfolded adds_same]] .
  then have "adds_only TOOL_ACTIONS w (snd (tool_compile E args w))"
    by (auto simp: tool_compile_def deny_def Let_def tool_emits intro: adds_trans [OF tool_emits(3) tool_emits(4)]
        split: sum.splits option.splits)
  moreover have "adds_only TOOL_ACTIONS w (snd (tool_start_vm E args w))"
    by (auto simp: tool_start_vm_def deny_def tool_emits split: sum.splits)
  moreover have "adds_only TOOL_ACTIONS w (snd (tool_read_serial E w))"
    "adds_only TOOL_ACTIONS w (snd (tool_stop_vm E w))"
    "adds_only TOOL_ACTIONS w (snd (tool_list_workspace E w))"
    "adds_only TOOL_ACTIONS w (snd (tool_request_sandbox quoted E args w))"
    "adds_only TOOL_ACTIONS w (snd (tool_sandbox_status E w))"
    by (auto simp: tool_read_serial_def tool_stop_vm_def tool_list_workspace_def Let_def
        tool_request_sandbox_def tool_sandbox_status_def split: sum.splits option.splits prod.splits)
  ultimately show ?thesis by (simp add: run_tool_def)
qed

text \<open>What the log says of the tool calls, in order: each call and each result, with its id.\<close>

definition text_member :: "string \<Rightarrow> audit_event \<Rightarrow> string" where
  "text_member k ev = (case Option.bind (json_get k (ev_detail ev)) as_str of None \<Rightarrow> [] | Some s \<Rightarrow> s)"

definition tool_mark :: "audit_event \<Rightarrow> (string \<times> string) list" where
  "tool_mark ev =
     (if ev_action ev = ''agent.tool.call'' then [(''call'', text_member ''id'' ev)]
      else if ev_action ev = ''agent.tool.result'' then [(''result'', text_member ''call_id'' ev)]
      else [])"

definition tool_marks :: "audit_event list \<Rightarrow> (string \<times> string) list" where
  "tool_marks es = concat (map tool_mark es)"

definition tool_id :: "nat \<Rightarrow> string \<Rightarrow> string" where
  "tool_id n name = ''tool-'' @ show_nat n @ ''-'' @ name"

fun brackets :: "nat \<Rightarrow> string list \<Rightarrow> (string \<times> string) list" where
  "brackets n [] = []"
| "brackets n (name # names) = (''call'', tool_id n name) # (''result'', tool_id n name) # brackets (n + 1) names"

lemma brackets_append: "brackets n (xs @ ys) = brackets n xs @ brackets (n + length xs) ys"
  by (induction xs arbitrary: n) simp_all

lemma tool_id_number: "tool_id m a = tool_id n b \<Longrightarrow> m = n"
proof -
  assume same: "tool_id m a = tool_id n b"
  have cut: "takeWhile (\<lambda>c. c \<noteq> CHR ''-'') (show_nat k @ ''-'' @ rest) = show_nat k" for k rest
    using show_nat_no_minus [of k] by (subst takeWhile_append2) auto
  have "show_nat m @ ''-'' @ a = show_nat n @ ''-'' @ b"
    using same by (simp add: tool_id_def)
  then have "show_nat m = show_nat n"
    using cut [of m a] cut [of n b] by simp
  then show "m = n" by (rule show_nat_inj)
qed

lemma brackets_ids: "(k, i) \<in> set (brackets n names) \<Longrightarrow> \<exists>m \<ge> n. \<exists>a. i = tool_id m a"
  by (induction n names rule: brackets.induct) (auto dest: Suc_leD)

lemma brackets_distinct: "distinct (brackets n names)"
proof (induction n names rule: brackets.induct)
  case (2 n name names)
  have "(k, tool_id n name) \<notin> set (brackets (n + 1) names)" for k
    using brackets_ids [of k "tool_id n name" "n + 1" names] tool_id_number by fastforce
  then show ?case using 2 by simp
qed simp

definition bracketed :: "agent_env \<Rightarrow> agent_world \<Rightarrow> agent_world \<Rightarrow> bool" where
  "bracketed E w v \<longleftrightarrow>
     (\<exists>es names. aw_events v = aw_events w @ es \<and> aw_seq v = aw_seq w + length names \<and>
        tool_marks es = brackets (aw_seq w) names)"

lemma other_actions:
  "''agent.tool.call'' \<notin> set LOOP_ACTIONS" "''agent.tool.result'' \<notin> set LOOP_ACTIONS"
  "''agent.tool.call'' \<notin> set TOOL_ACTIONS" "''agent.tool.result'' \<notin> set TOOL_ACTIONS"
  "''agent.llm.request'' \<notin> set TOOL_ACTIONS"
  by (simp_all add: LOOP_ACTIONS_def TOOL_ACTIONS_def)

lemma no_mark: "ev_action e \<in> set LOOP_ACTIONS \<union> set TOOL_ACTIONS \<Longrightarrow> tool_mark e = []"
  unfolding tool_mark_def using other_actions by (metis Un_iff)

lemma no_marks: "(\<forall>e \<in> set es. ev_action e \<in> set LOOP_ACTIONS \<union> set TOOL_ACTIONS) \<Longrightarrow> tool_marks es = []"
  by (simp add: tool_marks_def no_mark)

lemma marks_append [simp]: "tool_marks (xs @ ys) = tool_marks xs @ tool_marks ys"
  by (simp add: tool_marks_def)

lemma bracketed_trans:
  assumes "bracketed E u v" and "bracketed E v w"
  shows "bracketed E u w"
proof -
  obtain es xs where a: "aw_events v = aw_events u @ es" "aw_seq v = aw_seq u + length xs"
      "tool_marks es = brackets (aw_seq u) xs"
    using assms(1) by (auto simp: bracketed_def)
  obtain fs ys where b: "aw_events w = aw_events v @ fs" "aw_seq w = aw_seq v + length ys"
      "tool_marks fs = brackets (aw_seq v) ys"
    using assms(2) by (auto simp: bracketed_def)
  show ?thesis
    unfolding bracketed_def
    by (rule exI [of _ "es @ fs"], rule exI [of _ "xs @ ys"]) (simp add: a b brackets_append)
qed

lemma record_call_mark:
  "\<exists>a. aw_events (record_tool_call E c w) = aw_events w @ [a] \<and> tool_mark a = [(''call'', tc_id c)]"
  by (simp add: record_tool_call_def agent_emit_def tool_mark_def text_member_def audit_event_new_def
      with_agent_def json_get_obj)

lemma record_result_mark:
  "\<exists>a. aw_events (record_tool_result E i said ok w) = aw_events w @ [a] \<and> tool_mark a = [(''result'', i)]"
  by (simp add: record_tool_result_def agent_emit_def tool_mark_def text_member_def audit_event_new_def
      with_agent_def json_get_obj)

lemma record_seq [simp]:
  "aw_seq (record_tool_call E c w) = aw_seq w" "aw_seq (record_tool_result E i said ok w) = aw_seq w"
  by (simp_all add: record_tool_call_def record_tool_result_def agent_emit_def)

lemma execute_tool_bracketed: "bracketed F w (snd (execute_tool X quoted E name args w))"
proof (cases rule: execute_tool_cases [of X quoted E name args w])
  case malformed
  then show ?thesis by (auto simp: bracketed_def tool_marks_def intro: exI [of _ "[]"])
next
  case (ran parsed said ok)
  let ?c = "call_record (aw_seq w) name args"
  let ?u = "record_tool_call E ?c (w\<lparr>aw_seq := aw_seq w + 1\<rparr>)"
  obtain es where es: "aw_events (snd (run_tool quoted E name parsed ?u)) = aw_events ?u @ es"
      "tool_marks es = []" "aw_seq (snd (run_tool quoted E name parsed ?u)) = aw_seq ?u"
    using run_tool_adds [of ?u quoted E name parsed] no_marks unfolding adds_only_def by blast
  have i: "tc_id ?c = tool_id (aw_seq w) name"
    by (simp add: call_record_def tool_id_def)
  obtain a where a: "aw_events ?u = aw_events w @ [a]" "tool_mark a = [(''call'', tool_id (aw_seq w) name)]"
    using record_call_mark [of E ?c "w\<lparr>aw_seq := aw_seq w + 1\<rparr>"] i by auto
  obtain b where b: "aw_events (snd (execute_tool X quoted E name args w)) = (aw_events ?u @ es) @ [b]"
      "tool_mark b = [(''result'', tool_id (aw_seq w) name)]"
    using record_result_mark [of E "tc_id ?c" said ok "snd (run_tool quoted E name parsed ?u)"] ran es(1) i by auto
  have n: "aw_seq (snd (execute_tool X quoted E name args w)) = aw_seq w + 1"
    using es(3) by (simp add: ran)
  show ?thesis
    unfolding bracketed_def
    by (rule exI [of _ "a # es @ [b]"], rule exI [of _ "[name]"])
      (use a b n es(2) in \<open>simp add: tool_marks_def\<close>)
qed

interpretation bracketed_calls: agent_relation bracketed
proof unfold_locales
  show "bracketed E w w" for E w
    by (auto simp: bracketed_def tool_marks_def intro: exI [of _ "[]"])
  show "action \<in> set LOOP_ACTIONS \<Longrightarrow> bracketed E w (agent_emit (ae_tool_env E n) action d w)" for E w action n d
    using adds_emit [of action LOOP_ACTIONS w "ae_tool_env E n" d] no_marks
    unfolding adds_only_def bracketed_def by (metis UnI1 add.right_neutral brackets.simps(1) list.size(3))
qed (auto intro: bracketed_trans execute_tool_bracketed)

section \<open>How often the model is asked\<close>

definition asked :: "agent_state \<Rightarrow> nat" where
  "asked s = length (filter (\<lambda>e. ev_action e = ''agent.llm.request'') (aw_events (as_world s)))"

fun iterations_of :: "agent_outcome \<Rightarrow> nat" where
  "iterations_of (Final _ n) = n"
| "iterations_of (MaxIterations _ n) = n"
| "iterations_of (Failed _ n) = n"

lemma asked_cong [simp]:
  "asked (push_message m s) = asked s" "asked (s\<lparr>as_messages := ms\<rparr>) = asked s"
  by (simp_all add: asked_def push_message_def)

lemma asked_emit:
  "asked (loop_emit E n action d s) = asked s + (if action = ''agent.llm.request'' then 1 else 0)"
  by (simp add: asked_def loop_emit_def agent_emit_def audit_event_new_def with_agent_def)

lemma asked_records [simp]:
  "asked (record_llm_request E n req s) = asked s + 1" "asked (record_llm_response E n r s) = asked s"
  "asked (loop_emit E n ''agent.llm.stream.start'' d s) = asked s"
  "asked (loop_emit E n ''agent.llm.stream.end'' d s) = asked s"
  "asked (loop_emit E n ''agent.user.input'' d s) = asked s"
  by (simp_all add: record_llm_request_def record_llm_response_def asked_emit)

definition asks_in :: "agent_world \<Rightarrow> nat" where
  "asks_in w = length (filter (\<lambda>e. ev_action e = ''agent.llm.request'') (aw_events w))"

lemma asks_kept: "adds_only TOOL_ACTIONS w v \<Longrightarrow> asks_in v = asks_in w"
  unfolding adds_only_def asks_in_def using other_actions(5) by (auto simp: filter_empty_conv) metis

lemma execute_tool_asks: "asks_in (snd (execute_tool X quoted E name args w)) = asks_in w"
proof (cases rule: execute_tool_cases [of X quoted E name args w])
  case (ran parsed said ok)
  have "asks_in (record_tool_call E c v) = asks_in v" "asks_in (record_tool_result E i t ok v) = asks_in v" for c v i t ok
    by (simp_all add: asks_in_def record_tool_call_def record_tool_result_def agent_emit_def audit_event_new_def
        with_agent_def)
  then show ?thesis
    using ran asks_kept [OF run_tool_adds] by (simp add: asks_in_def)
qed simp

lemma asked_answers: "asked (foldl (\<lambda>s c. answer_call X E n c s) s cs) = asked s"
proof -
  have "asked (answer_call X E n c s) = asked s" for c s
    using execute_tool_asks [of X "ae_quoted E" "ae_tool_env E n"]
    by (simp add: answer_call_def asks_in_def split: prod.split) (simp add: asked_def, metis snd_conv)
  then show ?thesis by (induction cs arbitrary: s) simp_all
qed

lemma asked_model: "ask_model E llm n s = (got, t) \<Longrightarrow> asked t = asked s + 1"
  by (auto simp: ask_model_def Let_def split: prod.splits sum.splits option.splits)

lemma ask_model_counts: "ask_model E llm n s = (Inl out, t) \<Longrightarrow> iterations_of out = n + 1"
  by (auto simp: ask_model_def Let_def split: prod.splits sum.splits option.splits)

lemma loop_counts:
  "agent_loop X E llm n s = (out, t) \<Longrightarrow>
   n < iterations_of out \<and> iterations_of out \<le> max (n + 1) (ac_max_iterations (ae_config E)) \<and>
   asked t = asked s + (iterations_of out - n)"
proof (induction n s arbitrary: out t rule: loop_induct [where E = E and llm = llm and X = X])
  case (1 n s)
  obtain got v where ask: "ask_model E llm n s = (got, v)" by fastforce
  note grown = asked_model [OF ask]
  show ?case
  proof (cases got)
    case (Inl o')
    then show ?thesis
      using 1(2) ask grown ask_model_counts by (auto simp: loop_failed)
  next
    case (Inr m)
    have "asked (answered X E n m v) = asked s + 1"
      using grown by (simp add: answered_def asked_answers)
    then show ?thesis
      using 1(2) 1(1) [of m v out t] ask grown Inr by (auto simp: loop_turn split: if_splits)
  qed
qed

end
