(* ===== verification/Agent_Replies.thy ===== *)
theory Agent_Replies
  imports Agent_Loop
begin

text \<open>
  The response assembled from a stream against the deltas announced while it was read, and the
  context the model is given.
\<close>

section \<open>What was announced\<close>

definition said :: "stream_event list \<Rightarrow> string" where
  "said es = concat (map (\<lambda>e. case e of Delta t \<Rightarrow> t | _ \<Rightarrow> []) es)"

definition argued :: "nat \<Rightarrow> stream_event list \<Rightarrow> string" where
  "argued i es = concat (map (\<lambda>e. case e of ToolCallDelta j _ _ a \<Rightarrow> if j = i then a else [] | _ \<Rightarrow> []) es)"

text \<open>The last name announced for a slot.\<close>

definition named :: "nat \<Rightarrow> stream_event list \<Rightarrow> string option" where
  "named i es =
     foldl (\<lambda>n e. case e of ToolCallDelta j _ (Some m) _ \<Rightarrow> if j = i then Some m else n | _ \<Rightarrow> n) None es"

lemma said_append [simp]: "said (es @ fs) = said es @ said fs"
  by (simp add: said_def)

lemma argued_append [simp]: "argued i (es @ fs) = argued i es @ argued i fs"
  by (simp add: argued_def)

lemma announced_one [simp]:
  "said [Delta t] = t" "said [ToolCallDelta j a b c] = []" "said [StreamDone] = []" "said [] = []"
  "argued i [Delta t] = []" "argued i [ToolCallDelta j a b c] = (if j = i then c else [])"
  "argued i [StreamDone] = []" "argued i [] = []"
  by (simp_all add: said_def argued_def)

lemma named_append [simp]:
  "named i [] = None" "named i (es @ [Delta t]) = named i es" "named i (es @ [StreamDone]) = named i es"
  "named i (es @ [ToolCallDelta j a n c]) = (if j = i \<and> n \<noteq> None then n else named i es)"
  by (auto simp: named_def split: option.split)

section \<open>Slots\<close>

text \<open>One slot per index, each holding what was announced for it; nothing announced for another.\<close>

definition faithful :: "stream_state \<Rightarrow> bool" where
  "faithful s \<longleftrightarrow>
     st_content s = said (st_events s) \<and>
     distinct (map pc_index (st_calls s)) \<and>
     (\<forall>p \<in> set (st_calls s). pc_args p = argued (pc_index p) (st_events s) \<and> pc_name p = named (pc_index p) (st_events s)) \<and>
     (\<forall>i. i \<notin> pc_index ` set (st_calls s) \<longrightarrow> argued i (st_events s) = [] \<and> named i (st_events s) = None)"

lemma with_slot_indices:
  "set (map pc_index (with_slot i ps)) = insert i (pc_index ` set ps)"
  "distinct (map pc_index ps) \<Longrightarrow> distinct (map pc_index (with_slot i ps))"
  by (induction ps) auto

lemma with_slot_elem:
  "p \<in> set (with_slot i ps) \<Longrightarrow>
   p \<in> set ps \<or> i \<notin> pc_index ` set ps \<and> p = \<lparr>pc_index = i, pc_id = None, pc_name = None, pc_args = []\<rparr>"
  by (induction ps) (auto split: if_splits)

lemma update_slot_indices: "map pc_index (update_slot i (extend_call t) ps) = map pc_index ps"
  by (induction ps) (auto simp: extend_call_def Let_def)

lemma update_slot_elem:
  "distinct (map pc_index ps) \<Longrightarrow> p \<in> set (update_slot i f ps) \<Longrightarrow> (\<And>q. pc_index (f q) = pc_index q) \<Longrightarrow>
   (p \<in> set ps \<and> pc_index p \<noteq> i) \<or> (\<exists>q \<in> set ps. pc_index q = i \<and> p = f q)"
  by (induction ps) (auto split: if_splits simp: rev_image_eqI)

lemma extend_index [simp]: "pc_index (extend_call t p) = pc_index p"
  by (simp add: extend_call_def Let_def)

lemma take_tool_delta_faithful:
  assumes "faithful s"
  shows "faithful (take_tool_delta t s)"
proof -
  let ?i = "sc_index t"
  let ?n = "Option.bind (sc_function t) (\<lambda>f. nonempty (fst f))"
  let ?a = "case Option.bind (sc_function t) (\<lambda>f. nonempty (snd f)) of None \<Rightarrow> [] | Some a \<Rightarrow> a"
  define ws where "ws = with_slot ?i (st_calls s)"
  define es where "es = st_events s"
  have content: "st_content s = said es"
    and slots: "\<And>p. p \<in> set (st_calls s) \<Longrightarrow> pc_args p = argued (pc_index p) es \<and> pc_name p = named (pc_index p) es"
    and others: "\<And>i. i \<notin> pc_index ` set (st_calls s) \<Longrightarrow> argued i es = [] \<and> named i es = None"
    and dist: "distinct (map pc_index (st_calls s))"
    using assms by (auto simp: faithful_def es_def)
  have ws_slots: "pc_args p = argued (pc_index p) es \<and> pc_name p = named (pc_index p) es" if "p \<in> set ws" for p
    using with_slot_elem that slots others unfolding ws_def by fastforce
  have ws_dist: "distinct (map pc_index ws)"
    using dist by (simp add: ws_def with_slot_indices)
  obtain i where ev: "st_events (take_tool_delta t s) = es @ [ToolCallDelta ?i i ?n ?a]"
    by (simp add: take_tool_delta_def Let_def es_def)
  have calls: "st_calls (take_tool_delta t s) = update_slot ?i (extend_call t) ws"
    and said: "st_content (take_tool_delta t s) = st_content s"
    by (simp_all add: take_tool_delta_def Let_def ws_def)
  have indices: "pc_index ` set (st_calls (take_tool_delta t s)) = insert ?i (pc_index ` set (st_calls s))"
    using arg_cong [OF update_slot_indices [of ?i t ws], of set] with_slot_indices(1) [of ?i "st_calls s"]
    by (simp add: calls ws_def)
  have one: "pc_args p = argued (pc_index p) (es @ [ToolCallDelta ?i i ?n ?a]) \<and>
      pc_name p = named (pc_index p) (es @ [ToolCallDelta ?i i ?n ?a])"
    if p: "p \<in> set (update_slot ?i (extend_call t) ws)" for p
  proof (cases "p \<in> set ws \<and> pc_index p \<noteq> ?i")
    case True
    then show ?thesis using ws_slots by auto
  next
    case False
    then obtain q where "q \<in> set ws" "pc_index q = ?i" "p = extend_call t q"
      using update_slot_elem [OF ws_dist p] by auto
    then show ?thesis using ws_slots [of q] by (auto simp: extend_call_def Let_def split: option.split)
  qed
  show ?thesis
    unfolding faithful_def ev said
  proof (intro conjI ballI allI impI)
    show "distinct (map pc_index (st_calls (take_tool_delta t s)))"
      using ws_dist by (simp add: calls update_slot_indices)
  qed (use one others indices content in \<open>auto simp: calls\<close>)
qed

lemma take_delta_faithful: "faithful s \<Longrightarrow> faithful (take_delta d s)"
proof -
  assume s: "faithful s"
  define u where "u = (case nonempty (sd_content d) of None \<Rightarrow> s
      | Some t \<Rightarrow> s\<lparr>st_content := st_content s @ t, st_events := st_events s @ [Delta t]\<rparr>)"
  have u: "faithful u"
    using s by (auto simp: u_def faithful_def split: option.split)
  have "faithful (foldl (\<lambda>s t. take_tool_delta t s) v ts)" if "faithful v" for v ts
    using that by (induction ts arbitrary: v) (auto intro: take_tool_delta_faithful)
  then show ?thesis using u by (simp add: take_delta_def u_def)
qed

lemma handle_faithful: "faithful s \<Longrightarrow> faithful (snd (handle_stream_payload X payload s))"
proof -
  have "faithful (foldl (\<lambda>s d. take_delta d s) v ds)" if "faithful v" for v ds
    using that by (induction ds arbitrary: v) (auto intro: take_delta_faithful)
  then show "faithful s \<Longrightarrow> ?thesis"
    by (auto simp: handle_stream_payload_def split: option.splits)
qed

lemma read_stream_faithful: "faithful s \<Longrightarrow> faithful (snd (read_stream X ls a s))"
proof (induction X ls a s rule: read_stream.induct)
  case (1 X a s)
  then show ?case by (auto split: prod.splits option.splits intro: handle_faithful)
next
  case (3 X line ls a s)
  obtain got b where feed: "sse_feed line a = (got, b)" by fastforce
  obtain r v where got: "(case got of None \<Rightarrow> (Inr (), s) | Some payload \<Rightarrow> handle_stream_payload X payload s) = (r, v)"
    by fastforce
  have v: "faithful v"
    using got 3(3) handle_faithful [of s X] by (cases got) (auto, metis snd_conv)
  show ?case
  proof (cases r)
    case (Inl e)
    then show ?thesis using feed got v by simp
  next
    case (Inr u)
    then show ?thesis
      using 3(1) [OF feed [symmetric] got [symmetric] Inr _ v] 3(2) [OF feed [symmetric] got [symmetric] Inr _ v] feed got
      by simp
  qed
qed simp

section \<open>The response\<close>

text \<open>The calls of a response, as they were announced: for each of some indices, rising.\<close>

lemma sort_indices: "distinct (map pc_index ps) \<Longrightarrow> sorted_wrt (<) (map pc_index (sort_key pc_index ps))"
  by (simp add: strict_sorted_iff distinct_map inj_on_def)

lemma finished_args: "map (\<lambda>c. fc_arguments (tc_function c)) (map finished_call ps) = map pc_args ps"
  by (simp add: finished_call_def)

lemma finished_names:
  "map (\<lambda>c. fc_name (tc_function c)) (map finished_call ps) = map (\<lambda>p. case pc_name p of None \<Rightarrow> [] | Some n \<Rightarrow> n) ps"
  by (simp add: finished_call_def)

definition response_calls :: "chat_response \<Rightarrow> tool_call list" where
  "response_calls r = (case response_tool_calls r of None \<Rightarrow> [] | Some cs \<Rightarrow> cs)"

lemma response_calls_built:
  "response_calls (build_stream_response content ps) =
   map finished_call (filter (\<lambda>c. pc_name c \<noteq> None \<or> pc_args c \<noteq> []) (sort_key pc_index ps))"
  by (simp add: response_calls_def response_tool_calls_def first_message_def build_stream_response_def Let_def)

lemma response_content_built:
  "response_content (build_stream_response content ps) = (if content = [] then None else Some content)"
  by (simp add: response_content_def first_message_def build_stream_response_def Let_def)

lemma built_as_announced:
  assumes s: "faithful s"
  defines "r \<equiv> build_stream_response (st_content s) (st_calls s)"
  shows "\<exists>is. sorted_wrt (<) is \<and> set is = {i. argued i (st_events s) \<noteq> [] \<or> named i (st_events s) \<noteq> None} \<and>
    map (\<lambda>c. fc_arguments (tc_function c)) (response_calls r) = map (\<lambda>i. argued i (st_events s)) is \<and>
    map (\<lambda>c. fc_name (tc_function c)) (response_calls r) =
      map (\<lambda>i. case named i (st_events s) of None \<Rightarrow> [] | Some n \<Rightarrow> n) is"
proof -
  define ps where "ps = filter (\<lambda>c. pc_name c \<noteq> None \<or> pc_args c \<noteq> []) (sort_key pc_index (st_calls s))"
  have slots: "pc_args p = argued (pc_index p) (st_events s) \<and> pc_name p = named (pc_index p) (st_events s)"
    if "p \<in> set (st_calls s)" for p
    using s that by (simp add: faithful_def)
  have ps: "p \<in> set ps \<longleftrightarrow> p \<in> set (st_calls s) \<and> (pc_name p \<noteq> None \<or> pc_args p \<noteq> [])" for p
    by (auto simp: ps_def)
  have "sorted_wrt (<) (map pc_index (sort_key pc_index (st_calls s)))"
    using s by (intro sort_indices) (simp add: faithful_def)
  then have "sorted_wrt (<) (map pc_index ps)"
    by (simp add: ps_def sorted_wrt_map sorted_wrt_filter)
  moreover have "set (map pc_index ps) = {i. argued i (st_events s) \<noteq> [] \<or> named i (st_events s) \<noteq> None}"
  proof (intro set_eqI iffI)
    fix i assume "i \<in> set (map pc_index ps)"
    then show "i \<in> {i. argued i (st_events s) \<noteq> [] \<or> named i (st_events s) \<noteq> None}"
      using ps slots by auto
  next
    fix i assume i: "i \<in> {i. argued i (st_events s) \<noteq> [] \<or> named i (st_events s) \<noteq> None}"
    then obtain p where "p \<in> set (st_calls s)" "pc_index p = i"
      using s by (cases "i \<in> pc_index ` set (st_calls s)") (auto simp: faithful_def)
    then show "i \<in> set (map pc_index ps)" using i ps slots [of p] by auto
  qed
  moreover have "map pc_args ps = map (\<lambda>i. argued i (st_events s)) (map pc_index ps)"
    "map (\<lambda>p. case pc_name p of None \<Rightarrow> [] | Some n \<Rightarrow> n) ps =
     map (\<lambda>i. case named i (st_events s) of None \<Rightarrow> [] | Some n \<Rightarrow> n) (map pc_index ps)"
    using ps slots by auto
  ultimately show ?thesis
    unfolding r_def response_calls_built ps_def [symmetric] finished_args finished_names
    by (intro exI [of _ "map pc_index ps"]) blast
qed

section \<open>The context\<close>

text \<open>Every tool result stands after a message of the assistant that made its call.\<close>

definition calls_made :: "chat_message \<Rightarrow> string list" where
  "calls_made m = (if cm_role m = ''assistant'' then (case cm_tool_calls m of None \<Rightarrow> [] | Some cs \<Rightarrow> map tc_id cs) else [])"

fun results_follow_calls :: "string list \<Rightarrow> chat_message list \<Rightarrow> bool" where
  "results_follow_calls made [] = True"
| "results_follow_calls made (m # ms) =
     ((cm_role m = ''tool'' \<longrightarrow> (case cm_tool_call_id m of None \<Rightarrow> False | Some i \<Rightarrow> i \<in> set made)) \<and>
      results_follow_calls (calls_made m @ made) ms)"

lemma trim_length: "length (trim_messages ms) \<le> CONTEXT_MAX"
  by (auto simp: trim_messages_def CONTEXT_MAX_def CONTEXT_KEEP_def)

lemma trim_long:
  "CONTEXT_MAX < length ms \<Longrightarrow>
   trim_messages ms =
     (if cm_role (hd ms) = ''system'' then [hd ms] else []) @ truncation_note # drop (length ms - CONTEXT_KEEP) ms"
  by (simp add: trim_messages_def)

lemma trimmed_result_orphaned:
  assumes "CONTEXT_MAX < length ms" and "cm_role (ms ! (length ms - CONTEXT_KEEP)) = ''tool''"
  shows "\<not> results_follow_calls [] (trim_messages ms)"
proof -
  have "drop (length ms - CONTEXT_KEEP) ms =
      ms ! (length ms - CONTEXT_KEEP) # drop (Suc (length ms - CONTEXT_KEEP)) ms"
    using assms(1) by (intro Cons_nth_drop_Suc [symmetric]) (simp add: CONTEXT_MAX_def CONTEXT_KEEP_def)
  then show ?thesis
    using assms by (auto simp: trim_long truncation_note_def message_text_def calls_made_def split: option.splits)
qed

end
