(* ===== verification/Agent_Properties.thy ===== *)
theory Agent_Properties
  imports Agent_Effects Agent_Replies Sample_Externs
begin

text \<open>What an agent's run guarantees, and where it does not; each with a concrete run where it has hypotheses.\<close>

section \<open>A sample agent\<close>










section \<open>What a run may touch\<close>



text \<open>
  C26. A policy made from the relative root \<open>.\<close> has the empty path as its root, of which every
  path is a prefix: it admits every absolute path without dot-dot, for reading and, with a source's
  extension, for writing.
\<close>

theorem dot_root_admits_everything:
  assumes "starts_with s ''/''" and "ParentDir \<notin> set (components s)"
  shows "check_read (policy_new ''.'') s = Inr (normalize s) \<and>
    (list_ex (\<lambda>allowed. eq_ignore_ascii_case allowed (dotted_extension (normalize s))) (wp_extensions (policy_new ''.'')) \<longrightarrow>
     check_write (policy_new ''.'') s = Inr (normalize s))"
proof -
  have "wp_root (policy_new ''.'') = \<lparr>p_rooted = False, p_names = []\<rparr>"
    by (simp add: policy_new_def normalize_def components_def component_of_def empty_path_def starts_with_def)
  then have "policy_resolve (policy_new ''.'') s = Inr (normalize s)"
    using assms by (simp add: policy_resolve_def looks_absolute_def starts_with_path_def Let_def)
  then show ?thesis by (simp add: check_read_def check_write_def bind_result_def)
qed

theorem dot_root_admits_everything_witness:
  "check_write (policy_new ''.'') ''/etc/x.c'' = Inr (normalize ''/etc/x.c'')"
proof -
  have "starts_with ''/etc/x.c'' ''/''" "ParentDir \<notin> set (components ''/etc/x.c'')"
    "list_ex (\<lambda>allowed. eq_ignore_ascii_case allowed (dotted_extension (normalize ''/etc/x.c''))) (wp_extensions (policy_new ''.''))"
    by code_simp+
  then show ?thesis using dot_root_admits_everything [of "''/etc/x.c''"] by blast
qed

section \<open>How a run ends\<close>



section \<open>The service's key\<close>






section \<open>Replies and context\<close>

text \<open>
  C22. A response read from a stream is what was announced while it was read: its content is the
  deltas in order, and its calls, by rising index, are exactly the slots for which a name or
  arguments were announced, each with its argument deltas in order and the last name given.
\<close>

theorem response_is_what_was_announced:
  assumes "chat_stream X reply = (Inr r, es)"
  shows "(case response_content r of None \<Rightarrow> [] | Some c \<Rightarrow> c) = said es \<and>
    (\<exists>is. sorted_wrt (<) is \<and> set is = {i. argued i es \<noteq> [] \<or> named i es \<noteq> None} \<and>
      map (\<lambda>c. fc_arguments (tc_function c)) (response_calls r) = map (\<lambda>i. argued i es) is \<and>
      map (\<lambda>c. fc_name (tc_function c)) (response_calls r) =
        map (\<lambda>i. case named i es of None \<Rightarrow> [] | Some n \<Rightarrow> n) is)"
proof -
  let ?start = "\<lparr>st_content = [], st_calls = [], st_events = []\<rparr>"
  obtain h u s where h: "reply = Inr h" "read_stream X (hr_lines h) sse_new ?start = (Inr u, s)"
      "r = build_stream_response (st_content s) (st_calls s)" "es = st_events s @ [StreamDone]"
    using assms by (auto simp: chat_stream_def split: sum.splits prod.splits if_splits)
  have "faithful ?start" by (simp add: faithful_def)
  then have s: "faithful s"
    using read_stream_faithful [of ?start X "hr_lines h" sse_new] h(2) by simp
  have "(case response_content r of None \<Rightarrow> [] | Some c \<Rightarrow> c) = said es"
    using s by (simp add: h response_content_built faithful_def)
  moreover have "argued i es = argued i (st_events s)" "named i es = named i (st_events s)" for i
    by (simp_all add: h)
  ultimately show ?thesis using built_as_announced [OF s] by (simp add: h(3))
qed

definition sample_chunk :: "(string \<times> json) list \<Rightarrow> string + string" where
  "sample_chunk delta =
     Inr (''data: '' @ enc_json (json_obj [(''choices'', JArr [json_obj [(''delta'', json_obj delta)]])]))"

definition sample_http :: "string + http_reply" where
  "sample_http =
     Inr \<lparr>hr_status = 200, hr_body = [],
       hr_lines = [sample_chunk [(''content'', JStr ''h'')], Inr [], sample_chunk [(''content'', JStr ''i'')], Inr []]\<rparr>"

lemma sample_http_read:
  "chat_stream sample_externs sample_http = (Inr (build_stream_response ''hi'' []), [Delta ''h'', Delta ''i'', StreamDone])"
  by code_simp

theorem response_is_what_was_announced_witness:
  "response_content (build_stream_response ''hi'' []) = Some ''hi'' \<and> said [Delta ''h'', Delta ''i'', StreamDone] = ''hi''"
proof -
  have "response_content (build_stream_response ''hi'' []) = Some ''hi''"
    by (simp add: response_content_built)
  moreover have "(case response_content (build_stream_response ''hi'' []) of None \<Rightarrow> [] | Some c \<Rightarrow> c) =
      said [Delta ''h'', Delta ''i'', StreamDone]"
    using response_is_what_was_announced [OF sample_http_read] by blast
  ultimately show ?thesis by simp
qed

text \<open>
  C38. When the message that becomes the oldest of the kept ones is the result of a tool, trimming
  drops the assistant's message that made the call and keeps its result: the context sent to the
  model holds a tool result that follows no call.
\<close>

theorem trimming_orphans_a_result:
  assumes "results_follow_calls [] ms" and "CONTEXT_MAX < length ms"
    and "cm_role (ms ! (length ms - CONTEXT_KEEP)) = ''tool''"
  shows "\<not> results_follow_calls [] (trim_messages ms) \<and> length (trim_messages ms) \<le> CONTEXT_MAX"
  using trimmed_result_orphaned [OF assms(2,3)] trim_length by simp

definition sample_long_context :: "chat_message list" where
  "sample_long_context =
     message_text ''system'' ''s'' # replicate 9 (message_text ''user'' ''u'') @
     [\<lparr>cm_role = ''assistant'', cm_content = None,
       cm_tool_calls = Some [\<lparr>tc_id = ''c'', tc_kind = ''function'', tc_function = \<lparr>fc_name = ''stop_vm'', fc_arguments = []\<rparr>\<rparr>],
       cm_tool_call_id = None\<rparr>, tool_result_message ''c'' ''r''] @ replicate 29 (message_text ''user'' ''u'')"

theorem trimming_orphans_a_result_witness:
  "\<not> results_follow_calls [] (trim_messages sample_long_context)"
proof -
  have "results_follow_calls [] sample_long_context" "CONTEXT_MAX < length sample_long_context"
    "cm_role (sample_long_context ! (length sample_long_context - CONTEXT_KEEP)) = ''tool''"
    by code_simp+
  then show ?thesis using trimming_orphans_a_result [of sample_long_context] by blast
qed

end
