(* ===== verification/Cli_Args.thy ===== *)
theory Cli_Args
  imports Agent_Policy
begin

text \<open>
  The command line (\<open>cli/src/args.rs\<close>): scanning the arguments, the command they name, and the request
  a command is. \<open>quoted\<close> is the debug form of a text, \<open>number_error\<close> the standard library's words
  for a number it cannot read; the text of \<open>--help\<close> is not transcribed. A path is its text.
\<close>

section \<open>Commands\<close>

datatype command =
    Health | Status | Agents
  | RunsList "nat option" | RunsGet string
  | AuditStatus | AuditEvents nat "string option" | AuditResolve string "string option"
  | SnapshotsList
  | SandboxesList | SandboxesCurrent | SandboxesCandidates | SandboxesShow string | SandboxesSwitch string
  | SandboxesRequests "string option" | SandboxesRequestsApprove string | SandboxesRequestsReject string
  | WorkspaceImport string bool | WorkspaceExport "string option"
  | ExecutorsList | Identity | Peers | Rooms | Connection | NodeCapabilities
  | Run string "string option" | TasksDispatch string string "string option"
  | VmStop | VmStart
  | SnapshotsSave string | SnapshotsResume string | SnapshotsDelete string
  | SessionsCreate string | SessionsOpen string | SessionsDelete string | SessionsRename string string | SessionsClearAll
  | RunsAbandonStale
  | ExportAuditJsonl string | ExportRunAudit string string | ExportSerialLog string
  | LlmSet "string option" "string option" string string "string option" bool | LlmClear | LlmLoadKey string
  | QemuPath string | QemuClear | QemuDownload | QemuCancel | QemuStatus
  | ToolchainDownload "string option" | ToolchainCancel | ToolchainPath string | ToolchainClear
  | PreflightRun | PreflightAck
  | AuditAlertSet bool | ThemeSet string | LanguageSet string

section \<open>Addresses of a request\<close>

definition hex_upper :: "nat \<Rightarrow> char" where
  "hex_upper d = (if d < 10 then char_of (48 + d) else char_of (55 + d))"

definition is_unreserved :: "char \<Rightarrow> bool" where
  "is_unreserved c \<longleftrightarrow>
     CHR ''A'' \<le> c \<and> c \<le> CHR ''Z'' \<or> CHR ''a'' \<le> c \<and> c \<le> CHR ''z'' \<or> CHR ''0'' \<le> c \<and> c \<le> CHR ''9'' \<or>
     c \<in> {CHR ''-'', CHR ''_'', CHR ''.'', CHR ''~''}"

definition encode_byte :: "char \<Rightarrow> string" where
  "encode_byte c =
     (if is_unreserved c then [c]
      else [CHR ''%'', hex_upper (of_char c div 16), hex_upper (of_char c mod 16)])"

definition url_encode :: "string \<Rightarrow> string" where
  "url_encode s = concat (map encode_byte s)"

definition command_method :: "command \<Rightarrow> string" where
  "command_method c =
     (case c of
        Health \<Rightarrow> ''GET'' | Status \<Rightarrow> ''GET'' | Agents \<Rightarrow> ''GET'' | RunsList _ \<Rightarrow> ''GET'' | RunsGet _ \<Rightarrow> ''GET''
      | AuditStatus \<Rightarrow> ''GET'' | AuditEvents _ _ \<Rightarrow> ''GET'' | SnapshotsList \<Rightarrow> ''GET'' | SandboxesList \<Rightarrow> ''GET''
      | SandboxesCurrent \<Rightarrow> ''GET'' | SandboxesCandidates \<Rightarrow> ''GET'' | SandboxesShow _ \<Rightarrow> ''GET''
      | SandboxesRequests _ \<Rightarrow> ''GET'' | ExecutorsList \<Rightarrow> ''GET'' | Identity \<Rightarrow> ''GET'' | Peers \<Rightarrow> ''GET''
      | Rooms \<Rightarrow> ''GET'' | Connection \<Rightarrow> ''GET'' | NodeCapabilities \<Rightarrow> ''GET'' | QemuStatus \<Rightarrow> ''GET''
      | _ \<Rightarrow> ''POST'')"

definition request_path :: "command \<Rightarrow> string" where
  "request_path c =
     (case c of
        Health \<Rightarrow> ''/v0/health''
      | Status \<Rightarrow> ''/v0/status''
      | Agents \<Rightarrow> ''/v0/status''
      | RunsList None \<Rightarrow> ''/v0/runs''
      | RunsList (Some n) \<Rightarrow> ''/v0/runs?limit='' @ show_nat n
      | RunsGet i \<Rightarrow> ''/v0/runs/'' @ url_encode i
      | AuditStatus \<Rightarrow> ''/v0/audit/status''
      | AuditResolve i _ \<Rightarrow> ''/v0/audit/conflicts/'' @ url_encode i @ ''/resolve''
      | AuditEvents n None \<Rightarrow> ''/v0/audit/events?limit='' @ show_nat n
      | AuditEvents n (Some p) \<Rightarrow> ''/v0/audit/events?limit='' @ show_nat n @ ''&action_prefix='' @ url_encode p
      | SnapshotsList \<Rightarrow> ''/v0/snapshots''
      | SandboxesList \<Rightarrow> ''/v0/sandboxes''
      | SandboxesCurrent \<Rightarrow> ''/v0/sandboxes/current''
      | SandboxesCandidates \<Rightarrow> ''/v0/sandboxes/candidates''
      | SandboxesShow n \<Rightarrow> ''/v0/sandboxes/'' @ url_encode n
      | SandboxesSwitch _ \<Rightarrow> ''/v0/sandboxes/switch''
      | SandboxesRequests None \<Rightarrow> ''/v0/sandboxes/requests''
      | SandboxesRequests (Some s) \<Rightarrow> ''/v0/sandboxes/requests?status='' @ url_encode s
      | SandboxesRequestsApprove i \<Rightarrow> ''/v0/sandboxes/requests/'' @ url_encode i @ ''/approve''
      | SandboxesRequestsReject i \<Rightarrow> ''/v0/sandboxes/requests/'' @ url_encode i @ ''/reject''
      | WorkspaceImport _ force \<Rightarrow> (if force then ''/v0/workspace/import?force=true'' else ''/v0/workspace/import'')
      | WorkspaceExport _ \<Rightarrow> ''/v0/workspace/export''
      | ExecutorsList \<Rightarrow> ''/v0/executors''
      | Identity \<Rightarrow> ''/v0/identity''
      | Peers \<Rightarrow> ''/v0/peers''
      | Rooms \<Rightarrow> ''/v0/rooms''
      | Connection \<Rightarrow> ''/v0/connection''
      | NodeCapabilities \<Rightarrow> ''/v0/executors''
      | Run _ _ \<Rightarrow> ''/v0/agent/run''
      | TasksDispatch _ _ _ \<Rightarrow> ''/v0/tasks''
      | VmStop \<Rightarrow> ''/v0/vm/stop''
      | VmStart \<Rightarrow> ''/v0/vm/start''
      | SnapshotsSave _ \<Rightarrow> ''/v0/snapshots/save''
      | SnapshotsResume _ \<Rightarrow> ''/v0/snapshots/resume''
      | SnapshotsDelete _ \<Rightarrow> ''/v0/snapshots/delete''
      | SessionsCreate _ \<Rightarrow> ''/v0/sessions/create''
      | SessionsOpen _ \<Rightarrow> ''/v0/sessions/open''
      | SessionsDelete _ \<Rightarrow> ''/v0/sessions/delete''
      | SessionsRename _ _ \<Rightarrow> ''/v0/sessions/rename''
      | SessionsClearAll \<Rightarrow> ''/v0/sessions/clear''
      | RunsAbandonStale \<Rightarrow> ''/v0/runs/abandon-stale''
      | ExportAuditJsonl _ \<Rightarrow> ''/v0/audit/export''
      | ExportRunAudit _ _ \<Rightarrow> ''/v0/runs/export''
      | ExportSerialLog _ \<Rightarrow> ''/v0/serial/export''
      | LlmSet _ _ _ _ _ _ \<Rightarrow> ''/v0/llm/config''
      | LlmClear \<Rightarrow> ''/v0/llm/config/clear''
      | LlmLoadKey _ \<Rightarrow> ''/v0/llm/stored-key/load''
      | QemuPath _ \<Rightarrow> ''/v0/qemu/path''
      | QemuClear \<Rightarrow> ''/v0/qemu/path/clear''
      | QemuDownload \<Rightarrow> ''/v0/qemu/download''
      | QemuStatus \<Rightarrow> ''/v0/qemu/download''
      | QemuCancel \<Rightarrow> ''/v0/qemu/download/cancel''
      | ToolchainDownload _ \<Rightarrow> ''/v0/toolchain/download''
      | ToolchainCancel \<Rightarrow> ''/v0/toolchain/download/cancel''
      | ToolchainPath _ \<Rightarrow> ''/v0/toolchain/path''
      | ToolchainClear \<Rightarrow> ''/v0/toolchain/path/clear''
      | PreflightRun \<Rightarrow> ''/v0/preflight/run''
      | PreflightAck \<Rightarrow> ''/v0/preflight/ack''
      | AuditAlertSet _ \<Rightarrow> ''/v0/audit/alert''
      | ThemeSet _ \<Rightarrow> ''/v0/settings/theme''
      | LanguageSet _ \<Rightarrow> ''/v0/settings/language'')"

definition output_path :: "command \<Rightarrow> string option" where
  "output_path c =
     (case c of
        ExportAuditJsonl out \<Rightarrow> Some out
      | ExportRunAudit _ out \<Rightarrow> Some out
      | ExportSerialLog out \<Rightarrow> Some out
      | _ \<Rightarrow> None)"

definition opt_member :: "string \<Rightarrow> string option \<Rightarrow> (string \<times> json) list" where
  "opt_member k v = (case v of None \<Rightarrow> [] | Some s \<Rightarrow> [(k, JStr s)])"

definition request_body :: "command \<Rightarrow> json option" where
  "request_body c =
     (case c of
        Run task sandbox \<Rightarrow> Some (json_obj ((''user_input'', JStr task) # opt_member ''sandbox'' sandbox))
      | TasksDispatch target input sandbox \<Rightarrow>
          Some (json_obj ([(''target'', JStr target), (''input'', JStr input)] @ opt_member ''sandbox'' sandbox))
      | ToolchainDownload toolchain \<Rightarrow> map_option (\<lambda>l. json_obj [(''toolchain'', JStr l)]) toolchain
      | SnapshotsSave n \<Rightarrow> Some (json_obj [(''name'', JStr n)])
      | SnapshotsResume n \<Rightarrow> Some (json_obj [(''name'', JStr n)])
      | SnapshotsDelete n \<Rightarrow> Some (json_obj [(''name'', JStr n)])
      | SessionsCreate t \<Rightarrow> Some (json_obj [(''title'', JStr t)])
      | SessionsOpen i \<Rightarrow> Some (json_obj [(''session_id'', JStr i)])
      | SessionsDelete i \<Rightarrow> Some (json_obj [(''session_id'', JStr i)])
      | SessionsRename i t \<Rightarrow> Some (json_obj [(''session_id'', JStr i), (''title'', JStr t)])
      | ExportAuditJsonl out \<Rightarrow> Some (json_obj [(''path'', JStr out)])
      | ExportSerialLog out \<Rightarrow> Some (json_obj [(''path'', JStr out)])
      | ExportRunAudit i out \<Rightarrow> Some (json_obj [(''run_id'', JStr i), (''path'', JStr out)])
      | LlmSet key _ base model provider remember \<Rightarrow>
          Some (json_obj ([(''api_key'', JStr (case key of None \<Rightarrow> [] | Some k \<Rightarrow> k)), (''base_url'', JStr base),
              (''model'', JStr model)] @ opt_member ''provider_id'' provider @
            (if remember then [(''remember'', JBool True)] else [])))
      | LlmLoadKey p \<Rightarrow> Some (json_obj [(''provider_id'', JStr p)])
      | SandboxesSwitch n \<Rightarrow> Some (json_obj [(''name'', JStr n)])
      | SandboxesRequestsApprove _ \<Rightarrow> Some (json_obj [])
      | SandboxesRequestsReject _ \<Rightarrow> Some (json_obj [])
      | WorkspaceExport _ \<Rightarrow> Some (json_obj [])
      | QemuPath p \<Rightarrow> Some (json_obj [(''path'', JStr p)])
      | ToolchainPath p \<Rightarrow> Some (json_obj [(''path'', JStr p)])
      | AuditAlertSet b \<Rightarrow> Some (json_obj [(''enabled'', JBool b)])
      | AuditResolve _ note \<Rightarrow> Some (json_obj [(''note'', case note of None \<Rightarrow> JNull | Some n \<Rightarrow> JStr n)])
      | ThemeSet t \<Rightarrow> Some (json_obj [(''theme'', JStr t)])
      | LanguageSet l \<Rightarrow> Some (json_obj [(''language'', JStr l)])
      | _ \<Rightarrow> None)"

text \<open>What is asked before a command that destroys something.\<close>

definition confirmation :: "(string \<Rightarrow> string) \<Rightarrow> command \<Rightarrow> string option" where
  "confirmation quoted c =
     (case c of
        VmStop \<Rightarrow> Some ''Stop the VM? A run in flight is interrupted.''
      | SnapshotsResume n \<Rightarrow> Some (''Resume from snapshot '' @ quoted n @ ''? The current VM is stopped first.'')
      | SandboxesSwitch n \<Rightarrow>
          Some (''Switch this node'' @ byte_string [39] @ ''s sandbox to '' @ quoted n @
            ''? The running VM is stopped and started again.'')
      | SnapshotsDelete n \<Rightarrow> Some (''Delete snapshot '' @ quoted n @ ''?'')
      | SandboxesRequestsApprove i \<Rightarrow> Some (''Approve sandbox request '' @ quoted i @ ''?'')
      | SandboxesRequestsReject i \<Rightarrow> Some (''Reject sandbox request '' @ quoted i @ ''?'')
      | SessionsDelete i \<Rightarrow> Some (''Delete session '' @ quoted i @ ''?'')
      | SessionsClearAll \<Rightarrow> Some ''Delete every session?''
      | LlmClear \<Rightarrow> Some ''Forget the model configuration?''
      | QemuClear \<Rightarrow> Some ''Forget the configured QEMU path?''
      | ToolchainClear \<Rightarrow> Some ''Forget the configured toolchain path?''
      | _ \<Rightarrow> None)"

section \<open>Scanning the arguments\<close>

definition DEFAULT_EVENT_LIMIT :: nat where "DEFAULT_EVENT_LIMIT = 20"
definition DEFAULT_AUDIT_EXPORT :: string where "DEFAULT_AUDIT_EXPORT = ''audit.jsonl''"
definition DEFAULT_SERIAL_EXPORT :: string where "DEFAULT_SERIAL_EXPORT = ''serial.log''"

record cli_flags =
  fl_limit :: "nat option"
  fl_out :: "string option"
  fl_status :: "string option"
  fl_force :: bool
  fl_sandbox :: "string option"
  fl_target :: "string option"
  fl_input :: "string option"
  fl_toolchain :: "string option"
  fl_action_prefix :: "string option"
  fl_note :: "string option"
  fl_api_key :: "string option"
  fl_api_key_file :: "string option"
  fl_base_url :: "string option"
  fl_model :: "string option"
  fl_provider_id :: "string option"
  fl_remember :: bool

definition no_flags :: cli_flags where
  "no_flags =
     \<lparr>fl_limit = None, fl_out = None, fl_status = None, fl_force = False, fl_sandbox = None, fl_target = None,
      fl_input = None, fl_toolchain = None, fl_action_prefix = None, fl_note = None, fl_api_key = None,
      fl_api_key_file = None, fl_base_url = None, fl_model = None, fl_provider_id = None, fl_remember = False\<rparr>"

record cli_scan =
  sc_remote :: "string option"
  sc_token_file :: "string option"
  sc_token :: "string option"
  sc_json :: bool
  sc_yes :: bool
  sc_follow :: bool
  sc_wait :: bool
  sc_flags :: cli_flags
  sc_words :: "string list"

definition scan_start :: cli_scan where
  "scan_start =
     \<lparr>sc_remote = None, sc_token_file = None, sc_token = None, sc_json = False, sc_yes = False, sc_follow = False,
      sc_wait = False, sc_flags = no_flags, sc_words = []\<rparr>"

text \<open>The options without a value, and those with one.\<close>

definition set_switch :: "string \<Rightarrow> cli_scan \<Rightarrow> cli_scan option" where
  "set_switch a s =
     (if a = ''--json'' then Some (s\<lparr>sc_json := True\<rparr>)
      else if a = ''--yes'' \<or> a = ''-y'' then Some (s\<lparr>sc_yes := True\<rparr>)
      else if a = ''--follow'' \<or> a = ''-f'' then Some (s\<lparr>sc_follow := True\<rparr>)
      else if a = ''--wait'' \<or> a = ''-w'' then Some (s\<lparr>sc_wait := True\<rparr>)
      else if a = ''--remember'' then Some (s\<lparr>sc_flags := (sc_flags s)\<lparr>fl_remember := True\<rparr>\<rparr>)
      else if a = ''--force'' then Some (s\<lparr>sc_flags := (sc_flags s)\<lparr>fl_force := True\<rparr>\<rparr>)
      else None)"

definition VALUED :: "string list" where
  "VALUED =
     [''--remote'', ''--token-file'', ''--token'', ''--out'', ''--status'', ''--sandbox'', ''--target'', ''--input'',
      ''--action-prefix'', ''--note'', ''--toolchain'', ''--api-key'', ''--api-key-file'', ''--base-url'', ''--model'',
      ''--provider-id'', ''--limit'']"

definition set_value ::
  "(string \<Rightarrow> string) \<Rightarrow> (string \<Rightarrow> string) \<Rightarrow> string \<Rightarrow> string \<Rightarrow> cli_scan \<Rightarrow> string + cli_scan" where
  "set_value quoted number_error a v s =
     (if a = ''--remote'' then Inr (s\<lparr>sc_remote := Some v\<rparr>)
      else if a = ''--token-file'' then Inr (s\<lparr>sc_token_file := Some v\<rparr>)
      else if a = ''--token'' then Inr (s\<lparr>sc_token := Some v\<rparr>)
      else if a = ''--out'' then Inr (s\<lparr>sc_flags := (sc_flags s)\<lparr>fl_out := Some v\<rparr>\<rparr>)
      else if a = ''--status'' then Inr (s\<lparr>sc_flags := (sc_flags s)\<lparr>fl_status := Some v\<rparr>\<rparr>)
      else if a = ''--sandbox'' then Inr (s\<lparr>sc_flags := (sc_flags s)\<lparr>fl_sandbox := Some v\<rparr>\<rparr>)
      else if a = ''--target'' then Inr (s\<lparr>sc_flags := (sc_flags s)\<lparr>fl_target := Some v\<rparr>\<rparr>)
      else if a = ''--input'' then Inr (s\<lparr>sc_flags := (sc_flags s)\<lparr>fl_input := Some v\<rparr>\<rparr>)
      else if a = ''--action-prefix'' then Inr (s\<lparr>sc_flags := (sc_flags s)\<lparr>fl_action_prefix := Some v\<rparr>\<rparr>)
      else if a = ''--note'' then Inr (s\<lparr>sc_flags := (sc_flags s)\<lparr>fl_note := Some v\<rparr>\<rparr>)
      else if a = ''--toolchain'' then Inr (s\<lparr>sc_flags := (sc_flags s)\<lparr>fl_toolchain := Some v\<rparr>\<rparr>)
      else if a = ''--api-key'' then Inr (s\<lparr>sc_flags := (sc_flags s)\<lparr>fl_api_key := Some v\<rparr>\<rparr>)
      else if a = ''--api-key-file'' then Inr (s\<lparr>sc_flags := (sc_flags s)\<lparr>fl_api_key_file := Some v\<rparr>\<rparr>)
      else if a = ''--base-url'' then Inr (s\<lparr>sc_flags := (sc_flags s)\<lparr>fl_base_url := Some v\<rparr>\<rparr>)
      else if a = ''--model'' then Inr (s\<lparr>sc_flags := (sc_flags s)\<lparr>fl_model := Some v\<rparr>\<rparr>)
      else if a = ''--provider-id'' then Inr (s\<lparr>sc_flags := (sc_flags s)\<lparr>fl_provider_id := Some v\<rparr>\<rparr>)
      else case parse_uint 64 v of
        None \<Rightarrow> Inl (''--limit '' @ quoted v @ '' is not a number: '' @ number_error v)
      | Some n \<Rightarrow> Inr (s\<lparr>sc_flags := (sc_flags s)\<lparr>fl_limit := Some n\<rparr>\<rparr>))"

record cli_args =
  ca_command :: command
  ca_remote :: "string option"
  ca_token_file :: "string option"
  ca_token :: "string option"
  ca_json :: bool
  ca_yes :: bool
  ca_follow :: bool
  ca_wait :: bool

datatype parsed = ShowHelp | ShowVersion | Parsed cli_args

datatype scanned = AskedFor parsed | Scanned cli_scan

fun scan_args ::
  "(string \<Rightarrow> string) \<Rightarrow> (string \<Rightarrow> string) \<Rightarrow> string list \<Rightarrow> cli_scan \<Rightarrow> string + scanned" where
  "scan_args quoted number_error [] s = Inr (Scanned s)"
| "scan_args quoted number_error (a # as) s =
     (if a = ''--help'' \<or> a = ''-h'' then Inr (AskedFor ShowHelp)
      else if a = ''--version'' \<or> a = ''-V'' then Inr (AskedFor ShowVersion)
      else case set_switch a s of
        Some s \<Rightarrow> scan_args quoted number_error as s
      | None \<Rightarrow>
          if List.member VALUED a then
            (case as of
               [] \<Rightarrow> Inl (a @ '' needs a value'')
             | v # as \<Rightarrow> bind_result (set_value quoted number_error a v s) (scan_args quoted number_error as))
          else if starts_with a ''-'' \<and> 1 < length a then Inl (''unknown option '' @ quoted a)
          else scan_args quoted number_error as (s\<lparr>sc_words := sc_words s @ [a]\<rparr>))"

section \<open>The command the words name\<close>

definition default_out :: "cli_flags \<Rightarrow> string \<Rightarrow> string" where
  "default_out f otherwise = (case fl_out f of None \<Rightarrow> otherwise | Some out \<Rightarrow> out)"

definition llm_set :: "cli_flags \<Rightarrow> string + command" where
  "llm_set f =
     (if fl_api_key f \<noteq> None \<and> fl_api_key_file f \<noteq> None then
        Inl ''llm set: use one of --api-key or --api-key-file, not both''
      else if fl_api_key f = None \<and> fl_api_key_file f = None then
        Inl ''llm set needs --api-key <key> or --api-key-file <path>''
      else case fl_base_url f of
        None \<Rightarrow> Inl ''llm set needs --base-url <url>''
      | Some base \<Rightarrow>
          (case fl_model f of
             None \<Rightarrow> Inl ''llm set needs --model <model>''
           | Some model \<Rightarrow> Inr (LlmSet (fl_api_key f) (fl_api_key_file f) base model (fl_provider_id f) (fl_remember f))))"

definition parse_on_off :: "(string \<Rightarrow> string) \<Rightarrow> string \<Rightarrow> string + bool" where
  "parse_on_off quoted v =
     (let low = map ascii_lower (trim v)
      in if List.member [''on'', ''true'', ''yes'', ''1''] low then Inr True
         else if List.member [''off'', ''false'', ''no'', ''0''] low then Inr False
         else Inl (''audit alert set wants on or off, not '' @ quoted low))"

definition one_word :: "(string \<times> command) list" where
  "one_word =
     [(''health'', Health), (''status'', Status), (''agents'', Agents), (''identity'', Identity), (''peers'', Peers),
      (''rooms'', Rooms), (''connection'', Connection)]"

definition two_words :: "cli_flags \<Rightarrow> ((string \<times> string) \<times> command) list" where
  "two_words f =
     [((''runs'', ''list''), RunsList (fl_limit f)), ((''audit'', ''status''), AuditStatus),
      ((''audit'', ''events''),
       AuditEvents (case fl_limit f of None \<Rightarrow> DEFAULT_EVENT_LIMIT | Some n \<Rightarrow> n) (fl_action_prefix f)),
      ((''snapshots'', ''list''), SnapshotsList), ((''sandboxes'', ''list''), SandboxesList),
      ((''sandboxes'', ''current''), SandboxesCurrent), ((''sandboxes'', ''candidates''), SandboxesCandidates),
      ((''sandboxes'', ''requests''), SandboxesRequests (fl_status f)),
      ((''workspace'', ''export''), WorkspaceExport (fl_out f)), ((''executors'', ''list''), ExecutorsList),
      ((''node'', ''capabilities''), NodeCapabilities), ((''vm'', ''stop''), VmStop), ((''vm'', ''start''), VmStart),
      ((''sessions'', ''clear-all''), SessionsClearAll), ((''runs'', ''abandon-stale''), RunsAbandonStale),
      ((''export'', ''audit-jsonl''), ExportAuditJsonl (default_out f DEFAULT_AUDIT_EXPORT)),
      ((''export'', ''serial-log''), ExportSerialLog (default_out f DEFAULT_SERIAL_EXPORT)),
      ((''llm'', ''clear''), LlmClear), ((''qemu'', ''clear''), QemuClear), ((''qemu'', ''download''), QemuDownload),
      ((''qemu'', ''cancel''), QemuCancel), ((''qemu'', ''status''), QemuStatus), ((''toolchain'', ''cancel''), ToolchainCancel),
      ((''toolchain'', ''clear''), ToolchainClear), ((''preflight'', ''run''), PreflightRun),
      ((''preflight'', ''ack''), PreflightAck)]"

definition three_words :: "cli_flags \<Rightarrow> string \<Rightarrow> ((string \<times> string) \<times> command) list" where
  "three_words f w =
     [((''runs'', ''get''), RunsGet w), ((''audit'', ''resolve''), AuditResolve w (fl_note f)),
      ((''sandboxes'', ''show''), SandboxesShow w), ((''sandboxes'', ''switch''), SandboxesSwitch w),
      ((''workspace'', ''import''), WorkspaceImport w (fl_force f)),
      ((''snapshots'', ''save''), SnapshotsSave w), ((''snapshots'', ''resume''), SnapshotsResume w),
      ((''snapshots'', ''delete''), SnapshotsDelete w), ((''sessions'', ''create''), SessionsCreate w),
      ((''sessions'', ''open''), SessionsOpen w), ((''sessions'', ''delete''), SessionsDelete w),
      ((''export'', ''run-audit''), ExportRunAudit w (default_out f (''run-'' @ w @ ''.jsonl''))),
      ((''llm'', ''load-key''), LlmLoadKey w), ((''qemu'', ''path''), QemuPath w),
      ((''toolchain'', ''path''), ToolchainPath w), ((''theme'', ''set''), ThemeSet w),
      ((''language'', ''set''), LanguageSet w)]"

text \<open>\<open>toolchain_error\<close>: what the host's parser of a toolchain's label refuses one with.\<close>

definition accepted ::
  "(string \<Rightarrow> string) \<Rightarrow> (string \<Rightarrow> string option) \<Rightarrow> string list \<Rightarrow> cli_flags \<Rightarrow> string + command option" where
  "accepted quoted toolchain_error words f =
     (case take 4 words of
        [a] \<Rightarrow> Inr (map_of one_word a)
      | [a, b] \<Rightarrow>
          if a = ''run'' then Inr (Some (Run b (fl_sandbox f)))
          else if (a, b) = (''tasks'', ''dispatch'') then
            (case fl_target f of
               None \<Rightarrow> Inl ''tasks dispatch needs --target <agent_id>''
             | Some target \<Rightarrow>
                 (case fl_input f of
                    None \<Rightarrow> Inl ''tasks dispatch needs --input <text>''
                  | Some input \<Rightarrow> Inr (Some (TasksDispatch target input (fl_sandbox f)))))
          else if (a, b) = (''llm'', ''set'') then map_sum id Some (llm_set f)
          else if (a, b) = (''toolchain'', ''download'') then
            (case Option.bind (fl_toolchain f) toolchain_error of
               Some e \<Rightarrow> Inl e
             | None \<Rightarrow> Inr (Some (ToolchainDownload (fl_toolchain f))))
          else Inr (map_of (two_words f) (a, b))
      | [a, b, c] \<Rightarrow> Inr (map_of (three_words f c) (a, b))
      | [a, b, c, d] \<Rightarrow>
          if (a, b, c) = (''sandboxes'', ''requests'', ''approve'') then Inr (Some (SandboxesRequestsApprove d))
          else if (a, b, c) = (''sandboxes'', ''requests'', ''reject'') then Inr (Some (SandboxesRequestsReject d))
          else if (a, b) = (''sessions'', ''rename'') then Inr (Some (SessionsRename c d))
          else if (a, b, c) = (''audit'', ''alert'', ''set'') then map_sum id (\<lambda>e. Some (AuditAlertSet e)) (parse_on_off quoted d)
          else Inr None
      | _ \<Rightarrow> Inr None)"

definition refusal :: "(string \<Rightarrow> string) \<Rightarrow> string list \<Rightarrow> string" where
  "refusal quoted words =
     (case words of
        [] \<Rightarrow> ''missing <command>''
      | [a] \<Rightarrow> if a = ''run'' then ''run needs a <task>'' else ''unknown command '' @ quoted a
      | a # b # rest \<Rightarrow>
          if (a, b) = (''runs'', ''get'') \<and> rest = [] then ''runs get needs a <run_id>''
          else if (a, b) = (''sessions'', ''rename'') \<and> length rest = 1 then ''sessions rename needs a <title>''
          else if (a, b) = (''export'', ''run-audit'') \<and> rest = [] then ''export run-audit needs a <run_id>''
          else if (a, b) = (''llm'', ''load-key'') \<and> rest = [] then ''llm load-key needs a <provider_id>''
          else if List.member [''qemu'', ''toolchain''] a \<and> b = ''path'' \<and> rest = [] then a @ '' path needs a <file>''
          else if a = ''qemu'' then ''unknown qemu subcommand '' @ quoted b
          else if (a, b) = (''sandboxes'', ''show'') \<and> rest = [] then ''sandboxes show needs a <name>''
          else if (a, b) = (''sandboxes'', ''switch'') \<and> rest = [] then ''sandboxes switch needs a <name>''
          else if (a, b) = (''sandboxes'', ''requests'') \<and> rest \<noteq> [] then
            (if List.member [''approve'', ''reject''] (hd rest) then ''sandboxes requests approve|reject needs an <id>''
             else ''unknown requests subcommand '' @ quoted (hd rest))
          else if a = ''sandboxes'' then ''unknown sandboxes subcommand '' @ quoted b
          else if (a, b) = (''workspace'', ''import'') \<and> rest = [] then ''workspace import needs an <archive>''
          else if a = ''workspace'' then ''unknown workspace subcommand '' @ quoted b
          else if (a, b) = (''audit'', ''alert'') \<and> rest \<noteq> [] then
            (if hd rest = ''set'' then ''audit alert set needs on|off''
             else ''unknown audit alert subcommand '' @ quoted (hd rest))
          else if (a, b) = (''theme'', ''set'') \<and> rest = [] then ''theme set needs light|dark|system''
          else if (a, b) = (''language'', ''set'') \<and> rest = [] then ''language set needs system|en|zh''
          else if (a, b) = (''llm'', ''set'') \<and> rest \<noteq> [] then ''unknown llm subcommand '' @ quoted (hd rest)
          else if List.member [''run'', ''snapshots'', ''sessions''] a \<and> rest = [] \<and> b \<noteq> ''list'' then
            quoted b @ '' needs an argument''
          else ''unknown or incomplete: '' @ a @ '' '' @ b)"

definition parse_command ::
  "(string \<Rightarrow> string) \<Rightarrow> (string \<Rightarrow> string option) \<Rightarrow> string list \<Rightarrow> cli_flags \<Rightarrow> string + command" where
  "parse_command quoted toolchain_error words f =
     bind_result (accepted quoted toolchain_error words f) (\<lambda>c.
       case c of None \<Rightarrow> Inl (refusal quoted words) | Some c \<Rightarrow> Inr c)"

definition is_run :: "command \<Rightarrow> bool" where
  "is_run c \<longleftrightarrow> (case c of Run _ _ \<Rightarrow> True | _ \<Rightarrow> False)"

definition can_wait :: "command \<Rightarrow> bool" where
  "can_wait c \<longleftrightarrow> (case c of ToolchainDownload _ \<Rightarrow> True | PreflightRun \<Rightarrow> True | QemuDownload \<Rightarrow> True | _ \<Rightarrow> False)"

definition parse_scanned ::
  "(string \<Rightarrow> string) \<Rightarrow> (string \<Rightarrow> string option) \<Rightarrow> cli_scan \<Rightarrow> string + parsed" where
  "parse_scanned quoted toolchain_error s =
     bind_result (parse_command quoted toolchain_error (sc_words s) (sc_flags s)) (\<lambda>c.
       if sc_follow s \<and> \<not> is_run c then Inl ''--follow is only meaningful for `run`''
       else if sc_wait s \<and> \<not> can_wait c then
         Inl (''--wait is only meaningful for `toolchain download`, `preflight run` and '' @ ''`qemu download`'')
       else Inr (Parsed
         \<lparr>ca_command = c, ca_remote = sc_remote s, ca_token_file = sc_token_file s, ca_token = sc_token s,
          ca_json = sc_json s, ca_yes = sc_yes s, ca_follow = sc_follow s, ca_wait = sc_wait s\<rparr>))"

definition parse_args ::
  "(string \<Rightarrow> string) \<Rightarrow> (string \<Rightarrow> string) \<Rightarrow> (string \<Rightarrow> string option) \<Rightarrow> string list \<Rightarrow> string + parsed" where
  "parse_args quoted number_error toolchain_error argv =
     bind_result (scan_args quoted number_error argv scan_start) (\<lambda>r.
       case r of AskedFor p \<Rightarrow> Inr p | Scanned s \<Rightarrow> parse_scanned quoted toolchain_error s)"

end
