(* ===== verification/Cli_Render.thy ===== *)
theory Cli_Render
  imports Cli_Args
begin

text \<open>
  What a person reads of an answer (\<open>cli/src/render.rs\<close>): a line or a table per command, a field that
  is missing printed as a dash. An answer is its status, its text and, when the text is JSON, its value.
\<close>

record cli_reply =
  re_status :: nat
  re_body :: string
  re_json :: "json option"

definition reply_succeeded :: "cli_reply \<Rightarrow> bool" where
  "reply_succeeded r \<longleftrightarrow> 200 \<le> re_status r \<and> re_status r \<le> 299"

definition reply_is_empty :: "cli_reply \<Rightarrow> bool" where
  "reply_is_empty r \<longleftrightarrow> trim (re_body r) = []"

section \<open>Fields\<close>

fun as_array :: "json \<Rightarrow> json list option" where
  "as_array (JArr vs) = Some vs"
| "as_array _ = None"

definition bool_text :: "bool \<Rightarrow> string" where
  "bool_text b = (if b then ''true'' else ''false'')"

definition dash :: string where "dash = ''-''"

definition field_text :: "externs \<Rightarrow> json \<Rightarrow> string \<Rightarrow> string" where
  "field_text X v k =
     (case json_get k v of
        Some (JStr s) \<Rightarrow> s
      | Some (JBool b) \<Rightarrow> bool_text b
      | Some (JInt i) \<Rightarrow> show_int i
      | Some (JFloat r) \<Rightarrow> x_text X (JFloat r)
      | _ \<Rightarrow> dash)"

definition field_number :: "json \<Rightarrow> string \<Rightarrow> string" where
  "field_number v k = (case Option.bind (json_get k v) as_i64 of Some i \<Rightarrow> show_int i | None \<Rightarrow> dash)"

definition optional_number :: "externs \<Rightarrow> json \<Rightarrow> string \<Rightarrow> string" where
  "optional_number X v k =
     (case json_get k v of Some (JInt i) \<Rightarrow> show_int i | Some (JFloat r) \<Rightarrow> x_text X (JFloat r) | _ \<Rightarrow> dash)"

definition optional_text :: "json \<Rightarrow> string \<Rightarrow> string" where
  "optional_text v k = (case json_get k v of Some (JStr s) \<Rightarrow> s | _ \<Rightarrow> dash)"

text \<open>Columns, by characters.\<close>

definition pad_right :: "nat \<Rightarrow> string \<Rightarrow> string" where
  "pad_right n s = s @ replicate (n - length (utf8_chars s)) CHR '' ''"

definition pad_left :: "nat \<Rightarrow> string \<Rightarrow> string" where
  "pad_left n s = replicate (n - length (utf8_chars s)) CHR '' '' @ s"

definition shown_lines :: "string list \<Rightarrow> string" where
  "shown_lines ls = join_with newline ls"

definition key_lines :: "nat \<Rightarrow> (string \<times> string) list \<Rightarrow> string" where
  "key_lines width rows = shown_lines (map (\<lambda>(k, v). pad_right width k @ '' '' @ v) rows)"

definition clip :: "string \<Rightarrow> nat \<Rightarrow> string" where
  "clip s limit =
     (if length (utf8_chars s) \<le> limit then s
      else concat (take limit (utf8_chars s)) @ byte_string [226, 128, 166])"

section \<open>Answers\<close>

definition render_health :: "externs \<Rightarrow> json \<Rightarrow> string" where
  "render_health X v =
     field_text X v ''status'' @ ''  version '' @ field_text X v ''version'' @ ''  uptime '' @
     field_number v ''uptime_ms'' @ '' ms''"

definition render_status :: "externs \<Rightarrow> json \<Rightarrow> string" where
  "render_status X v = shown_lines (remdups_adj
     [''status          '' @ field_text X v ''status'', ''version         '' @ field_text X v ''version'',
      ''uptime_ms       '' @ field_number v ''uptime_ms'', ''connections     '' @ field_number v ''connections'',
      ''sse_subscribers '' @ field_number v ''sse_subscribers'', ''agents          '' @ field_number v ''agents'',
      ''agent_id        '' @ field_text X v ''agent_id''])"

definition render_agents :: "externs \<Rightarrow> json \<Rightarrow> string" where
  "render_agents X v = ''agents '' @ field_number v ''agents'' @ ''  agent_id '' @ field_text X v ''agent_id''"

definition render_runs :: "externs \<Rightarrow> json \<Rightarrow> string" where
  "render_runs X v =
     (case as_array v of
        None \<Rightarrow> x_text X v
      | Some rows \<Rightarrow>
          if rows = [] then ''no runs''
          else shown_lines
            ((pad_right 28 ''RUN_ID'' @ '' '' @ pad_right 10 ''STATUS'' @ '' '' @ pad_left 13 ''STARTED_MS'' @ '' '' @
                pad_left 13 ''ENDED_MS'') #
             map (\<lambda>r. pad_right 28 (field_text X r ''run_id'') @ '' '' @ pad_right 10 (field_text X r ''status'') @ '' '' @
                pad_left 13 (field_number r ''started_at_ms'') @ '' '' @ pad_left 13 (optional_number X r ''ended_at_ms'')) rows))"

definition render_one_run :: "externs \<Rightarrow> json \<Rightarrow> string" where
  "render_one_run X v = key_lines 20
     [(''run_id'', field_text X v ''run_id''), (''status'', field_text X v ''status''),
      (''started_at_ms'', field_number v ''started_at_ms''), (''ended_at_ms'', optional_number X v ''ended_at_ms''),
      (''fingerprint'', field_text X v ''fingerprint''), (''fingerprint_short'', field_text X v ''fingerprint_short''),
      (''parent_run_id'', optional_text v ''parent_run_id''), (''session_id'', optional_text v ''session_id''),
      (''resumed_from_snapshot'', optional_text v ''resumed_from_snapshot'')]"

definition or_null :: "json option \<Rightarrow> json" where
  "or_null v = (case v of None \<Rightarrow> JNull | Some v \<Rightarrow> v)"

definition array_size :: "json option \<Rightarrow> nat" where
  "array_size v = (case Option.bind v as_array of None \<Rightarrow> 0 | Some vs \<Rightarrow> length vs)"

definition render_audit_status :: "externs \<Rightarrow> json \<Rightarrow> string" where
  "render_audit_status X v =
     (let chain = or_null (json_get ''chain'' v);
          verdict =
            (if Option.bind (json_get ''status'' chain) as_str = Some ''Broken'' then
               ''Broken at '' @ field_number chain ''at_id'' @ '' ('' @ field_text X chain ''reason'' @ '')''
             else ''Intact length '' @ field_number chain ''length'')
      in shown_lines
        [''count            '' @ field_number v ''count'', ''chain            '' @ verdict,
         ''alert_on_failure '' @ field_text X v ''alert_on_failure'',
         ''failures         '' @ show_nat (array_size (json_get ''failures'' v))])"

definition render_events :: "externs \<Rightarrow> json \<Rightarrow> string" where
  "render_events X v =
     (case as_array v of
        None \<Rightarrow> x_text X v
      | Some rows \<Rightarrow>
          if rows = [] then ''no events''
          else shown_lines
            ((pad_left 6 ''ID'' @ '' '' @ pad_left 13 ''TIMESTAMP_MS'' @ '' '' @ pad_right 9 ''ACTOR'' @ '' '' @ ''ACTION'') #
             map (\<lambda>r. pad_left 6 (field_number r ''id'') @ '' '' @ pad_left 13 (field_number r ''timestamp_ms'') @ '' '' @
                pad_right 9 (field_text X r ''actor'') @ '' '' @ field_text X r ''action'') rows))"

definition render_snapshots :: "externs \<Rightarrow> json \<Rightarrow> string" where
  "render_snapshots X v =
     (case as_array v of
        None \<Rightarrow> x_text X v
      | Some rows \<Rightarrow>
          if rows = [] then ''no snapshots''
          else shown_lines
            ((pad_right 28 ''NAME'' @ '' '' @ pad_left 12 ''SIZE_BYTES'' @ '' '' @ pad_left 13 ''CREATED_AT_MS'' @ '' '' @ ''MODE'') #
             map (\<lambda>r. pad_right 28 (field_text X r ''name'') @ '' '' @ pad_left 12 (field_number r ''size_bytes'') @ '' '' @
                pad_left 13 (field_number r ''created_at_ms'') @ '' '' @ field_text X r ''mode'') rows))"

definition render_sandboxes :: "externs \<Rightarrow> json \<Rightarrow> string" where
  "render_sandboxes X v =
     (case Option.bind (json_get ''sandboxes'' v) as_array of
        None \<Rightarrow> x_text X v
      | Some rows \<Rightarrow> shown_lines
          ([pad_right 10 ''current'' @ '' '' @ optional_text v ''current'',
            pad_right 10 ''default'' @ '' '' @ field_text X v ''default'', [],
            pad_right 28 ''NAME'' @ '' '' @ pad_right 11 ''SOURCE'' @ '' '' @ pad_left 8 ''RUNNABLE'' @ '' '' @
              pad_left 9 ''SHADOWED'' @ '' '' @ pad_left 9 ''MEMORY_MB''] @
           map (\<lambda>r. pad_right 28 (field_text X r ''name'') @ '' '' @ pad_right 11 (field_text X r ''source'') @ '' '' @
              pad_left 8 (field_text X r ''runnable'') @ '' '' @ pad_left 9 (field_text X r ''shadowed'') @ '' '' @
              pad_left 9 (optional_number X r ''memory_mb'')) rows))"

definition render_sandbox_current :: "externs \<Rightarrow> json \<Rightarrow> string" where
  "render_sandbox_current X v =
     key_lines 10 [(''current'', optional_text v ''current''), (''default'', field_text X v ''default'')]"

definition candidate_lines :: "externs \<Rightarrow> json \<Rightarrow> string \<times> string \<Rightarrow> string list" where
  "candidate_lines X v kl =
     (case kl of (key, label) \<Rightarrow>
       (let rows = Option.bind (json_get key v) as_array
        in (label @ '' ('' @ show_nat (case rows of None \<Rightarrow> 0 | Some rs \<Rightarrow> length rs) @ '')'') #
           (case rows of
              Some (r # rs) \<Rightarrow>
                (''  '' @ pad_right 10 ''KIND'' @ '' '' @ pad_right 12 ''VERSION'' @ '' '' @ pad_right 10 ''ORIGIN'' @ '' '' @
                   pad_left 8 ''RUNNABLE'' @ ''  '' @ ''PATH'') #
                map (\<lambda>r. ''  '' @ pad_right 10 (field_text X r ''kind'') @ '' '' @ pad_right 12 (field_text X r ''version'') @ '' '' @
                   pad_right 10 (field_text X r ''origin'') @ '' '' @ pad_left 8 (field_text X r ''runnable'') @ ''  '' @
                   field_text X r ''path'') (r # rs)
            | _ \<Rightarrow> [''  (none)''])))"

definition render_sandbox_candidates :: "externs \<Rightarrow> json \<Rightarrow> string" where
  "render_sandbox_candidates X v =
     shown_lines (concat (map (candidate_lines X v) [(''toolchains'', ''TOOLCHAINS''), (''qemus'', ''QEMUS'')]))"

definition render_sandbox_switched :: "externs \<Rightarrow> json \<Rightarrow> string" where
  "render_sandbox_switched X v =
     (case Option.bind (json_get ''from'' v) as_str of
        Some source \<Rightarrow> ''switched from '' @ source @ '' to '' @ field_text X v ''to''
      | None \<Rightarrow> ''switched to '' @ field_text X v ''to'')"

definition request_line :: "externs \<Rightarrow> json \<Rightarrow> string" where
  "request_line X r =
     field_text X r ''id'' @ '' '' @ field_text X r ''action'' @
     (case Option.bind (json_get ''sandbox'' r) as_str of Some n \<Rightarrow> '' -> '' @ n | None \<Rightarrow> []) @
     '' ['' @ field_text X r ''status'' @ ''] '' @ field_text X r ''requester_agent_id'' @
     (case Option.bind (json_get ''decided_by'' r) as_str of Some n \<Rightarrow> '' by '' @ n | None \<Rightarrow> [])"

definition render_sandbox_requests :: "externs \<Rightarrow> json \<Rightarrow> string" where
  "render_sandbox_requests X v =
     (case Option.bind (json_get ''requests'' v) as_array of
        Some (r # rs) \<Rightarrow> shown_lines (map (request_line X) (r # rs))
      | _ \<Rightarrow> ''no sandbox requests'')"

definition render_request_decided :: "externs \<Rightarrow> json \<Rightarrow> string" where
  "render_request_decided X v = field_text X v ''id'' @ '' is now '' @ field_text X v ''status''"

definition render_workspace_imported :: "json \<Rightarrow> string" where
  "render_workspace_imported v =
     ''imported '' @ field_number v ''files'' @ '' file(s), '' @ field_number v ''bytes'' @ '' bytes''"

definition render_sandbox_detail :: "externs \<Rightarrow> json \<Rightarrow> string" where
  "render_sandbox_detail X v = key_lines 20
     [(''name'', field_text X v ''name''), (''display_name'', optional_text v ''display_name''),
      (''source'', field_text X v ''source''), (''runnable'', field_text X v ''runnable''),
      (''shadowed'', field_text X v ''shadowed''), (''memory_mb'', optional_number X v ''memory_mb''),
      (''qemu_exe'', optional_text v ''qemu_exe''), (''toolchain_path'', optional_text v ''toolchain_path''),
      (''kernel'', optional_text v ''kernel''), (''notes'', optional_text v ''notes'')]"

definition render_executors :: "externs \<Rightarrow> json \<Rightarrow> string" where
  "render_executors X v =
     (case Option.bind (json_get ''executors'' v) as_array of
        None \<Rightarrow> x_text X v
      | Some rows \<Rightarrow>
          if rows = [] then ''no executors are configured (run on this node with `run <task>`)''
          else shown_lines (pad_right 28 ''AGENT_ID'' # map (\<lambda>r. pad_right 28 (field_text X r ''agent_id'')) rows))"

definition render_identity :: "externs \<Rightarrow> json \<Rightarrow> string" where
  "render_identity X v =
     (if v = JNull then ''no identity: the connection layer is not configured''
      else shown_lines
        [''node_id           '' @ field_text X v ''node_id'', ''fingerprint       '' @ field_text X v ''fingerprint'',
         ''short_fingerprint '' @ field_text X v ''short_fingerprint''])"

text \<open>The texts of a row's list, joined; the number of its elements.\<close>

definition words_of :: "json \<Rightarrow> string \<Rightarrow> string list option" where
  "words_of row key = map_option (List.map_filter as_str) (Option.bind (json_get key row) as_array)"

definition joined_words :: "json \<Rightarrow> string \<Rightarrow> string" where
  "joined_words row key = (case words_of row key of None \<Rightarrow> [] | Some ws \<Rightarrow> join_with '' '' ws)"

definition render_peers :: "externs \<Rightarrow> json \<Rightarrow> string" where
  "render_peers X v =
     (case as_array v of
        None \<Rightarrow> ''no peer table: this node has no peers.json''
      | Some rows \<Rightarrow>
          if rows = [] then ''this node knows nobody''
          else shown_lines
            ((pad_right 28 ''NODE_ID'' @ '' '' @ ''ADDRESSES'') #
             map (\<lambda>r. pad_right 28 (field_text X r ''node_id'') @ '' '' @ joined_words r ''addresses'') rows))"

definition render_rooms :: "externs \<Rightarrow> json \<Rightarrow> string" where
  "render_rooms X v =
     (case as_array v of
        None \<Rightarrow> ''no rooms: this node has no rooms.json''
      | Some rows \<Rightarrow>
          if rows = [] then ''this node defines no rooms''
          else shown_lines
            ((pad_right 28 ''ROOM'' @ '' '' @ ''MEMBERS'') #
             map (\<lambda>r. pad_right 28 (field_text X r ''name'') @ '' '' @
               (case Option.bind (json_get ''members'' r) as_array of None \<Rightarrow> dash | Some ms \<Rightarrow> show_nat (length ms))) rows))"

definition render_connection :: "externs \<Rightarrow> json \<Rightarrow> string" where
  "render_connection X v = shown_lines
     [''configured '' @ field_text X v ''configured'', ''connected  '' @ field_text X v ''connected'',
      ''problem    '' @ field_text X v ''problem'']"

definition render_outcome :: "externs \<Rightarrow> json \<Rightarrow> string" where
  "render_outcome X v = shown_lines
     ([''kind       '' @ field_text X v ''kind'', ''iterations '' @ field_number v ''iterations''] @
      (case json_get ''reason'' v of
         None \<Rightarrow> []
       | Some r \<Rightarrow> if r = JNull then [] else [''reason     '' @ field_text X v ''reason'']) @
      (case Option.bind (json_get ''content'' v) as_str of None \<Rightarrow> [] | Some c \<Rightarrow> [[], c]))"

definition run_kind :: "string \<Rightarrow> string" where
  "run_kind tag =
     (if tag = ''Final'' then ''final'' else if tag = ''MaxIterations'' then ''max_iterations''
      else if tag = ''Failed'' then ''failed'' else tag)"

definition render_agent_outcome :: "externs \<Rightarrow> json \<Rightarrow> string" where
  "render_agent_outcome X v =
     (case as_object v of
        Some ((tag, body) # _) \<Rightarrow> shown_lines
          ([''kind       '' @ run_kind tag] @
           (case Option.bind (json_get ''iterations'' body) as_u64 of None \<Rightarrow> [] | Some n \<Rightarrow> [''iterations '' @ show_nat n]) @
           (case Option.bind (json_get ''reason'' body) as_str of None \<Rightarrow> [] | Some r \<Rightarrow> [''reason     '' @ r]) @
           (case Option.bind (case json_get ''content'' body of None \<Rightarrow> json_get ''last_content'' body | Some c \<Rightarrow> Some c) as_str of
              None \<Rightarrow> [] | Some c \<Rightarrow> [[], c]))
      | _ \<Rightarrow> x_text X v)"

definition render_task_outcome :: "externs \<Rightarrow> json \<Rightarrow> string" where
  "render_task_outcome X v = shown_lines
     ([''task_id  '' @ field_text X v ''task_id'', ''agent_id '' @ field_text X v ''agent_id''] @
      (case json_get ''outcome'' v of
         Some outcome \<Rightarrow> [[], render_agent_outcome X outcome]
       | None \<Rightarrow> [''outcome  (none)'']))"

definition render_written :: "json \<Rightarrow> string" where
  "render_written v = ''wrote '' @ field_number v ''bytes_written'' @ '' bytes''"

definition render_deleted :: "json \<Rightarrow> string" where
  "render_deleted v =
     (case Option.bind (json_get ''deleted'' v) as_bool of
        Some True \<Rightarrow> ''deleted'' | Some False \<Rightarrow> ''nothing to delete'' | None \<Rightarrow> ''ok'')"

definition render_session_created :: "externs \<Rightarrow> json \<Rightarrow> string" where
  "render_session_created X v = ''session_id '' @ field_text X v ''session_id''"

definition render_abandoned :: "json \<Rightarrow> string" where
  "render_abandoned v =
     (case Option.bind (json_get ''abandoned'' v) as_array of
        Some ids \<Rightarrow> if ids = [] then ''no stale runs'' else ''abandoned '' @ show_nat (length ids)
      | None \<Rightarrow> ''ok'')"

definition render_session_detail :: "externs \<Rightarrow> json \<Rightarrow> string" where
  "render_session_detail X v =
     (let meta = or_null (json_get ''meta'' v)
      in shown_lines
        [''session_id '' @ field_text X meta ''session_id'', ''title      '' @ field_text X meta ''title'',
         ''messages   '' @ show_nat (array_size (json_get ''messages'' v))])"

definition render_export_written :: "command \<Rightarrow> json \<Rightarrow> string" where
  "render_export_written c v =
     (case output_path c of
        None \<Rightarrow> ''wrote '' @ field_number v ''bytes_written''
      | Some path \<Rightarrow>
          (case c of
             ExportSerialLog _ \<Rightarrow> ''wrote '' @ field_number v ''bytes_written'' @ '' bytes to '' @ path
           | _ \<Rightarrow>
               (let n = field_number v ''events_exported''
                in ''exported '' @ n @ '' '' @ (if n = ''1'' then ''event'' else ''events'') @ '' to '' @ path)))"

definition render_acknowledged :: "command \<Rightarrow> json \<Rightarrow> string" where
  "render_acknowledged c v =
     (case Option.bind (json_get ''state'' v) as_str of
        None \<Rightarrow> ''ok''
      | Some state \<Rightarrow>
          (case c of
             ToolchainDownload _ \<Rightarrow> ''download'' | ToolchainCancel \<Rightarrow> ''download''
           | QemuDownload \<Rightarrow> ''qemu download'' | QemuCancel \<Rightarrow> ''qemu download''
           | PreflightRun \<Rightarrow> ''preflight'' | _ \<Rightarrow> ''request'') @ '' '' @ state)"

definition render_download_status :: "externs \<Rightarrow> json \<Rightarrow> string" where
  "render_download_status X v =
     ''in_progress '' @ field_text X v ''in_progress'' @ newline @ ''last_event  '' @
     (case Option.bind (Option.bind (json_get ''last_event'' v) (json_get ''state'')) as_str of None \<Rightarrow> dash | Some s \<Rightarrow> s)"

definition render_preflight_view :: "externs \<Rightarrow> json \<Rightarrow> string" where
  "render_preflight_view X v = shown_lines
     ([''checked  '' @ field_text X v ''checked'', ''ok       '' @ field_text X v ''ok''] @
      (case Option.bind (json_get ''rows'' v) as_array of
         None \<Rightarrow> []
       | Some rows \<Rightarrow> map (\<lambda>r. pad_right 14 (field_text X r ''step'') @ '' '' @ field_text X r ''state'') rows) @
      concat (map (\<lambda>k. case Option.bind (json_get k v) as_str of None \<Rightarrow> [] | Some l \<Rightarrow> [pad_right 11 k @ '' '' @ l])
        [''failed_step'', ''detail'', ''suggestion'']))"

section \<open>What a node can run\<close>

definition render_failure :: "externs \<Rightarrow> json \<Rightarrow> string" where
  "render_failure X v =
     (let e = (case json_get ''error'' v of None \<Rightarrow> v | Some e \<Rightarrow> e)
      in ''unavailable ('' @ field_number e ''code'' @ '': '' @ field_text X e ''message'' @ '')'')"

definition or_failure :: "externs \<Rightarrow> json option \<Rightarrow> (json \<Rightarrow> string) \<Rightarrow> string" where
  "or_failure X v render =
     (case v of
        None \<Rightarrow> dash
      | Some v \<Rightarrow> if json_get ''error'' v \<noteq> None then render_failure X v else render v)"

definition render_node_id :: "externs \<Rightarrow> json option \<Rightarrow> string" where
  "render_node_id X v =
     (case v of
        Some (JStr i) \<Rightarrow> i
      | Some v \<Rightarrow> if json_get ''error'' v \<noteq> None then render_failure X v
                 else ''- (the connection layer is not configured)''
      | None \<Rightarrow> ''- (the connection layer is not configured)'')"

definition peer_declarations :: "externs \<Rightarrow> json \<Rightarrow> string" where
  "peer_declarations X v =
     (case as_array v of
        None \<Rightarrow> ''no peer table: this node has no peers.json''
      | Some rows \<Rightarrow>
          if rows = [] then ''this node knows nobody, so nothing is declared''
          else shown_lines
            ((pad_right 28 ''NODE_ID'' @ '' '' @ ''CAPABILITIES'') #
             map (\<lambda>r. pad_right 28 (field_text X r ''node_id'') @ '' '' @
               (case words_of r ''capabilities'' of
                  Some (w # ws) \<Rightarrow> join_with '' '' (w # ws)
                | _ \<Rightarrow> ''- (declares nothing)'')) rows))"

definition readiness :: "externs \<Rightarrow> json \<Rightarrow> string" where
  "readiness X v =
     (case Option.bind (json_get ''found'' v) as_bool of
        Some True \<Rightarrow> ''ready       '' @ optional_text v ''path'' @ '' ('' @ field_text X v ''source'' @ '')''
      | Some False \<Rightarrow> ''not found   ('' @ field_text X v ''source'' @ '')''
      | None \<Rightarrow> x_text X v)"

definition render_capabilities :: "externs \<Rightarrow> (string \<times> json) list \<Rightarrow> string" where
  "render_capabilities X sections = join_with (newline @ newline)
     [pad_right 11 ''NODE_ID'' @ '' '' @ render_node_id X (map_of sections ''node_id''),
      ''EXECUTORS'' @ newline @ or_failure X (map_of sections ''executors'') (render_executors X),
      ''SANDBOXES'' @ newline @ or_failure X (map_of sections ''sandboxes'') (render_sandboxes X),
      ''QEMU'' @ newline @ or_failure X (map_of sections ''qemu'') (readiness X),
      ''TOOLCHAIN'' @ newline @ or_failure X (map_of sections ''toolchain'') (readiness X),
      ''PEER DECLARATIONS (each line is what that peer declares about itself '' @ byte_string [226, 128, 148] @
        '' a claim, not a fact)'' @ newline @ or_failure X (map_of sections ''peers'') (peer_declarations X)]"

section \<open>One answer, by its command\<close>

definition human :: "externs \<Rightarrow> command \<Rightarrow> cli_reply \<Rightarrow> string" where
  "human X c reply =
     (if reply_is_empty reply then ''ok''
      else case re_json reply of
        None \<Rightarrow> trim (re_body reply)
      | Some v \<Rightarrow>
          (case c of
             Health \<Rightarrow> render_health X v | Status \<Rightarrow> render_status X v | Agents \<Rightarrow> render_agents X v
           | RunsList _ \<Rightarrow> render_runs X v | RunsGet _ \<Rightarrow> render_one_run X v | AuditStatus \<Rightarrow> render_audit_status X v
           | AuditEvents _ _ \<Rightarrow> render_events X v | SnapshotsList \<Rightarrow> render_snapshots X v
           | SandboxesList \<Rightarrow> render_sandboxes X v | SandboxesCurrent \<Rightarrow> render_sandbox_current X v
           | SandboxesCandidates \<Rightarrow> render_sandbox_candidates X v | SandboxesShow _ \<Rightarrow> render_sandbox_detail X v
           | SandboxesSwitch _ \<Rightarrow> render_sandbox_switched X v | SandboxesRequests _ \<Rightarrow> render_sandbox_requests X v
           | SandboxesRequestsApprove _ \<Rightarrow> render_request_decided X v | SandboxesRequestsReject _ \<Rightarrow> render_request_decided X v
           | WorkspaceImport _ _ \<Rightarrow> render_workspace_imported v | ExecutorsList \<Rightarrow> render_executors X v
           | Identity \<Rightarrow> render_identity X v | Peers \<Rightarrow> render_peers X v | Rooms \<Rightarrow> render_rooms X v
           | Connection \<Rightarrow> render_connection X v | NodeCapabilities \<Rightarrow> x_text X v | Run _ _ \<Rightarrow> render_outcome X v
           | TasksDispatch _ _ _ \<Rightarrow> render_task_outcome X v | SnapshotsSave _ \<Rightarrow> render_written v
           | SnapshotsDelete _ \<Rightarrow> render_deleted v | SessionsCreate _ \<Rightarrow> render_session_created X v
           | SessionsOpen _ \<Rightarrow> render_session_detail X v | RunsAbandonStale \<Rightarrow> render_abandoned v
           | ExportAuditJsonl _ \<Rightarrow> render_export_written c v | ExportRunAudit _ _ \<Rightarrow> render_export_written c v
           | ExportSerialLog _ \<Rightarrow> render_export_written c v | ToolchainDownload _ \<Rightarrow> render_acknowledged c v
           | ToolchainCancel \<Rightarrow> render_acknowledged c v | PreflightRun \<Rightarrow> render_acknowledged c v
           | QemuDownload \<Rightarrow> render_acknowledged c v | QemuCancel \<Rightarrow> render_acknowledged c v
           | QemuStatus \<Rightarrow> render_download_status X v | PreflightAck \<Rightarrow> render_preflight_view X v
           | _ \<Rightarrow> ''ok''))"

end
