(* ===== verification/Cli_Run.thy ===== *)
theory Cli_Run
  imports Cli_Render Agent_Stream
begin

text \<open>
  What the command-line client does with a parsed command (\<open>cli/src/client.rs\<close>, \<open>sse.rs\<close>, \<open>lib.rs\<close>).
  The control plane, the terminal, the files and the environment are the record \<open>cli_env\<close>; what a
  command leaves behind is the record \<open>cli_trace\<close>: the requests it sent, in order, what it printed and
  the files it wrote. A result of \<open>None\<close> is a command that waits for ever.
\<close>

section \<open>Failures\<close>

definition EXIT_OK :: nat where "EXIT_OK = 0"
definition EXIT_LOCAL :: nat where "EXIT_LOCAL = 1"
definition EXIT_USAGE :: nat where "EXIT_USAGE = 2"
definition EXIT_REMOTE :: nat where "EXIT_REMOTE = 3"
definition EXIT_AUTH :: nat where "EXIT_AUTH = 4"

definition exit_code_for :: "nat \<Rightarrow> nat" where
  "exit_code_for status =
     (if 200 \<le> status \<and> status \<le> 299 then EXIT_OK
      else if status = 400 then EXIT_USAGE
      else if status = 401 \<or> status = 403 then EXIT_AUTH
      else EXIT_REMOTE)"

record cli_error =
  ce_code :: nat
  ce_message :: string
  ce_body :: "string option"

definition error_local :: "string \<Rightarrow> cli_error" where
  "error_local m = \<lparr>ce_code = EXIT_LOCAL, ce_message = m, ce_body = None\<rparr>"

definition error_auth :: "string \<Rightarrow> cli_error" where
  "error_auth m = \<lparr>ce_code = EXIT_AUTH, ce_message = m, ce_body = None\<rparr>"

definition error_refused :: "string \<Rightarrow> cli_error" where
  "error_refused m = \<lparr>ce_code = EXIT_USAGE, ce_message = m, ce_body = None\<rparr>"

definition error_message :: "cli_reply \<Rightarrow> string" where
  "error_message r =
     (case re_json r of
        None \<Rightarrow> ''HTTP '' @ show_nat (re_status r) @ '': '' @ trim (re_body r)
      | Some v \<Rightarrow>
          (case (Option.bind (json_get ''code'' v) as_str, Option.bind (json_get ''message'' v) as_str) of
             (Some code, Some message) \<Rightarrow>
               (case Option.bind (json_get ''cause'' v) as_str of
                  Some cause \<Rightarrow> code @ '': '' @ message @ '' (cause: '' @ cause @ '')''
                | None \<Rightarrow> code @ '': '' @ message)
           | _ \<Rightarrow> trim (re_body r)))"

definition from_reply :: "cli_reply \<Rightarrow> cli_error" where
  "from_reply r =
     \<lparr>ce_code = exit_code_for (re_status r), ce_message = error_message r,
      ce_body = (if trim (re_body r) = [] then None else Some (re_body r))\<rparr>"

definition error_json :: "externs \<Rightarrow> cli_error \<Rightarrow> string" where
  "error_json X e =
     (case ce_body e of
        Some b \<Rightarrow> trim b
      | None \<Rightarrow> x_text X (json_obj [(''code'', JStr ''cli_error''), (''message'', JStr (ce_message e)),
          (''retryable'', JBool False), (''cause'', JNull)]))"

section \<open>The world of a command\<close>

datatype cli_payload = NoBody | JsonBody string | ByteBody string string

record cli_request =
  cr_method :: string
  cr_url :: string
  cr_accept :: "string option"
  cr_token :: "string option"
  cr_payload :: cli_payload
  cr_timeout :: "nat option"

datatype stream_end = Ended | Broke string | Silent

text \<open>
  \<open>cv_send\<close>: the answer to a request after those sent before it: no connection, or a status and a
  body that is read or fails. The event stream is its lines and how it ends; \<open>cv_seen\<close> is how many of
  its frames the reading thread has shown when the process no longer waits for it.
\<close>

record cli_env =
  cv_crates :: externs
  cv_quoted :: "string \<Rightarrow> string"
  cv_lossy :: "string \<Rightarrow> string"
  cv_usage :: string
  cv_version :: string
  cv_client_error :: "nat option \<Rightarrow> string option"
  cv_send :: "cli_request list \<Rightarrow> cli_request \<Rightarrow> string + (nat \<times> (string + string))"
  cv_read :: "string \<Rightarrow> string + string"
  cv_read_text :: "string \<Rightarrow> string + string"
  cv_write :: "string \<Rightarrow> string \<Rightarrow> string option"
  cv_stdout_works :: bool
  cv_is_terminal :: bool
  cv_answer :: "string option"
  cv_token_var :: "string option"
  cv_stream :: "string list"
  cv_stream_end :: stream_end
  cv_seen :: nat

record cli_trace =
  ct_sent :: "cli_request list"
  ct_out :: string
  ct_err :: string
  ct_written :: "(string \<times> string) list"

definition silent_trace :: cli_trace where
  "silent_trace = \<lparr>ct_sent = [], ct_out = [], ct_err = [], ct_written = []\<rparr>"

definition print_out :: "string \<Rightarrow> cli_trace \<Rightarrow> cli_trace" where
  "print_out s t = t\<lparr>ct_out := ct_out t @ s\<rparr>"

definition print_err :: "string \<Rightarrow> cli_trace \<Rightarrow> cli_trace" where
  "print_err s t = t\<lparr>ct_err := ct_err t @ s\<rparr>"

section \<open>Requests\<close>

record cli_client =
  cc_base :: string
  cc_token :: "string option"
  cc_timeout :: "nat option"

definition READ_TIMEOUT :: nat where "READ_TIMEOUT = 30"
definition CONTROL_TIMEOUT :: nat where "CONTROL_TIMEOUT = 30 * 60"

definition client_new :: "cli_env \<Rightarrow> string \<Rightarrow> string option \<Rightarrow> nat option \<Rightarrow> cli_error + cli_client" where
  "client_new E base token timeout =
     (case cv_client_error E timeout of
        Some e \<Rightarrow> Inl (error_local (''cannot build the HTTP client: '' @ e))
      | None \<Rightarrow> Inr \<lparr>cc_base = base, cc_token = token, cc_timeout = timeout\<rparr>)"

definition request_of_client ::
  "cli_client \<Rightarrow> string \<Rightarrow> string \<Rightarrow> string option \<Rightarrow> cli_payload \<Rightarrow> cli_request" where
  "request_of_client C method path accept payload =
     \<lparr>cr_method = method, cr_url = cc_base C @ path, cr_accept = accept, cr_token = cc_token C, cr_payload = payload,
      cr_timeout = cc_timeout C\<rparr>"

definition send_request ::
  "cli_env \<Rightarrow> cli_request \<Rightarrow> cli_trace \<Rightarrow> (string + (nat \<times> (string + string))) \<times> cli_trace" where
  "send_request E q t = (cv_send E (ct_sent t) q, t\<lparr>ct_sent := ct_sent t @ [q]\<rparr>)"

definition client_send :: "cli_env \<Rightarrow> cli_request \<Rightarrow> cli_trace \<Rightarrow> (cli_error + cli_reply) \<times> cli_trace" where
  "client_send E q t =
     (case send_request E q t of
        (Inl e, t) \<Rightarrow> (Inl (error_local (''cannot reach '' @ cr_url q @ '': '' @ e)), t)
      | (Inr (status, Inl e), t) \<Rightarrow> (Inl (error_local (''cannot read the answer from '' @ cr_url q @ '': '' @ e)), t)
      | (Inr (status, Inr bytes), t) \<Rightarrow>
          (Inr \<lparr>re_status = status, re_body = cv_lossy E bytes, re_json = x_parse (cv_crates E) (cv_lossy E bytes)\<rparr>, t))"

definition client_get :: "cli_env \<Rightarrow> cli_client \<Rightarrow> string \<Rightarrow> cli_trace \<Rightarrow> (cli_error + cli_reply) \<times> cli_trace" where
  "client_get E C path = client_send E (request_of_client C ''GET'' path (Some ''application/json'') NoBody)"

definition client_post ::
  "cli_env \<Rightarrow> cli_client \<Rightarrow> string \<Rightarrow> json option \<Rightarrow> cli_trace \<Rightarrow> (cli_error + cli_reply) \<times> cli_trace" where
  "client_post E C path body =
     client_send E (request_of_client C ''POST'' path (Some ''application/json'')
       (case body of None \<Rightarrow> NoBody | Some v \<Rightarrow> JsonBody (x_text (cv_crates E) v)))"

definition post_bytes ::
  "cli_env \<Rightarrow> cli_client \<Rightarrow> string \<Rightarrow> string \<Rightarrow> string \<Rightarrow> cli_trace \<Rightarrow> (cli_error + string) \<times> cli_trace" where
  "post_bytes E C path body content_type t =
     (let q = request_of_client C ''POST'' path None (ByteBody content_type body)
      in case send_request E q t of
           (Inl e, t) \<Rightarrow> (Inl (error_local (''cannot reach '' @ cr_url q @ '': '' @ e)), t)
         | (Inr (status, Inl e), t) \<Rightarrow> (Inl (error_local (''cannot read the answer from '' @ cr_url q @ '': '' @ e)), t)
         | (Inr (status, Inr bytes), t) \<Rightarrow>
             if 200 \<le> status \<and> status \<le> 299 then (Inr bytes, t)
             else (Inl (from_reply
               \<lparr>re_status = status, re_body = cv_lossy E bytes, re_json = x_parse (cv_crates E) (cv_lossy E bytes)\<rparr>), t))"

definition open_stream :: "cli_env \<Rightarrow> cli_client \<Rightarrow> string \<Rightarrow> cli_trace \<Rightarrow> (cli_error + string list) \<times> cli_trace" where
  "open_stream E C path t =
     (let q = request_of_client C ''GET'' path (Some ''text/event-stream'') NoBody
      in case send_request E q t of
           (Inl e, t) \<Rightarrow> (Inl (error_local (''cannot open '' @ cr_url q @ '': '' @ e)), t)
         | (Inr (status, body), t) \<Rightarrow>
             if 200 \<le> status \<and> status \<le> 299 then (Inr (cv_stream E), t)
             else
               let body = (case body of Inl _ \<Rightarrow> [] | Inr bytes \<Rightarrow> cv_lossy E bytes)
               in (Inl (from_reply \<lparr>re_status = status, re_body = body, re_json = x_parse (cv_crates E) body\<rparr>), t))"

section \<open>The session\<close>

record cli_session =
  cs_read :: cli_client
  cs_control :: cli_client
  cs_stream :: cli_client

definition remote_base_url :: "string \<Rightarrow> string" where
  "remote_base_url remote =
     (case split_once ''://'' remote of
        Some (_, authority) \<Rightarrow> ''http://'' @ authority
      | None \<Rightarrow> ''http://'' @ remote)"

definition read_one_value :: "cli_env \<Rightarrow> string \<Rightarrow> string + string" where
  "read_one_value E path =
     (case cv_read_text E path of
        Inl e \<Rightarrow> Inl (''cannot read '' @ path @ '': '' @ e)
      | Inr s \<Rightarrow> if trim s = [] then Inl (path @ '' is empty'') else Inr (trim s))"

definition read_token_file :: "cli_env \<Rightarrow> string \<Rightarrow> cli_error + string" where
  "read_token_file E path = map_sum error_auth id (read_one_value E path)"

definition TOKEN_WARNING :: string where
  "TOKEN_WARNING =
     ''riscdom: warning: --token puts the token in the shell history and in `ps`; '' @
     ''prefer --token-file or RISCDOM_TOKEN'' @ newline"

definition remote_token :: "cli_env \<Rightarrow> cli_args \<Rightarrow> cli_trace \<Rightarrow> (cli_error + string option) \<times> cli_trace" where
  "remote_token E args t =
     (case ca_token_file args of
        Some path \<Rightarrow> (map_sum id Some (read_token_file E path), t)
      | None \<Rightarrow>
          (case cv_token_var E of
             Some v \<Rightarrow>
               (if trim v = [] then Inl (error_auth ''RISCDOM_TOKEN is set but empty'') else Inr (Some (trim v)), t)
           | None \<Rightarrow>
               (case ca_token args of
                  Some v \<Rightarrow> (Inr (Some v), print_err TOKEN_WARNING t)
                | None \<Rightarrow> (Inr None, t))))"

definition NO_REMOTE :: string where
  "NO_REMOTE =
     ''no --remote given: the local mode is gone '' @ byte_string [226, 128, 148] @
     '' it is `riscdom-server` now. Start that program and pass --remote <host:port>''"

definition open_session :: "cli_env \<Rightarrow> cli_args \<Rightarrow> cli_trace \<Rightarrow> (cli_error + cli_session) \<times> cli_trace" where
  "open_session E args t =
     (case ca_remote args of
        None \<Rightarrow> (Inl (error_refused NO_REMOTE), t)
      | Some remote \<Rightarrow>
          let base = remote_base_url remote
          in and_then (remote_token E args t) (\<lambda>token t.
               (bind_result (client_new E base token (Some READ_TIMEOUT)) (\<lambda>r.
                bind_result (client_new E base token (Some CONTROL_TIMEOUT)) (\<lambda>c.
                bind_result (client_new E base token None) (\<lambda>s.
                  Inr \<lparr>cs_read = r, cs_control = c, cs_stream = s\<rparr>))), t)))"

text \<open>Silence is not consent.\<close>

definition confirm :: "cli_env \<Rightarrow> string \<Rightarrow> bool \<Rightarrow> cli_trace \<Rightarrow> (cli_error + unit) \<times> cli_trace" where
  "confirm E prompt yes t =
     (if yes then (Inr (), t)
      else if \<not> cv_is_terminal E then
        (Inl (error_refused (''refusing without confirmation: '' @ prompt @ '' (stdin is not a terminal; pass --yes)'')), t)
      else
        (case cv_answer E of
           Some line \<Rightarrow>
             if eq_ignore_ascii_case (trim line) ''y'' \<or> eq_ignore_ascii_case (trim line) ''yes'' then Inr ()
             else Inl (error_refused (''not confirmed: '' @ prompt))
         | None \<Rightarrow> Inl (error_refused (''not confirmed: '' @ prompt)),
         print_err (prompt @ '' [y/N] '') t))"

definition API_KEY_WARNING :: string where
  "API_KEY_WARNING =
     ''riscdom: warning: --api-key puts the key in the shell history and in `ps`; prefer --api-key-file'' @ newline"

definition resolve_key_file :: "cli_env \<Rightarrow> command \<Rightarrow> cli_trace \<Rightarrow> (cli_error + command) \<times> cli_trace" where
  "resolve_key_file E c t =
     (case c of
        LlmSet key key_file base model provider remember \<Rightarrow>
          (case key of
             Some k \<Rightarrow> (Inr (LlmSet (Some k) None base model provider remember), print_err API_KEY_WARNING t)
           | None \<Rightarrow>
               (case key_file of
                  None \<Rightarrow> Inl (error_refused ''llm set needs --api-key <key> or --api-key-file <path>'')
                | Some path \<Rightarrow>
                    (case read_one_value E path of
                       Inl e \<Rightarrow> Inl (error_local (''cannot read the API key: '' @ e))
                     | Inr k \<Rightarrow> Inr (LlmSet (Some k) None base model provider remember)), t))
      | _ \<Rightarrow> (Inr c, t))"

section \<open>The event stream\<close>

record cli_frame =
  cf_id :: "string option"
  cf_data :: string

definition frame_json :: "externs \<Rightarrow> cli_frame \<Rightarrow> json option" where
  "frame_json X f = x_parse X (cf_data f)"

definition frame_member :: "externs \<Rightarrow> string \<Rightarrow> cli_frame \<Rightarrow> string option" where
  "frame_member X k f = Option.bind (Option.bind (frame_json X f) (json_get k)) as_str"

definition strip_prefix :: "string \<Rightarrow> string \<Rightarrow> string option" where
  "strip_prefix p s = (if starts_with s p then Some (drop (length p) s) else None)"

text \<open>The next frame and the lines after it; \<open>None\<close>: no line comes any more and the stream stays open.\<close>

fun next_frame ::
  "stream_end \<Rightarrow> string option \<Rightarrow> string list \<Rightarrow> string list \<Rightarrow>
   ((cli_error + cli_frame option) \<times> string list) option" where
  "next_frame ending i data [] =
     (case ending of
        Silent \<Rightarrow> None
      | Broke e \<Rightarrow> Some (Inl (error_local (''the event stream broke: '' @ e)), [])
      | Ended \<Rightarrow> Some (Inr (if data = [] then None else Some \<lparr>cf_id = i, cf_data = join_with newline data\<rparr>), []))"
| "next_frame ending i data (line # lines) =
     (let s = trim_end_of {CHR 0x0D, CHR 0x0A} line
      in if s = [] then
           (if data = [] \<and> i = None then next_frame ending i data lines
            else Some (Inr (Some \<lparr>cf_id = i, cf_data = join_with newline data\<rparr>), lines))
         else case strip_prefix ''id: '' s of
           Some v \<Rightarrow> next_frame ending (Some v) data lines
         | None \<Rightarrow>
             (case strip_prefix ''data: '' s of
                Some v \<Rightarrow> next_frame ending i (data @ [v]) lines
              | None \<Rightarrow> next_frame ending i data lines))"

definition subscribe :: "cli_env \<Rightarrow> cli_session \<Rightarrow> cli_trace \<Rightarrow> ((cli_error + string list) \<times> cli_trace) option" where
  "subscribe E S t =
     (case open_stream E (cs_stream S) ''/v0/events'' t of
        (Inl e, t) \<Rightarrow> Some (Inl e, t)
      | (Inr lines, t) \<Rightarrow>
          (case next_frame (cv_stream_end E) None [] lines of
             None \<Rightarrow> None
           | Some (Inl e, _) \<Rightarrow> Some (Inl e, t)
           | Some (Inr f, lines) \<Rightarrow>
               Some (if Option.bind f (frame_member (cv_crates E) ''kind'') = Some ''hello'' then Inr lines
                     else Inl (error_local ''the event stream did not greet us''), t)))"

definition frame_line :: "externs \<Rightarrow> cli_frame \<Rightarrow> string" where
  "frame_line X f =
     (case frame_json X f of
        None \<Rightarrow> cf_data f
      | Some v \<Rightarrow>
          (case Option.bind (json_get ''event'' v) as_str of
             Some event \<Rightarrow>
               event @ '' '' @ clip (case json_get ''payload'' v of None \<Rightarrow> [] | Some p \<Rightarrow> x_text X p) 160
           | None \<Rightarrow>
               (case Option.bind (json_get ''kind'' v) as_str of None \<Rightarrow> ''frame'' | Some k \<Rightarrow> k) @ '' '' @
               clip (x_text X v) 160))"

definition shown_frame :: "cli_env \<Rightarrow> bool \<Rightarrow> cli_frame \<Rightarrow> string" where
  "shown_frame E as_json f = (if as_json then cf_data f else frame_line (cv_crates E) f) @ newline"

section \<open>Reporting\<close>

definition report :: "cli_env \<Rightarrow> cli_args \<Rightarrow> cli_error \<Rightarrow> cli_trace \<Rightarrow> nat \<times> cli_trace" where
  "report E args e t =
     (ce_code e, print_err ((if ca_json args then error_json (cv_crates E) e else ce_message e) @ newline) t)"

definition show_reply :: "cli_env \<Rightarrow> cli_args \<Rightarrow> cli_reply \<Rightarrow> cli_trace \<Rightarrow> nat \<times> cli_trace" where
  "show_reply E args r t =
     (if \<not> reply_succeeded r then report E args (from_reply r) t
      else (EXIT_OK,
        if ca_json args then (if reply_is_empty r then t else print_out (re_body r @ newline) t)
        else print_out (human (cv_crates E) (ca_command args) r @ newline) t))"

text \<open>\<open>run --follow\<close>: the thread prints frames until the run's last one; the request's answer decides.\<close>

fun follow_reader :: "cli_env \<Rightarrow> bool \<Rightarrow> nat \<Rightarrow> string list \<Rightarrow> string" where
  "follow_reader E as_json 0 lines = []"
| "follow_reader E as_json (Suc n) lines =
     (case next_frame (cv_stream_end E) None [] lines of
        Some (Inr (Some f), rest) \<Rightarrow>
          shown_frame E as_json f @
          (if frame_member (cv_crates E) ''event'' f = Some ''agent:final'' then [] else follow_reader E as_json n rest)
      | _ \<Rightarrow> [])"

definition follow_run :: "cli_env \<Rightarrow> cli_args \<Rightarrow> cli_session \<Rightarrow> cli_trace \<Rightarrow> (nat \<times> cli_trace) option" where
  "follow_run E args S t =
     (case subscribe E S t of
        None \<Rightarrow> None
      | Some (Inl e, t) \<Rightarrow> Some (report E args e t)
      | Some (Inr lines, t) \<Rightarrow>
          (case client_post E (cs_control S) ''/v0/agent/run'' (request_body (ca_command args)) t of
             (Inl e, t) \<Rightarrow> Some (report E args e (print_out (follow_reader E (ca_json args) (cv_seen E) lines) t))
           | (Inr r, t) \<Rightarrow> Some (show_reply E args r (print_out (follow_reader E (ca_json args) (cv_seen E) lines) t))))"

section \<open>Waiting for work\<close>

record waiting =
  wt_event :: string
  wt_label :: string
  wt_terminal :: "json \<Rightarrow> bool option"

definition download_terminal :: "json \<Rightarrow> bool option" where
  "download_terminal payload =
     (case Option.bind (json_get ''state'' payload) as_str of
        None \<Rightarrow> None
      | Some s \<Rightarrow> if s = ''done'' then Some True else if s = ''failed'' \<or> s = ''cancelled'' then Some False else None)"

definition PREFLIGHT_STEPS :: "string list" where
  "PREFLIGHT_STEPS = [''gcc_runs'', ''gcc_compiles'', ''qemu_runs'', ''guest_boots'']"

definition preflight_terminal :: "json \<Rightarrow> bool option" where
  "preflight_terminal payload =
     (case Option.bind (json_get ''state'' payload) as_str of
        None \<Rightarrow> None
      | Some state \<Rightarrow>
          if state = ''failed'' then Some False
          else case Option.bind (json_get ''step'' payload) as_str of
            None \<Rightarrow> None
          | Some step \<Rightarrow> if step = last PREFLIGHT_STEPS \<and> state = ''ok'' then Some True else None)"

definition waiting_for :: "command \<Rightarrow> waiting option" where
  "waiting_for c =
     (case c of
        ToolchainDownload _ \<Rightarrow>
          Some \<lparr>wt_event = ''toolchain:download'', wt_label = ''download'', wt_terminal = download_terminal\<rparr>
      | QemuDownload \<Rightarrow>
          Some \<lparr>wt_event = ''qemu:download'', wt_label = ''qemu download'', wt_terminal = download_terminal\<rparr>
      | PreflightRun \<Rightarrow>
          Some \<lparr>wt_event = ''preflight:progress'', wt_label = ''preflight'', wt_terminal = preflight_terminal\<rparr>
      | _ \<Rightarrow> None)"

lemma next_frame_rest:
  "next_frame ending i data lines = Some (r, rest) \<Longrightarrow> length rest \<le> length lines"
proof (induction lines arbitrary: i data)
  case (Cons line lines)
  then show ?case
    by (auto simp: Let_def intro: le_SucI split: if_splits option.splits)
qed (auto split: stream_end.splits)

lemma next_frame_shorter:
  "next_frame ending None [] lines = Some (Inr (Some f), rest) \<Longrightarrow> length rest < length lines"
proof (induction lines)
  case (Cons line lines)
  then show ?case
    by (auto simp: Let_def less_Suc_eq_le intro: next_frame_rest le_SucI split: if_splits option.splits)
qed (auto split: stream_end.splits if_splits)

text \<open>The reading thread until the work is over: what it prints, and the verdict when one came.\<close>

function wait_reader ::
  "cli_env \<Rightarrow> bool \<Rightarrow> waiting \<Rightarrow> string list \<Rightarrow> (string \<times> bool option) option" where
  "wait_reader E as_json w lines =
     (case next_frame (cv_stream_end E) None [] lines of
        None \<Rightarrow> None
      | Some (r, rest) \<Rightarrow>
          (case r of
             Inr (Some f) \<Rightarrow>
               if frame_member (cv_crates E) ''event'' f \<noteq> Some (wt_event w) then wait_reader E as_json w rest
               else
                 (case Option.bind (Option.bind (frame_json (cv_crates E) f) (json_get ''payload'')) (wt_terminal w) of
                    Some ok \<Rightarrow> Some (shown_frame E as_json f, Some ok)
                  | None \<Rightarrow> map_option (\<lambda>(s, v). (shown_frame E as_json f @ s, v)) (wait_reader E as_json w rest))
           | _ \<Rightarrow> Some ([], None)))"
  by pat_completeness auto
termination wait_reader
  by (relation "measure (\<lambda>(E, as_json, w, lines). length lines)") (auto dest: next_frame_shorter)

text \<open>What the thread has printed of \<open>n\<close> frames, when the command ends without waiting for it.\<close>

fun wait_glimpse :: "cli_env \<Rightarrow> bool \<Rightarrow> waiting \<Rightarrow> nat \<Rightarrow> string list \<Rightarrow> string" where
  "wait_glimpse E as_json w 0 lines = []"
| "wait_glimpse E as_json w (Suc n) lines =
     (case next_frame (cv_stream_end E) None [] lines of
        Some (Inr (Some f), rest) \<Rightarrow>
          if frame_member (cv_crates E) ''event'' f \<noteq> Some (wt_event w) then wait_glimpse E as_json w n rest
          else shown_frame E as_json f @
            (if Option.bind (Option.bind (frame_json (cv_crates E) f) (json_get ''payload'')) (wt_terminal w) \<noteq> None then []
             else wait_glimpse E as_json w n rest)
      | _ \<Rightarrow> [])"

definition wait_run :: "cli_env \<Rightarrow> cli_args \<Rightarrow> cli_session \<Rightarrow> waiting \<Rightarrow> cli_trace \<Rightarrow> (nat \<times> cli_trace) option" where
  "wait_run E args S w t =
     (case subscribe E S t of
        None \<Rightarrow> None
      | Some (Inl e, t) \<Rightarrow> Some (report E args e t)
      | Some (Inr lines, t) \<Rightarrow>
          (case client_post E (cs_control S) (request_path (ca_command args)) (request_body (ca_command args)) t of
             (Inl e, t) \<Rightarrow> Some (report E args e (print_out (wait_glimpse E (ca_json args) w (cv_seen E) lines) t))
           | (Inr r, t) \<Rightarrow>
               if \<not> reply_succeeded r then
                 Some (report E args (from_reply r) (print_out (wait_glimpse E (ca_json args) w (cv_seen E) lines) t))
               else
                 (case wait_reader E (ca_json args) w lines of
                    None \<Rightarrow> None
                  | Some (shown, None) \<Rightarrow>
                      Some (report E args (error_local ''the event stream ended before the work finished'') (print_out shown t))
                  | Some (shown, Some ok) \<Rightarrow>
                      Some (if ok then EXIT_OK else EXIT_REMOTE,
                        print_out (shown @
                          (if ca_json args then []
                           else wt_label w @ '' '' @ (if ok then ''ok'' else ''failed'') @ newline)) t))))"

section \<open>Project in and out\<close>

definition archive_content_type :: "string \<Rightarrow> string option" where
  "archive_content_type bytes =
     (if starts_with bytes ''PK'' then Some ''application/zip''
      else if starts_with bytes (byte_string [31, 139]) then Some ''application/gzip''
      else if 262 < length bytes \<and> take 5 (drop 257 bytes) = ''ustar'' then Some ''application/x-tar''
      else None)"

text \<open>Indexing a value that has no such member gives \<open>null\<close>.\<close>

definition member_text :: "externs \<Rightarrow> json \<Rightarrow> string \<Rightarrow> string" where
  "member_text X v k = x_text X (or_null (json_get k v))"

definition import_workspace :: "cli_env \<Rightarrow> cli_args \<Rightarrow> cli_session \<Rightarrow> string \<Rightarrow> cli_trace \<Rightarrow> nat \<times> cli_trace" where
  "import_workspace E args S archive t =
     (case cv_read E archive of
        Inl e \<Rightarrow> report E args (error_local (''cannot read '' @ archive @ '': '' @ e)) t
      | Inr bytes \<Rightarrow>
          (case archive_content_type bytes of
             None \<Rightarrow> report E args (error_local (archive @ '' is neither a zip nor a tar/tar.gz archive'')) t
           | Some content_type \<Rightarrow>
               (case post_bytes E (cs_control S) (request_path (ca_command args)) bytes content_type t of
                  (Inl e, t) \<Rightarrow> report E args e t
                | (Inr answer, t) \<Rightarrow>
                    let v = or_null (x_parse (cv_crates E) answer);
                        X = cv_crates E
                    in (EXIT_OK, print_out
                      ((if ca_json args then cv_lossy E answer
                        else ''imported '' @ member_text X v ''files'' @ '' file(s), '' @ member_text X v ''bytes'' @ '' bytes'') @
                       newline) t))))"

definition export_workspace :: "cli_env \<Rightarrow> cli_args \<Rightarrow> cli_session \<Rightarrow> string option \<Rightarrow> cli_trace \<Rightarrow> nat \<times> cli_trace" where
  "export_workspace E args S target t =
     (case post_bytes E (cs_control S) (request_path (ca_command args)) [] ''application/json'' t of
        (Inl e, t) \<Rightarrow> report E args e t
      | (Inr bytes, t) \<Rightarrow>
          (case target of
             Some path \<Rightarrow>
               (case cv_write E path bytes of
                  Some e \<Rightarrow> report E args (error_local (''cannot write '' @ path @ '': '' @ e)) t
                | None \<Rightarrow>
                    (EXIT_OK,
                     (if ca_json args then id
                      else print_err (''exported '' @ show_nat (length bytes) @ '' bytes to '' @ path @ newline))
                     (t\<lparr>ct_written := ct_written t @ [(path, bytes)]\<rparr>)))
           | None \<Rightarrow>
               if \<not> cv_stdout_works E then report E args (error_local ''cannot write the archive to stdout'') t
               else
                 (EXIT_OK,
                  (if ca_json args then id else print_err (''exported '' @ show_nat (length bytes) @ '' bytes'' @ newline))
                  (print_out bytes t))))"

section \<open>What a node can run\<close>

definition CAPABILITY_READS :: "(string \<times> string) list" where
  "CAPABILITY_READS =
     [(''executors'', ''/v0/executors''), (''sandboxes'', ''/v0/sandboxes''), (''qemu'', ''/v0/qemu''),
      (''toolchain'', ''/v0/toolchain''), (''peers'', ''/v0/peers'')]"

definition error_section :: "cli_error \<Rightarrow> json" where
  "error_section e =
     json_obj [(''error'', json_obj [(''code'', JInt (int (ce_code e))), (''message'', JStr (ce_message e))])]"

definition capability_section :: "cli_error + cli_reply \<Rightarrow> json \<times> nat" where
  "capability_section outcome =
     (case outcome of
        Inr r \<Rightarrow>
          if reply_succeeded r then (or_null (re_json r), 0)
          else (error_section (from_reply r), ce_code (from_reply r))
      | Inl e \<Rightarrow> (error_section e, ce_code e))"

fun read_sections ::
  "cli_env \<Rightarrow> cli_session \<Rightarrow> (string \<times> string) list \<Rightarrow> (string \<times> json) list \<Rightarrow> nat \<Rightarrow> cli_trace \<Rightarrow>
   ((string \<times> json) list \<times> nat) \<times> cli_trace" where
  "read_sections E S [] sections code t = ((sections, code), t)"
| "read_sections E S ((key, path) # reads) sections code t =
     (case client_get E (cs_read S) path t of
        (outcome, t) \<Rightarrow>
          let (v, c) = capability_section outcome
          in read_sections E S reads (put key v sections) (max code c) t)"

definition node_capabilities :: "cli_env \<Rightarrow> cli_args \<Rightarrow> cli_session \<Rightarrow> cli_trace \<Rightarrow> nat \<times> cli_trace" where
  "node_capabilities E args S t =
     (case client_get E (cs_read S) ''/v0/identity'' t of
        (outcome, t) \<Rightarrow>
          let (identity, code) = capability_section outcome;
              node_id = (case json_get ''node_id'' identity of None \<Rightarrow> identity | Some v \<Rightarrow> v)
          in (case read_sections E S CAPABILITY_READS (put ''node_id'' node_id []) code t of
                ((sections, code), t) \<Rightarrow>
                  (code, print_out
                    ((if ca_json args then x_text (cv_crates E) (JObj sections)
                      else render_capabilities (cv_crates E) sections) @ newline) t)))"

section \<open>One command\<close>

definition dispatch_command :: "cli_env \<Rightarrow> cli_args \<Rightarrow> cli_session \<Rightarrow> cli_trace \<Rightarrow> nat \<times> cli_trace" where
  "dispatch_command E args S t =
     (let c = ca_command args
      in case c of
           WorkspaceImport archive force \<Rightarrow> import_workspace E args S archive t
         | WorkspaceExport target \<Rightarrow> export_workspace E args S target t
         | NodeCapabilities \<Rightarrow> node_capabilities E args S t
         | _ \<Rightarrow>
             (case (if command_method c = ''GET'' then client_get E (cs_read S) (request_path c) t
                    else client_post E (cs_control S) (request_path c) (request_body c) t) of
                (Inl e, t) \<Rightarrow> report E args e t
              | (Inr r, t) \<Rightarrow> show_reply E args r t))"

definition run_command :: "cli_env \<Rightarrow> cli_args \<Rightarrow> cli_trace \<Rightarrow> (nat \<times> cli_trace) option" where
  "run_command E args t =
     (case resolve_key_file E (ca_command args) t of
        (Inl e, t) \<Rightarrow> Some (report E args e t)
      | (Inr c, t) \<Rightarrow>
          (let args = args\<lparr>ca_command := c\<rparr>
           in case open_session E args t of
                (Inl e, t) \<Rightarrow> Some (report E args e t)
              | (Inr S, t) \<Rightarrow>
                  (case (case confirmation (cv_quoted E) c of
                           None \<Rightarrow> (Inr (), t)
                         | Some prompt \<Rightarrow> confirm E prompt (ca_yes args) t) of
                     (Inl e, t) \<Rightarrow> Some (report E args e t)
                   | (Inr _, t) \<Rightarrow>
                       if ca_follow args then follow_run E args S t
                       else if ca_wait args then
                         (case waiting_for c of
                            Some w \<Rightarrow> wait_run E args S w t
                          | None \<Rightarrow> Some (report E args (error_refused ''--wait does not apply to this command'') t))
                       else Some (dispatch_command E args S t))))"

definition run_cli :: "cli_env \<Rightarrow> parsed \<Rightarrow> (nat \<times> cli_trace) option" where
  "run_cli E p =
     (case p of
        ShowHelp \<Rightarrow> Some (0, print_out (cv_usage E) silent_trace)
      | ShowVersion \<Rightarrow> Some (0, print_out (''riscdom '' @ cv_version E @ newline) silent_trace)
      | Parsed args \<Rightarrow> run_command E args silent_trace)"

text \<open>The program: a line it cannot parse is printed with the usage.\<close>

definition cli_main ::
  "cli_env \<Rightarrow> (string \<Rightarrow> string) \<Rightarrow> (string \<Rightarrow> string option) \<Rightarrow> string list \<Rightarrow> (nat \<times> cli_trace) option" where
  "cli_main E number_error toolchain_error argv =
     (case parse_args (cv_quoted E) number_error toolchain_error argv of
        Inl message \<Rightarrow> Some (2, print_err (''riscdom: '' @ message @ newline @ cv_usage E) silent_trace)
      | Inr p \<Rightarrow> run_cli E p)"

end
