(* ===== verification/Cli_Properties.thy ===== *)
theory Cli_Properties
  imports Cli_Run Sample_Externs
begin

text \<open>
  What the command line guarantees: how a line is read, what an id becomes in an address, when a
  command that destroys something is sent, and what the exit code says.
\<close>

section \<open>Lines as groups\<close>

text \<open>A line is spelled from words, options without a value and options with one.\<close>

datatype arg_group = WordArg string | SwitchArg string | ValueArg string string

fun spelled :: "arg_group \<Rightarrow> string list" where
  "spelled (WordArg w) = [w]"
| "spelled (SwitchArg a) = [a]"
| "spelled (ValueArg a v) = [a, v]"

definition SWITCHES :: "string list" where
  "SWITCHES = [''--json'', ''--yes'', ''-y'', ''--follow'', ''-f'', ''--wait'', ''-w'', ''--remember'', ''--force'']"

fun well_spelled :: "arg_group \<Rightarrow> bool" where
  "well_spelled (WordArg w) \<longleftrightarrow> \<not> (starts_with w ''-'' \<and> 1 < length w)"
| "well_spelled (SwitchArg a) \<longleftrightarrow> List.member SWITCHES a"
| "well_spelled (ValueArg a v) \<longleftrightarrow> List.member VALUED a"

fun is_word :: "arg_group \<Rightarrow> bool" where
  "is_word (WordArg w) \<longleftrightarrow> True"
| "is_word _ \<longleftrightarrow> False"

fun word_text :: "arg_group \<Rightarrow> string" where
  "word_text (WordArg w) = w"
| "word_text _ = []"

definition with_words :: "string list \<Rightarrow> cli_scan \<Rightarrow> cli_scan" where
  "with_words ws s = s\<lparr>sc_words := sc_words s @ ws\<rparr>"

lemma with_words_simps [simp]:
  "with_words [] s = s" "with_words vs (with_words ws s) = with_words (ws @ vs) s"
  by (simp_all add: with_words_def)

lemma set_switch_words: "set_switch a (with_words ws s) = map_option (with_words ws) (set_switch a s)"
  by (simp add: set_switch_def with_words_def)

lemma set_value_words: "set_value q n a v (with_words ws s) = map_sum id (with_words ws) (set_value q n a v s)"
  by (simp add: set_value_def with_words_def split: option.split)

lemma dashed_option:
  "List.member SWITCHES a \<or> List.member VALUED a \<or> List.member [''--help'', ''-h'', ''--version'', ''-V''] a \<Longrightarrow>
   starts_with a ''-'' \<and> 1 < length a"
  by (auto simp: SWITCHES_def VALUED_def starts_with_def)

lemma set_switch_some: "set_switch a s \<noteq> None \<longleftrightarrow> List.member SWITCHES a"
  by (simp add: set_switch_def SWITCHES_def)

text \<open>What the scan makes of a line of groups: the options, in order, then the words.\<close>

fun scan_group ::
  "(string \<Rightarrow> string) \<Rightarrow> (string \<Rightarrow> string) \<Rightarrow> arg_group \<Rightarrow> cli_scan \<Rightarrow> string + cli_scan" where
  "scan_group q n (WordArg w) s = Inr (with_words [w] s)"
| "scan_group q n (SwitchArg a) s = Inr (case set_switch a s of None \<Rightarrow> s | Some s \<Rightarrow> s)"
| "scan_group q n (ValueArg a v) s = set_value q n a v s"

fun scan_groups ::
  "(string \<Rightarrow> string) \<Rightarrow> (string \<Rightarrow> string) \<Rightarrow> arg_group list \<Rightarrow> cli_scan \<Rightarrow> string + cli_scan" where
  "scan_groups q n [] s = Inr s"
| "scan_groups q n (g # gs) s = bind_result (scan_group q n g s) (scan_groups q n gs)"

lemma scan_args_groups:
  "list_all well_spelled gs \<Longrightarrow>
   scan_args q n (concat (map spelled gs)) s = map_sum id Scanned (scan_groups q n gs s)"
proof (induction gs arbitrary: s)
  case (Cons g gs)
  show ?case
  proof (cases g)
    case (WordArg w)
    then have plain: "\<not> (starts_with w ''-'' \<and> 1 < length w)" using Cons.prems by simp
    then have "set_switch w s = None" "\<not> List.member VALUED w"
      "\<not> List.member [''--help'', ''-h'', ''--version'', ''-V''] w"
      using dashed_option [of w] set_switch_some [of w s] by blast+
    then show ?thesis using Cons plain by (auto simp: WordArg with_words_def)
  next
    case (SwitchArg a)
    then have "List.member SWITCHES a" using Cons.prems by simp
    moreover from this have "\<not> List.member [''--help'', ''-h'', ''--version'', ''-V''] a"
      by (auto simp: SWITCHES_def)
    ultimately show ?thesis using Cons set_switch_some [of a s] by (auto simp: SwitchArg)
  next
    case (ValueArg a v)
    then have a: "List.member VALUED a" using Cons.prems by simp
    then have "\<not> List.member [''--help'', ''-h'', ''--version'', ''-V''] a" "\<not> List.member SWITCHES a"
      by (auto simp: SWITCHES_def VALUED_def)
    then have "set_switch a s = None" using set_switch_some [of a s] by blast
    then show ?thesis
      using Cons a \<open>\<not> List.member [''--help'', ''-h'', ''--version'', ''-V''] a\<close>
      by (cases "set_value q n a v s") (auto simp: ValueArg)
  qed
qed simp

lemma scan_group_words:
  "\<not> is_word g \<Longrightarrow> scan_group q n g (with_words ws s) = map_sum id (with_words ws) (scan_group q n g s)"
  by (cases g) (auto simp: set_switch_words set_value_words split: option.splits)

lemma scan_groups_words:
  "list_all (\<lambda>g. \<not> is_word g) gs \<Longrightarrow>
   scan_groups q n gs (with_words ws s) = map_sum id (with_words ws) (scan_groups q n gs s)"
proof (induction gs arbitrary: s)
  case (Cons g gs)
  then show ?case by (cases "scan_group q n g s") (auto simp: scan_group_words)
qed simp

lemma scan_groups_split:
  "scan_groups q n gs s =
     map_sum id (with_words (map word_text (filter is_word gs))) (scan_groups q n (filter (\<lambda>g. \<not> is_word g) gs) s)"
proof (induction gs arbitrary: s)
  case (Cons g gs)
  show ?case
  proof (cases g)
    case (WordArg w)
    have "list_all (\<lambda>g. \<not> is_word g) (filter (\<lambda>g. \<not> is_word g) gs)" by (auto simp: list_all_iff)
    then show ?thesis
      using Cons.IH [of "with_words [w] s"]
      by (simp add: WordArg scan_groups_words sum.map_comp comp_def)
  qed (cases "scan_group q n g s"; use Cons.IH in simp)+
qed (simp add: id_def)

text \<open>
  C25. Options may stand anywhere on the line, before, between and after the words of the command: a
  line is read by its words, in order, and its options, in order, and not by how the two interleave.
\<close>

theorem options_stand_anywhere:
  assumes "list_all well_spelled gs" and "list_all well_spelled hs"
    and "filter is_word gs = filter is_word hs"
    and "filter (\<lambda>g. \<not> is_word g) gs = filter (\<lambda>g. \<not> is_word g) hs"
  shows "parse_args quoted number_error toolchain_error (concat (map spelled gs)) =
    parse_args quoted number_error toolchain_error (concat (map spelled hs))"
  using assms(3,4) scan_groups_split [of quoted number_error gs scan_start]
    scan_groups_split [of quoted number_error hs scan_start]
  by (simp add: parse_args_def scan_args_groups [OF assms(1)] scan_args_groups [OF assms(2)])

theorem options_stand_anywhere_witness:
  "parse_args id id (\<lambda>_. None) [''--json'', ''runs'', ''--limit'', ''3'', ''list''] =
   parse_args id id (\<lambda>_. None) [''runs'', ''list'', ''--json'', ''--limit'', ''3'']"
  using options_stand_anywhere
    [of "[SwitchArg ''--json'', WordArg ''runs'', ValueArg ''--limit'' ''3'', WordArg ''list'']"
        "[WordArg ''runs'', WordArg ''list'', SwitchArg ''--json'', ValueArg ''--limit'' ''3'']" id id "\<lambda>_. None"]
  by (simp add: SWITCHES_def VALUED_def starts_with_def)

section \<open>Ids in addresses\<close>

text \<open>What a server reads of an address: its pieces between slashes, percent signs resolved.\<close>

definition hex_value :: "char \<Rightarrow> nat" where
  "hex_value c = (if c \<le> CHR ''9'' then of_char c - 48 else of_char c - 55)"

fun url_decode :: "string \<Rightarrow> string" where
  "url_decode (c # a # b # s) =
     (if c = CHR ''%'' then char_of (16 * hex_value a + hex_value b) # url_decode s else c # url_decode (a # b # s))"
| "url_decode s = s"

definition address_pieces :: "string \<Rightarrow> string list" where
  "address_pieces a = map url_decode (path_parts a [])"

lemma hex_value_upper: "d < 16 \<Longrightarrow> hex_value (hex_upper d) = d"
proof -
  assume "d < 16"
  then have "d \<in> set [0 ..< 16]" by simp
  then show ?thesis by (simp add: upt_rec hex_value_def hex_upper_def) (elim disjE; simp; code_simp)
qed

lemma half_byte: "(of_char (c :: char) :: nat) div 16 < 16"
proof -
  have "(of_char c :: nat) < 256" by (rule nat_of_char_less_256)
  then show ?thesis by (intro less_mult_imp_div_less) simp
qed

lemma char_halves: "char_of (16 * (of_char c div 16) + of_char c mod (16 :: nat)) = (c :: char)"
  by (simp add: mult_div_mod_eq)

lemma percent_reserved: "\<not> is_unreserved CHR ''%''" "\<not> is_unreserved CHR ''/''"
  by code_simp+

lemma url_decode_plain: "c \<noteq> CHR ''%'' \<Longrightarrow> url_decode (c # s) = c # url_decode s"
  by (cases s rule: url_decode.cases) auto

lemma url_decode_encode: "url_decode (url_encode s) = s"
proof (induction s)
  case (Cons c s)
  show ?case
  proof (cases "is_unreserved c")
    case True
    then have "c \<noteq> CHR ''%''" using percent_reserved(1) by blast
    then show ?thesis using Cons True by (simp add: url_encode_def encode_byte_def url_decode_plain)
  next
    case False
    then show ?thesis
      using Cons half_byte [of c] by (simp add: url_encode_def encode_byte_def hex_value_upper char_halves)
  qed
qed (simp add: url_encode_def)

lemma unreserved_no_slash: "CHR ''/'' \<notin> set (url_encode s)"
proof (induction s)
  case (Cons c s)
  have "hex_upper d \<noteq> CHR ''/''" if "d < 16" for d
  proof -
    have "d \<in> set [0 ..< 16]" using that by simp
    then show ?thesis by (simp add: upt_rec hex_upper_def) (elim disjE; simp; code_simp)
  qed
  moreover have "(of_char c :: nat) div 16 < 16" by (rule half_byte)
  ultimately have "CHR ''/'' \<noteq> hex_upper (of_char c div 16)" "CHR ''/'' \<noteq> hex_upper (of_char c mod 16)"
    by (metis, metis mod_less_divisor zero_less_numeral)
  then have "CHR ''/'' \<notin> set (encode_byte c)"
    using percent_reserved(2) by (cases "c = CHR ''/''") (auto simp: encode_byte_def)
  then show ?case using Cons by (simp add: url_encode_def)
qed (simp add: url_encode_def)

lemma path_parts_whole: "CHR ''/'' \<notin> set s \<Longrightarrow> path_parts s acc = [rev acc @ s]"
  by (induction s arbitrary: acc) auto

lemma path_parts_join:
  "CHR ''/'' \<notin> set s \<Longrightarrow> path_parts (s @ CHR ''/'' # t) acc = (rev acc @ s) # path_parts t []"
  by (induction s arbitrary: acc) auto

lemma pieces_after: "CHR ''/'' \<notin> set s \<Longrightarrow> address_pieces (s @ CHR ''/'' # t) = url_decode s # address_pieces t"
  by (simp add: address_pieces_def path_parts_join)

lemma pieces_id: "address_pieces (url_encode s) = [s]"
  "address_pieces (url_encode s @ CHR ''/'' # t) = s # address_pieces t"
  by (simp_all add: pieces_after unreserved_no_slash url_decode_encode)
    (simp add: address_pieces_def path_parts_whole unreserved_no_slash url_decode_encode)

text \<open>
  An id on the command line reaches the control plane as one piece of the address and exactly as
  it was written, whatever characters it has: it adds no piece, ends none, and reads back as itself.
\<close>

theorem id_is_one_piece_of_the_address:
  "address_pieces (request_path (RunsGet i)) = [[], ''v0'', ''runs'', i] \<and>
   address_pieces (request_path (SandboxesShow i)) = [[], ''v0'', ''sandboxes'', i] \<and>
   address_pieces (request_path (AuditResolve i note)) = [[], ''v0'', ''audit'', ''conflicts'', i, ''resolve''] \<and>
   address_pieces (request_path (SandboxesRequestsApprove i)) = [[], ''v0'', ''sandboxes'', ''requests'', i, ''approve''] \<and>
   address_pieces (request_path (SandboxesRequestsReject i)) = [[], ''v0'', ''sandboxes'', ''requests'', i, ''reject'']"
proof -
  have p: "address_pieces (CHR ''/'' # s) = [] # address_pieces s"
    "address_pieces (''v0/'' @ s) = ''v0'' # address_pieces s"
    "address_pieces (''runs/'' @ s) = ''runs'' # address_pieces s"
    "address_pieces (''sandboxes/'' @ s) = ''sandboxes'' # address_pieces s"
    "address_pieces (''audit/'' @ s) = ''audit'' # address_pieces s"
    "address_pieces (''conflicts/'' @ s) = ''conflicts'' # address_pieces s"
    "address_pieces (''requests/'' @ s) = ''requests'' # address_pieces s"
    "address_pieces ''resolve'' = [''resolve'']" "address_pieces ''approve'' = [''approve'']"
    "address_pieces ''reject'' = [''reject'']" for s
    by (simp_all add: address_pieces_def url_decode_plain)
  show ?thesis using p [simplified] pieces_id by (simp add: request_path_def)
qed

section \<open>What is sent\<close>

lemma report_sent [simp]: "ct_sent (snd (report E args e t)) = ct_sent t"
  by (simp add: report_def print_err_def)

lemma fst_report [simp]: "fst (report E args e t) = ce_code e"
  by (simp add: report_def)

lemma print_sent [simp]: "ct_sent (print_out s t) = ct_sent t" "ct_sent (print_err s t) = ct_sent t"
  by (simp_all add: print_out_def print_err_def)

lemma resolve_key_file_sent: "ct_sent (snd (resolve_key_file E c t)) = ct_sent t"
  by (cases c) (auto simp: resolve_key_file_def split: option.split sum.split)

lemma open_session_sent: "ct_sent (snd (open_session E args t)) = ct_sent t"
proof -
  have "ct_sent (snd (remote_token E args t)) = ct_sent t"
    by (simp add: remote_token_def split: option.split)
  then show ?thesis
    by (cases "remote_token E args t"; cases "fst (remote_token E args t)")
      (auto simp: open_session_def Let_def split: option.split)
qed

lemma client_new_error: "client_new E base token timeout = Inl e \<Longrightarrow> ce_code e \<noteq> 0"
  by (auto simp: client_new_def error_local_def EXIT_LOCAL_def split: option.splits)

lemma remote_token_error: "remote_token E args t = (Inl e, u) \<Longrightarrow> ce_code e \<noteq> 0"
  by (auto simp: remote_token_def read_token_file_def error_auth_def EXIT_AUTH_def map_sum_def split: option.splits if_splits sum.splits)

lemma open_session_error:
  assumes "open_session E args t = (Inl e, u)"
  shows "ce_code e \<noteq> 0"
proof (cases "ca_remote args")
  case None
  then show ?thesis using assms by (auto simp: open_session_def error_refused_def EXIT_USAGE_def)
next
  case (Some remote)
  obtain r v where token: "remote_token E args t = (r, v)" by fastforce
  show ?thesis
    using assms remote_token_error [of E args t e v] client_new_error [of E "remote_base_url remote"]
    by (cases r) (auto simp: open_session_def Some token Let_def bind_result_Inl_iff)
qed

definition consents :: "cli_env \<Rightarrow> cli_args \<Rightarrow> bool" where
  "consents E args \<longleftrightarrow>
     ca_yes args \<or>
     cv_is_terminal E \<and> (\<exists>line. cv_answer E = Some line \<and> (\<exists>y \<in> {''y'', ''yes''}. eq_ignore_ascii_case (trim line) y))"

lemma confirm_sent: "ct_sent (snd (confirm E prompt yes t)) = ct_sent t"
  by (simp add: confirm_def)

lemma confirm_asks:
  "\<not> consents E args \<Longrightarrow> \<exists>e u. confirm E prompt (ca_yes args) t = (Inl e, u) \<and> ce_code e = EXIT_USAGE \<and> ct_sent u = ct_sent t"
  by (auto simp: confirm_def consents_def error_refused_def split: option.split)

text \<open>
  C9. A command that destroys something (it has a confirmation) is sent only with consent: without
  \<open>--yes\<close>, and without a terminal at which the question is answered by yes, the program ends with an
  error, whatever else the line, the files and the control plane are, and has sent nothing.
\<close>

theorem nothing_destroyed_unasked:
  assumes "confirmation (cv_quoted E) (ca_command args) \<noteq> None" and "\<not> consents E args"
  shows "\<exists>code t. run_command E args silent_trace = Some (code, t) \<and> code \<noteq> 0 \<and> ct_sent t = []"
proof -
  have key: "resolve_key_file E (ca_command args) silent_trace = (Inr (ca_command args), silent_trace)"
    using assms(1) by (auto simp: resolve_key_file_def confirmation_def split: command.splits)
  obtain prompt where prompt: "confirmation (cv_quoted E) (ca_command args) = Some prompt" using assms(1) by blast
  obtain r t where session: "open_session E args silent_trace = (r, t)" by fastforce
  have t: "ct_sent t = []" using open_session_sent [of E args silent_trace] session by (simp add: silent_trace_def)
  show ?thesis
  proof (cases r)
    case (Inl e)
    have "ce_code e \<noteq> 0" using open_session_error session Inl by blast
    then have "fst (report E args e t) \<noteq> 0 \<and> ct_sent (snd (report E args e t)) = []" using t by simp
    then show ?thesis by (cases "report E args e t") (simp add: run_command_def key session Inl)
  next
    case (Inr S)
    obtain e u where e: "confirm E prompt (ca_yes args) t = (Inl e, u)" "ce_code e = EXIT_USAGE" "ct_sent u = ct_sent t"
      using confirm_asks [OF assms(2)] by blast
    have "fst (report E args e u) \<noteq> 0 \<and> ct_sent (snd (report E args e u)) = []"
      using t e by (simp add: EXIT_USAGE_def)
    then show ?thesis by (cases "report E args e u") (simp add: run_command_def key session Inr prompt e(1))
  qed
qed

text \<open>A control plane that accepts everything, asked over a pipe.\<close>

definition accepting_env :: cli_env where
  "accepting_env =
     \<lparr>cv_crates = sample_externs, cv_quoted = id, cv_lossy = id, cv_usage = [], cv_version = ''1'', cv_client_error = (\<lambda>_. None),
      cv_send = (\<lambda>_ _. Inr (200, Inr ''{}'')), cv_read = (\<lambda>_. Inl ''none''), cv_read_text = (\<lambda>_. Inl ''none''),
      cv_write = (\<lambda>_ _. None), cv_stdout_works = True, cv_is_terminal = False, cv_answer = None, cv_token_var = None,
      cv_stream = [], cv_stream_end = Ended, cv_seen = 0\<rparr>"

definition plain_line :: "command \<Rightarrow> cli_args" where
  "plain_line c =
     \<lparr>ca_command = c, ca_remote = Some ''h:1'', ca_token_file = None, ca_token = None, ca_json = True, ca_yes = False,
      ca_follow = False, ca_wait = False\<rparr>"

theorem nothing_destroyed_unasked_witness:
  "\<exists>code t. run_command accepting_env (plain_line SessionsClearAll) silent_trace = Some (code, t) \<and> code \<noteq> 0 \<and> ct_sent t = []"
proof (rule nothing_destroyed_unasked)
  show "confirmation (cv_quoted accepting_env) (ca_command (plain_line SessionsClearAll)) \<noteq> None"
    by (simp add: plain_line_def confirmation_def)
  show "\<not> consents accepting_env (plain_line SessionsClearAll)"
    by (simp add: consents_def accepting_env_def plain_line_def)
qed

section \<open>What the exit code says\<close>

text \<open>The answer to a request, and the request it answers.\<close>

definition answered_well :: "cli_env \<Rightarrow> cli_request list \<Rightarrow> bool" where
  "answered_well E sent \<longleftrightarrow>
     sent \<noteq> [] \<and> (\<exists>status body. cv_send E (butlast sent) (last sent) = Inr (status, Inr body) \<and> 200 \<le> status \<and> status \<le> 299)"

lemma exit_ok: "exit_code_for status = 0 \<longleftrightarrow> 200 \<le> status \<and> status \<le> 299"
  by (simp add: exit_code_for_def EXIT_OK_def EXIT_USAGE_def EXIT_AUTH_def EXIT_REMOTE_def)

lemma client_send_cases:
  obtains (failed) e where "client_send E q t = (Inl e, t\<lparr>ct_sent := ct_sent t @ [q]\<rparr>)" "ce_code e = EXIT_LOCAL"
  | (answered) r body where "client_send E q t = (Inr r, t\<lparr>ct_sent := ct_sent t @ [q]\<rparr>)"
      "cv_send E (ct_sent t) q = Inr (re_status r, Inr body)"
proof -
  obtain a where a: "cv_send E (ct_sent t) q = a" by simp
  consider (none) e where "a = Inl e" | (unread) status e where "a = Inr (status, Inl e)"
    | (read) status body where "a = Inr (status, Inr body)"
    by (metis sum.exhaust surj_pair)
  then show ?thesis
  proof cases
    case read
    show ?thesis
      by (rule answered [of "\<lparr>re_status = status, re_body = cv_lossy E body,
            re_json = x_parse (cv_crates E) (cv_lossy E body)\<rparr>" body])
        (simp_all add: client_send_def send_request_def a read)
  qed (use failed in \<open>simp_all add: client_send_def send_request_def error_local_def a\<close>)
qed

text \<open>The last request sent is the command's own, to the control plane named, and was accepted.\<close>

definition carried_out :: "cli_env \<Rightarrow> string \<Rightarrow> command \<Rightarrow> cli_trace \<Rightarrow> bool" where
  "carried_out E base c t \<longleftrightarrow>
     answered_well E (ct_sent t) \<and> cr_method (last (ct_sent t)) = command_method c \<and>
     cr_url (last (ct_sent t)) = base @ request_path c"

lemma carried_out_sent: "ct_sent u = ct_sent t \<Longrightarrow> carried_out E base c u = carried_out E base c t"
  by (simp add: carried_out_def)

lemma from_reply_code [simp]: "ce_code (from_reply r) = exit_code_for (re_status r)"
  by (simp add: from_reply_def)

lemma show_reply_success:
  "show_reply E args r t = (0, u) \<Longrightarrow> 200 \<le> re_status r \<and> re_status r \<le> 299 \<and> ct_sent u = ct_sent t"
  by (auto simp: show_reply_def report_def reply_succeeded_def exit_ok split: if_splits)

lemma request_of_client_fields [simp]:
  "cr_method (request_of_client C m p a b) = m" "cr_url (request_of_client C m p a b) = cc_base C @ p"
  by (simp_all add: request_of_client_def)

lemma sent_and_accepted:
  assumes "client_send E q t = (Inr r, u)" and "200 \<le> re_status r" "re_status r \<le> 299"
    and "cr_method q = command_method c" "cr_url q = base @ request_path c"
  shows "carried_out E base c u"
  by (rule client_send_cases [of E q t]) (use assms in \<open>auto simp: carried_out_def answered_well_def\<close>)

lemma send_error: "client_send E q t = (Inl e, u) \<Longrightarrow> ce_code e = EXIT_LOCAL"
  by (rule client_send_cases [of E q t]) auto

lemma bytes_accepted:
  assumes "post_bytes E C path body content_type t = (Inr answer, u)"
    and "cc_base C = base" "path = request_path c" "command_method c = ''POST''"
  shows "carried_out E base c u"
  using assms
  by (auto simp: post_bytes_def send_request_def Let_def carried_out_def answered_well_def split: sum.splits if_splits)


lemma error_codes [simp]:
  "ce_code (error_local m) = EXIT_LOCAL" "ce_code (error_auth m) = EXIT_AUTH" "ce_code (error_refused m) = EXIT_USAGE"
  "0 < EXIT_LOCAL" "0 < EXIT_AUTH" "0 < EXIT_USAGE" "0 < EXIT_REMOTE"
  by (simp_all add: error_local_def error_auth_def error_refused_def EXIT_LOCAL_def EXIT_AUTH_def EXIT_USAGE_def EXIT_REMOTE_def)

lemma bytes_error:
  assumes "post_bytes E C path body content_type t = (Inl e, u)"
  shows "ce_code e \<noteq> 0"
proof -
  have "exit_code_for status \<noteq> 0" if "\<not> (200 \<le> status \<and> status \<le> 299)" for status
    using that exit_ok by blast
  then show ?thesis
    using assms by (auto simp: post_bytes_def Let_def split: sum.splits if_splits prod.splits)
qed

lemma report_code: "report E args e t = (n, u) \<Longrightarrow> n = ce_code e"
  by (simp add: report_def)

lemma local_report [simp]: "report E args (error_local m) t \<noteq> (0, u)"
  by (simp add: report_def)

lemma import_success:
  assumes "import_workspace E args S archive t = (0, u)" and "ca_command args = WorkspaceImport archive force"
  shows "carried_out E (cc_base (cs_control S)) (ca_command args) u"
proof -
  obtain bytes where bytes: "cv_read E archive = Inr bytes"
    using assms(1) by (cases "cv_read E archive") (auto simp: import_workspace_def)
  obtain content_type where ct: "archive_content_type bytes = Some content_type"
    using assms(1) by (cases "archive_content_type bytes") (auto simp: import_workspace_def bytes)
  obtain r v where sent: "post_bytes E (cs_control S) (request_path (ca_command args)) bytes content_type t = (r, v)"
    by fastforce
  show ?thesis
  proof (cases r)
    case (Inl e)
    then have "report E args e v = (0, u)" using assms(1) by (simp add: import_workspace_def bytes ct sent)
    then show ?thesis using bytes_error sent Inl report_code by metis
  next
    case (Inr answer)
    have "carried_out E (cc_base (cs_control S)) (ca_command args) v"
      using sent Inr assms(2) by (intro bytes_accepted) (auto simp: command_method_def)
    moreover have "ct_sent u = ct_sent v"
      using assms(1) by (auto simp: import_workspace_def bytes ct sent Inr Let_def)
    ultimately show ?thesis using carried_out_sent by blast
  qed
qed

lemma export_success:
  assumes "export_workspace E args S target t = (0, u)" and "ca_command args = WorkspaceExport target"
  shows "carried_out E (cc_base (cs_control S)) (ca_command args) u"
proof (cases "post_bytes E (cs_control S) (request_path (ca_command args)) [] ''application/json'' t")
  case (Pair r v)
  show ?thesis
  proof (cases r)
    case (Inl e)
    then have "report E args e v = (0, u)" using assms(1) by (simp add: export_workspace_def Pair)
    then show ?thesis using bytes_error Pair Inl report_code by metis
  next
    case (Inr bytes)
    have "carried_out E (cc_base (cs_control S)) (ca_command args) v"
      using Pair Inr assms(2) by (intro bytes_accepted) (auto simp: command_method_def)
    moreover have "ct_sent u = ct_sent v"
      using assms(1) by (auto simp: export_workspace_def Pair Inr split: option.splits if_splits)
    ultimately show ?thesis using carried_out_sent by blast
  qed
qed

lemma reply_success:
  assumes "(case client_send E q t of (Inl e, t) \<Rightarrow> report E args e t | (Inr r, t) \<Rightarrow> show_reply E args r t) = (0, u)"
    and "cr_method q = command_method c" "cr_url q = base @ request_path c"
  shows "carried_out E base c u"
proof (cases "client_send E q t")
  case (Pair r v)
  show ?thesis
  proof (cases r)
    case (Inl e)
    then have "report E args e v = (0, u)" using assms(1) by (simp add: Pair)
    then have "ce_code e = 0" using report_code by metis
    moreover have "ce_code e = EXIT_LOCAL" using Pair Inl send_error by blast
    ultimately show ?thesis by (simp add: EXIT_LOCAL_def)
  next
    case (Inr x)
    then have "show_reply E args x v = (0, u)" using assms(1) by (simp add: Pair)
    then have "200 \<le> re_status x" "re_status x \<le> 299" "ct_sent u = ct_sent v" using show_reply_success by blast+
    then show ?thesis using sent_and_accepted [of E q t x v c base] assms(2,3) carried_out_sent [of u v] by (simp add: Pair Inr)
  qed
qed

lemma dispatch_success:
  assumes "dispatch_command E args S t = (0, u)" and "ca_command args \<noteq> NodeCapabilities"
    and "cc_base (cs_read S) = base" and "cc_base (cs_control S) = base"
  shows "carried_out E base (ca_command args) u"
proof -
  let ?q = "if command_method (ca_command args) = ''GET''
      then request_of_client (cs_read S) ''GET'' (request_path (ca_command args)) (Some ''application/json'') NoBody
      else request_of_client (cs_control S) ''POST'' (request_path (ca_command args)) (Some ''application/json'')
        (case request_body (ca_command args) of None \<Rightarrow> NoBody | Some v \<Rightarrow> JsonBody (x_text (cv_crates E) v))"
  have verb: "command_method c = ''GET'' \<or> command_method c = ''POST''" for c
    by (cases c) (simp_all add: command_method_def)
  consider (import_) archive force where "ca_command args = WorkspaceImport archive force"
    | (export_) target where "ca_command args = WorkspaceExport target"
    | (other) "dispatch_command E args S t =
        (case client_send E ?q t of (Inl e, t) \<Rightarrow> report E args e t | (Inr r, t) \<Rightarrow> show_reply E args r t)"
    using assms(2) by (cases "ca_command args") (simp_all add: dispatch_command_def client_get_def client_post_def Let_def)
  then show ?thesis
  proof cases
    case import_
    then show ?thesis using import_success [of E args S archive t u force] assms by (simp add: dispatch_command_def Let_def)
  next
    case export_
    then show ?thesis using export_success [of E args S target t u] assms by (simp add: dispatch_command_def Let_def)
  next
    case other
    show ?thesis
      by (rule reply_success [OF assms(1) [unfolded other]]) (use verb [of "ca_command args"] assms(3,4) in auto)
  qed
qed

lemma subscribe_error: "subscribe E S t = Some (Inl e, u) \<Longrightarrow> ce_code e \<noteq> 0"
proof -
  assume a: "subscribe E S t = Some (Inl e, u)"
  have frame: "next_frame ending i data lines = Some (Inl e, rest) \<Longrightarrow> ce_code e = EXIT_LOCAL" for ending i data lines rest
    by (induction lines arbitrary: i data)
      (auto simp: Let_def error_local_def split: if_splits option.splits stream_end.splits)
  have failed: "exit_code_for status \<noteq> 0" if "\<not> (200 \<le> status \<and> status \<le> 299)" for status
    using that exit_ok by blast
  have opened: "open_stream E C path t = (Inl e, u) \<Longrightarrow> ce_code e \<noteq> 0" for C path
    using failed by (auto simp: open_stream_def Let_def split: sum.splits if_splits prod.splits)
  obtain r v where o: "open_stream E (cs_stream S) ''/v0/events'' t = (r, v)" by fastforce
  show ?thesis
  proof (cases r)
    case (Inl e')
    then show ?thesis using a opened o by (auto simp: subscribe_def)
  next
    case (Inr lines)
    then show ?thesis
      using a frame by (auto simp: subscribe_def o split: option.splits sum.splits prod.splits if_splits)
  qed
qed

lemma follow_success:
  assumes "follow_run E args S t = Some (0, u)" and "is_run (ca_command args)"
  shows "carried_out E (cc_base (cs_control S)) (ca_command args) u"
proof -
  let ?q = "request_of_client (cs_control S) ''POST'' ''/v0/agent/run'' (Some ''application/json'')
        (case request_body (ca_command args) of None \<Rightarrow> NoBody | Some v \<Rightarrow> JsonBody (x_text (cv_crates E) v))"
  let ?seen = "\<lambda>lines. print_out (follow_reader E (ca_json args) (cv_seen E) lines)"
  have path: "request_path (ca_command args) = ''/v0/agent/run''" "command_method (ca_command args) = ''POST''"
    using assms(2) by (auto simp: is_run_def request_path_def command_method_def split: command.splits)
  obtain lines v where sub: "subscribe E S t = Some (Inr lines, v)"
    using assms(1) subscribe_error report_code by (fastforce simp: follow_run_def split: option.splits sum.splits)
  obtain r w where sent: "client_send E ?q v = (r, w)" by fastforce
  show ?thesis
  proof (cases r)
    case (Inl e)
    then have "report E args e (?seen lines w) = (0, u)"
      using assms(1) sent by (simp add: follow_run_def sub client_post_def)
    then have "ce_code e = 0" using report_code by metis
    then show ?thesis using send_error sent Inl by (fastforce simp: EXIT_LOCAL_def)
  next
    case (Inr x)
    then have "show_reply E args x (?seen lines w) = (0, u)"
      using assms(1) sent by (simp add: follow_run_def sub client_post_def)
    then have ok: "200 \<le> re_status x" "re_status x \<le> 299" and u: "ct_sent u = ct_sent w"
      using show_reply_success [of E args x "?seen lines w" u] by simp_all
    then show ?thesis
      using sent_and_accepted [of E ?q v x w "ca_command args"] sent Inr path carried_out_sent [OF u] by simp
  qed
qed

lemma wait_success:
  assumes "wait_run E args S w t = Some (0, u)" and "waiting_for (ca_command args) = Some w"
  shows "carried_out E (cc_base (cs_control S)) (ca_command args) u"
proof -
  let ?c = "ca_command args"
  let ?q = "request_of_client (cs_control S) ''POST'' (request_path ?c) (Some ''application/json'')
        (case request_body ?c of None \<Rightarrow> NoBody | Some v \<Rightarrow> JsonBody (x_text (cv_crates E) v))"
  have verb: "command_method ?c = ''POST''"
    using assms(2) by (auto simp: waiting_for_def command_method_def split: command.splits)
  obtain lines v where sub: "subscribe E S t = Some (Inr lines, v)"
    using assms(1) subscribe_error report_code by (fastforce simp: wait_run_def split: option.splits sum.splits)
  obtain r x where sent: "client_send E ?q v = (r, x)" by fastforce
  show ?thesis
  proof (cases r)
    case (Inl e)
    then have "report E args e (print_out (wait_glimpse E (ca_json args) w (cv_seen E) lines) x) = (0, u)"
      using assms(1) sent by (simp add: wait_run_def sub client_post_def)
    then have "ce_code e = 0" using report_code by metis
    then show ?thesis using send_error sent Inl by (fastforce simp: EXIT_LOCAL_def)
  next
    case (Inr a)
    show ?thesis
    proof (cases "reply_succeeded a")
      case True
      then have "ct_sent u = ct_sent x"
        using assms(1) sent Inr by (auto simp: wait_run_def sub client_post_def split: option.splits if_splits)
      then show ?thesis
        using sent_and_accepted [of E ?q v a x ?c] sent Inr verb True carried_out_sent [of u x]
        by (simp add: reply_succeeded_def)
    next
      case False
      then have "report E args (from_reply a) (print_out (wait_glimpse E (ca_json args) w (cv_seen E) lines) x) = (0, u)"
        using assms(1) sent Inr by (simp add: wait_run_def sub client_post_def)
      then have "exit_code_for (re_status a) = 0" using report_code by fastforce
      then show ?thesis using False by (simp add: exit_ok reply_succeeded_def)
    qed
  qed
qed

lemma resolved_command:
  assumes "resolve_key_file E c t = (Inr c', u)"
  shows "request_path c' = request_path c" "command_method c' = command_method c" "is_run c' = is_run c"
    "c' = NodeCapabilities \<longleftrightarrow> c = NodeCapabilities"
  using assms
  by (cases c; auto simp: resolve_key_file_def request_path_def command_method_def is_run_def split: option.splits sum.splits)+

lemma resolve_error: "resolve_key_file E c t = (Inl e, u) \<Longrightarrow> ce_code e \<noteq> 0"
  by (cases c) (auto simp: resolve_key_file_def split: option.splits sum.splits)

lemma session_base:
  assumes "open_session E args t = (Inr S, u)"
  shows "\<exists>remote. ca_remote args = Some remote \<and> cc_base (cs_read S) = remote_base_url remote \<and>
    cc_base (cs_control S) = remote_base_url remote"
proof -
  obtain r v where "remote_token E args t = (r, v)" by fastforce
  then show ?thesis
    using assms
    by (cases r)
      (auto simp: open_session_def Let_def bind_result_Inr_iff client_new_def split: option.splits)
qed

text \<open>
  C10. An exit code of 0 is the control plane's word: whatever the way a command took (plainly, following
  a run, waiting for work, carrying an archive), the last request it sent is the command's own, to the
  control plane the line names, and was answered with a success.
\<close>

theorem success_is_the_control_planes:
  assumes "run_command E args silent_trace = Some (0, t)"
    and "ca_command args \<noteq> NodeCapabilities" and "ca_follow args \<Longrightarrow> is_run (ca_command args)"
  shows "\<exists>remote. ca_remote args = Some remote \<and> carried_out E (remote_base_url remote) (ca_command args) t"
proof -
  obtain r u where key: "resolve_key_file E (ca_command args) silent_trace = (r, u)" by fastforce
  have "\<exists>c. r = Inr c"
    using assms(1) resolve_error key report_code by (cases r) (fastforce simp: run_command_def)+
  then obtain c where r: "r = Inr c" by blast
  note c = resolved_command [OF key [unfolded r]]
  let ?args = "args\<lparr>ca_command := c\<rparr>"
  obtain s v where session: "open_session E ?args u = (s, v)" by fastforce
  have "\<exists>S. s = Inr S"
    using assms(1) open_session_error session report_code by (cases s) (fastforce simp: run_command_def key r)+
  then obtain S where s: "s = Inr S" by blast
  obtain remote where remote: "ca_remote args = Some remote" "cc_base (cs_read S) = remote_base_url remote"
    "cc_base (cs_control S) = remote_base_url remote"
    using session_base session s by force
  obtain p w where asked: "(case confirmation (cv_quoted E) c of None \<Rightarrow> (Inr (), v)
      | Some prompt \<Rightarrow> confirm E prompt (ca_yes ?args) v) = (p, w)" by fastforce
  have p: "p = Inr ()"
  proof (cases p)
    case (Inl e)
    then have "ce_code e = EXIT_USAGE"
      using asked by (auto simp: confirm_def split: option.splits if_splits)
    moreover have "report E ?args e w = (0, t)"
      using assms(1) asked by (simp add: run_command_def key r session s Inl)
    ultimately show ?thesis using report_code by (fastforce simp: EXIT_USAGE_def)
  qed simp
  have ended: "(if ca_follow args then follow_run E ?args S w
      else if ca_wait args then
        (case waiting_for c of Some wt \<Rightarrow> wait_run E ?args S wt w
         | None \<Rightarrow> Some (report E ?args (error_refused ''--wait does not apply to this command'') w))
      else Some (dispatch_command E ?args S w)) = Some (0, t)"
    using assms(1) asked p by (cases "ca_follow args"; cases "ca_wait args") (simp_all add: run_command_def key r session s Let_def)
  have "carried_out E (remote_base_url remote) c t"
  proof (cases "ca_follow args")
    case True
    then show ?thesis using follow_success [of E ?args S w t] ended assms(3) c(3) remote by simp
  next
    case follow: False
    show ?thesis
    proof (cases "ca_wait args")
      case True
      then show ?thesis
        using wait_success [of E ?args S _ w t] ended follow remote
        by (cases "waiting_for c") (auto simp: report_def EXIT_USAGE_def)
    next
      case False
      then show ?thesis
        using dispatch_success [of E ?args S w t] ended follow remote assms(2) c(4) by simp
    qed
  qed
  then show ?thesis using remote c by (simp add: carried_out_def)
qed

theorem success_is_the_control_planes_witness:
  "\<exists>remote. ca_remote (plain_line VmStart) = Some remote \<and>
     carried_out accepting_env (remote_base_url remote) VmStart
       (snd (the (run_command accepting_env (plain_line VmStart) silent_trace)))"
proof -
  have "\<exists>t. run_command accepting_env (plain_line VmStart) silent_trace = Some (0, t)"
    by (simp add: run_command_def resolve_key_file_def plain_line_def open_session_def remote_token_def accepting_env_def
        client_new_def confirmation_def dispatch_command_def command_method_def client_post_def client_send_def
        send_request_def show_reply_def reply_succeeded_def EXIT_OK_def Let_def)
  then obtain t where t: "run_command accepting_env (plain_line VmStart) silent_trace = Some (0, t)" by blast
  then show ?thesis
    using success_is_the_control_planes [OF t] by (simp add: plain_line_def)
qed

section \<open>What a node can run\<close>

definition CAPABILITY_PATHS :: "string list" where
  "CAPABILITY_PATHS = ''/v0/identity'' # map snd CAPABILITY_READS"

definition read_request :: "cli_session \<Rightarrow> string \<Rightarrow> cli_request" where
  "read_request S path = request_of_client (cs_read S) ''GET'' path (Some ''application/json'') NoBody"

text \<open>What the \<open>i\<close>-th of the six reads gives, after those before it.\<close>

definition section_read :: "cli_env \<Rightarrow> cli_session \<Rightarrow> nat \<Rightarrow> json \<times> nat" where
  "section_read E S i =
     capability_section (fst (client_send E (read_request S (CAPABILITY_PATHS ! i))
       (silent_trace\<lparr>ct_sent := map (read_request S) (take i CAPABILITY_PATHS)\<rparr>)))"

definition after_reads :: "cli_session \<Rightarrow> nat \<Rightarrow> cli_trace" where
  "after_reads S i = silent_trace\<lparr>ct_sent := map (read_request S) (take i CAPABILITY_PATHS)\<rparr>"

lemma client_get_section:
  assumes "i < 6"
  shows "\<exists>outcome. client_get E (cs_read S) (CAPABILITY_PATHS ! i) (after_reads S i) = (outcome, after_reads S (Suc i)) \<and>
    capability_section outcome = section_read E S i"
proof -
  let ?q = "read_request S (CAPABILITY_PATHS ! i)"
  obtain outcome where sent: "client_send E ?q (after_reads S i) =
      (outcome, (after_reads S i)\<lparr>ct_sent := ct_sent (after_reads S i) @ [?q]\<rparr>)"
    by (rule client_send_cases [of E ?q "after_reads S i"]) blast+
  have "i < length CAPABILITY_PATHS" using assms by (simp add: CAPABILITY_PATHS_def CAPABILITY_READS_def)
  then have "(after_reads S i)\<lparr>ct_sent := ct_sent (after_reads S i) @ [?q]\<rparr> = after_reads S (Suc i)"
    by (simp add: after_reads_def take_Suc_conv_app_nth)
  moreover have "capability_section outcome = section_read E S i"
    using sent by (simp add: section_read_def after_reads_def)
  ultimately show ?thesis using sent by (simp add: client_get_def read_request_def)
qed

text \<open>
  C24. Asking what a node can run always makes the same six reads, in order, whichever of them fail; each
  section of the answer is what its own read gave (the failure in its place when it failed), and the
  exit code is the worst of the six.
\<close>

theorem every_section_is_read:
  "\<exists>t. node_capabilities E args S silent_trace = (Max {snd (section_read E S i) |i. i \<in> {0, 1, 2, 3, 4, 5}}, t) \<and>
     ct_sent t = map (read_request S) CAPABILITY_PATHS \<and>
     (let v = (\<lambda>i. fst (section_read E S i));
          sections = [(''executors'', v 1),
            (''node_id'', case json_get ''node_id'' (v 0) of None \<Rightarrow> v 0 | Some n \<Rightarrow> n),
            (''peers'', v 5), (''qemu'', v 3), (''sandboxes'', v 2), (''toolchain'', v 4)]
      in ct_out t = (if ca_json args then x_text (cv_crates E) (JObj sections)
                     else render_capabilities (cv_crates E) sections) @ newline)"
proof -
  have start: "after_reads S 0 = silent_trace" by (simp add: after_reads_def silent_trace_def)
  have paths: "CAPABILITY_PATHS = [''/v0/identity'', ''/v0/executors'', ''/v0/sandboxes'', ''/v0/qemu'', ''/v0/toolchain'', ''/v0/peers'']"
    by (simp add: CAPABILITY_PATHS_def CAPABILITY_READS_def)
  note step = client_get_section [of _ E S, unfolded paths]
  obtain o0 t1 where r0: "client_get E (cs_read S) ''/v0/identity'' silent_trace = (o0, t1)"
    "capability_section o0 = section_read E S 0" "t1 = after_reads S 1"
    using step [of 0] start by auto
  obtain o1 t2 where r1: "client_get E (cs_read S) ''/v0/executors'' t1 = (o1, t2)"
    "capability_section o1 = section_read E S 1" "t2 = after_reads S 2"
    using step [of 1] r0(3) by (auto simp: numeral_2_eq_2)
  obtain o2 t3 where r2: "client_get E (cs_read S) ''/v0/sandboxes'' t2 = (o2, t3)"
    "capability_section o2 = section_read E S 2" "t3 = after_reads S 3"
    using step [of 2] r1(3) by auto
  obtain o3 t4 where r3: "client_get E (cs_read S) ''/v0/qemu'' t3 = (o3, t4)"
    "capability_section o3 = section_read E S 3" "t4 = after_reads S 4"
    using step [of 3] r2(3) by auto
  obtain o4 t5 where r4: "client_get E (cs_read S) ''/v0/toolchain'' t4 = (o4, t5)"
    "capability_section o4 = section_read E S 4" "t5 = after_reads S 5"
    using step [of 4] r3(3) by auto
  obtain o5 t6 where r5: "client_get E (cs_read S) ''/v0/peers'' t5 = (o5, t6)"
    "capability_section o5 = section_read E S 5" "t6 = after_reads S 6"
    using step [of 5] r4(3) by auto
  have t6: "ct_sent t6 = map (read_request S) CAPABILITY_PATHS" "ct_out t6 = []"
    by (simp_all add: r5(3) after_reads_def paths silent_trace_def)
  have codes: "{snd (section_read E S i) |i. i \<in> {0, 1, 2, 3, 4, 5}} = snd ` section_read E S ` {0, 1, 2, 3, 4, 5}" by blast
  let ?v = "\<lambda>i. fst (section_read E S i)"
  let ?c = "\<lambda>i. snd (section_read E S i)"
  have get: "read_sections E S CAPABILITY_READS m n t1 =
      ((put ''peers'' (?v 5) (put ''toolchain'' (?v 4) (put ''qemu'' (?v 3) (put ''sandboxes'' (?v 2) (put ''executors'' (?v 1) m)))),
        max (max (max (max (max n (?c 1)) (?c 2)) (?c 3)) (?c 4)) (?c 5)), t6)" for m n
    by (simp add: CAPABILITY_READS_def r1(1,2) r2(1,2) r3(1,2) r4(1,2) r5(1,2) split_beta)
  have sorted: "put ''peers'' p (put ''toolchain'' t (put ''qemu'' q (put ''sandboxes'' s (put ''executors'' e (put ''node_id'' i []))))) =
      [(''executors'', e), (''node_id'', i), (''peers'', p), (''qemu'', q), (''sandboxes'', s), (''toolchain'', t)]" for p t q s e i :: json
    by simp
  have worst: "max (max (max (max (max (?c 0) (?c 1)) (?c 2)) (?c 3)) (?c 4)) (?c 5) = Max (snd ` section_read E S ` {0, 1, 2, 3, 4, 5})"
    by (simp add: max.assoc)
  show ?thesis
    unfolding codes worst [symmetric] node_capabilities_def
    by (simp only: r0(1,2) get sorted prod.case split_beta Let_def fst_conv snd_conv) (simp add: t6 print_out_def)
qed

end
