(* ===== verification/Spec2Isabelle.thy ===== *)
theory Spec2Isabelle
  imports Audit_Properties Relay_Properties Host_Properties Host_Guarantees Host_Project Agent_Properties Cli_Properties
begin

text \<open>
  A verification library for \<open>riscdom\<close>: the audit log (\<open>audit/\<close>), which records what the host and
  its agents do as a hash chain in SQLite; the network layer (\<open>net/\<close>), by which nodes identify
  each other, exchange signed frames over a relay server, watch each other, and stand in for a
  silent centre; the part of the host application (\<open>host-core/\<close>) that keeps the log, the sandbox
  requests and the segments; and the agent (\<open>agent/\<close>), which lets a model call tools inside a
  workspace.

  How the parts interact. Every act of the program becomes an audit event; a store appends it to its
  chain. A node that works while cut off from the centre writes into a segment, a second chain that
  opens at the centre's digest and is later merged. Nodes speak in signed messages, one per line.
  The relay server authenticates a frame (peer keys, signature, addressee, window, replay), answers
  the ones addressed to it and carries the others verbatim. The answers drive the online table, the
  witness table and the sinks; a node that hears nothing of the centre goes through the suppression
  phases before it stands in, and its segment comes back as events that are checked for delivery
  and linkage before the store merges them. The host records its own acts and those of its agents
  through one log, keeps the requests for a sandbox in step with it, and receives, checks and merges
  the segments of others. An agent's run asks the model, executes the tool calls it answers with
  under the workspace policy, and records each in the log.

  Theories and the code they model.

  \<^item> \<open>Kernel_Prelude\<close>: text, decimal numbers, association lists, results, and the interfaces
    (locales) the components share: \<open>machine\<close> (operations that keep an invariant and only move
    forward), \<open>at_most_once\<close> (a token is taken once), \<open>source_merge\<close> (merging entries by key, where
    what is held wins). Each is interpreted on the model's own definitions: \<open>store\<close> and \<open>relay\<close>,
    \<open>taken_once\<close>, \<open>rooms\<close> and \<open>table\<close>, among others.
  \<^item> \<open>Json\<close>: \<open>serde_json::Value\<close> (objects are sorted maps), \<open>canonicalize\<close> and \<open>fingerprint\<close> of
    \<open>audit/src/run.rs\<close>; \<open>externs\<close>, the record of what the code calls and this repository does not
    define (SHA-256, the JSON text and its parser, Ed25519, base64).
  \<^item> \<open>Audit_Chain\<close> (\<open>event.rs\<close>, \<open>hash.rs\<close>, \<open>error.rs\<close>), \<open>Audit_Runs\<close> (\<open>run.rs\<close>), \<open>Audit_Segments\<close>
    (\<open>segment.rs\<close>), \<open>Audit_Store\<close>, \<open>Audit_Merge\<close>, \<open>Audit_Index\<close> (\<open>store.rs\<close>, \<open>sink.rs\<close> and the two
    programs in \<open>bin/\<close>). A database is the record \<open>audit_db\<close>: the tables as lists of rows, the
    schema version, and the schedule of faults its statements will meet.
  \<^item> \<open>Net_Message\<close> (\<open>identity.rs\<close>, \<open>message.rs\<close>), \<open>Net_Auth\<close> (\<open>replay.rs\<close>, \<open>sign.rs\<close>), \<open>Net_Files\<close>
    (\<open>versioned.rs\<close>, key and peers files), \<open>Net_Rooms\<close> (\<open>rooms.rs\<close>), \<open>Net_Discovery\<close> (\<open>discovery.rs\<close>,
    \<open>registry.rs\<close>), \<open>Net_Liveness\<close>, \<open>Net_Suppression\<close>, \<open>Net_Task\<close>, \<open>Net_Transport\<close>.
  \<^item> \<open>Net_Relay\<close>, \<open>Net_Server\<close>, \<open>Net_System\<close> (\<open>relay.rs\<close>): the bodies, tables and sessions, the
    server's state and answers, and the machine whose steps interleave the frames of any number of
    connections with the calls of the server's owner.
  \<^item> \<open>Paths\<close>: \<open>std::path\<close> on Unix, as far as the code uses it: components, lexical normal form, prefix,
    extension, and what the operating system makes of a joined path.
  \<^item> \<open>Host_Audit\<close> (the log of the host: recording, failures, runs, views), \<open>Host_Requests\<close>
    (\<open>sandbox_request.rs\<close> and the commands around it), \<open>Host_Segments\<close> (standing in, delivering and
    receiving a segment), all of \<open>host-core/src/state.rs\<close>. \<open>Host_Delivery\<close>, \<open>Host_Queue\<close> and
    \<open>Host_Standing\<close> hold the lemmas on them: what a delivery appends and checks, the step relation
    \<open>serves\<close> of the requests' service against the log, and the turns of the ticker.
  \<^item> \<open>Agent_Policy\<close> (\<open>policy.rs\<close>, \<open>config.rs\<close>, \<open>presets.rs\<close>, \<open>identity.rs\<close>, \<open>error.rs\<close>), \<open>Agent_Stream\<close>
    (\<open>message.rs\<close>, \<open>sse.rs\<close>, \<open>llm.rs\<close>), \<open>Agent_Tools\<close> (\<open>tools.rs\<close>, \<open>audit_hook.rs\<close>), \<open>Agent_Loop\<close>
    (\<open>agent.rs\<close>, \<open>dispatch.rs\<close>). The world an agent acts on is its files, its VM and the events it
    handed to the log. \<open>Agent_Facts\<close> holds the interface \<open>agent_relation\<close>: what a tool call and an event
    respect, a run respects; \<open>Agent_Effects\<close> provides it by the files and by the log, and
    \<open>Agent_Replies\<close> relates a reply to the deltas announced while it was read.
  \<^item> \<open>Sample_Externs\<close>, \<open>Host_Samples\<close>: concrete externals for the witnesses, with the hypotheses the properties
    name proved of them.
  \<^item> \<open>Audit_Properties\<close>, \<open>Net_Properties\<close>, \<open>Relay_Properties\<close>, \<open>Host_Properties\<close>, \<open>Host_Guarantees\<close>,
    \<open>Agent_Properties\<close>: the properties and their witnesses.

  Conventions. Text is a list of bytes, so indices and lengths are those of Rust's \<open>str\<close>. A result
  is a sum, \<open>Inl\<close> the error. Times and ids (\<open>i64\<close>) are integers with their range in the hypotheses
  that need it; counters that saturate are written so. A locked structure is the value it guards:
  each lock is taken and released within one operation of the model, and \<open>sys_step\<close> interleaves
  those. Maps are association lists in insertion order where the code's order does not show, and
  sorted where the code uses an ordered map.

  What the lemmas show. The audit layer: the chain stays intact under every history and fault
  schedule; the verdict of the verifier is exact; an append rides out a bounded number of lock
  answers and otherwise leaves no trace; a merge folds by transcription, forks on a conflict and
  happens once; the derived runs are what the log says, and a rebuilt index agrees. The network
  layer: a frame is taken once, signatures cover every field, files reload, tables merge as
  sources, rates are bounded, frames arrive as sent. The server: sessions belong to open
  connections, carried frames are verbatim, a judgement needs every witness, judged and recovered
  alternate, standing in is earned. The host: a delivered segment is folded into the main chain, the
  queue of requests is what the log says and survives a restart, stale runs are abandoned. The
  agent: a run ends within its bound, leaves every file outside its workspace alone, brackets its
  calls in the log, and keeps the service's key out of everything. Some properties state behaviour the documentation denies
  (a moved separator, a resumed merge, a replayed hello, a refused delivery
  merged later, a root that is no root, an orphaned tool result).

  Bounds and fuel. Every definition terminates; loops over input carry a measure (\<open>receive_all\<close>) or
  are bounded by the data. The append's attempt budget and the frame limit are the code's constants.

  Not modelled: sockets, timeouts and threads beyond their interleaving; file permissions and the
  Windows access lists; the JSON text itself (a parameter with round-trip hypotheses); the exact
  wording of the standard library's UTF-8 error; the client half of the relay; HTTP, the compiler and
  QEMU, which are parameters of the agent; the other commands of the host application (sessions,
  settings, downloads); and the sandbox, the command line, backup and the worker, which are mostly
  process and socket glue.
\<close>

end
